(* ===== verification/Prelude.thy ===== *)
theory Prelude
  imports Main "HOL-Library.Sublist"
begin

text \<open>
  Shared vocabulary of the development: the lemma collections the component
  theories add to, and the generic list and string operations that stand for
  JavaScript built-ins used by the sources (\<open>String.prototype.trim\<close>,
  \<open>String.prototype.includes\<close>, \<open>Array.prototype.splice(i, 1)\<close>,
  \<open>Array.prototype.findIndex\<close>), each with the lemmas the components share.
\<close>

named_theorems model_simps "evaluation rules of the model's helper operations"
named_theorems view_simps "how the abstract views of the components read the concrete state"

section \<open>Whitespace and \<open>String.prototype.trim\<close>\<close>

text \<open>
  JavaScript's \<open>trim\<close> removes leading and trailing white space and line
  terminators. Characters here are bytes; the ASCII white space set is modelled
  (tab, line feed, vertical tab, form feed, carriage return, space). The Unicode
  space separators beyond ASCII are multi-byte sequences and are not stripped.
\<close>

definition is_js_ws :: "char \<Rightarrow> bool" where
  "is_js_ws c \<longleftrightarrow> c \<in> set [CHR 0x09, CHR 0x0A, CHR 0x0B, CHR 0x0C, CHR 0x0D, CHR 0x20]"

definition js_trim :: "string \<Rightarrow> string" where
  "js_trim s = rev (dropWhile is_js_ws (rev (dropWhile is_js_ws s)))"

section \<open>\<open>String.prototype.includes\<close>\<close>

fun js_includes :: "string \<Rightarrow> string \<Rightarrow> bool" where
  "js_includes [] pat = (pat = [])"
| "js_includes (c # cs) pat = (prefix pat (c # cs) \<or> js_includes cs pat)"

section \<open>\<open>splice(i, 1)\<close> and \<open>findIndex\<close> on lists\<close>

definition remove_nth :: "nat \<Rightarrow> 'a list \<Rightarrow> 'a list" where
  "remove_nth i xs = take i xs @ drop (Suc i) xs"

fun find_idx :: "('a \<Rightarrow> bool) \<Rightarrow> 'a list \<Rightarrow> nat option" where
  "find_idx P [] = None"
| "find_idx P (x # xs) = (if P x then Some 0 else map_option Suc (find_idx P xs))"

section \<open>\<open>String.prototype.split\<close> on one character\<close>

text \<open>\<open>s.split(c)\<close>: the pieces between the occurrences of \<open>c\<close>, empty pieces
  included; there is always at least one piece.\<close>

fun split_on :: "'a \<Rightarrow> 'a list \<Rightarrow> 'a list list" where
  "split_on c [] = [[]]"
| "split_on c (x # xs) =
     (if x = c then [] # split_on c xs else (x # hd (split_on c xs)) # tl (split_on c xs))"

section \<open>Lemmas\<close>

lemma js_includes_sublist [simp]: "js_includes s pat = sublist pat s"
  by (induction s) (auto simp: sublist_Cons_right)

lemma length_remove_nth [simp]: "i < length xs \<Longrightarrow> length (remove_nth i xs) = length xs - 1"
  by (simp add: remove_nth_def)

lemma remove_nth_map [simp]: "remove_nth i (map f xs) = map f (remove_nth i xs)"
  by (simp add: remove_nth_def drop_map take_map)

lemma find_idx_Some:
  "find_idx P xs = Some i \<Longrightarrow> i < length xs \<and> P (xs ! i) \<and> (\<forall>j < i. \<not> P (xs ! j))"
proof (induction xs arbitrary: i)
  case Nil
  then show ?case by simp
next
  case (Cons x xs)
  then show ?case
    by (auto split: if_splits simp: less_Suc_eq_0_disj)
qed

lemma find_idx_None [simp]: "find_idx P xs = None \<longleftrightarrow> (\<forall>x \<in> set xs. \<not> P x)"
  by (induction xs) auto

lemma find_Some_mem: "find P xs = Some x \<Longrightarrow> x \<in> set xs \<and> P x"
  by (induction xs) (auto split: if_splits)

lemma map2_same [simp]: "map2 f xs xs = map (\<lambda>x. f x x) xs"
  by (induction xs) auto

lemma find_idx_map [simp]: "find_idx P (map f xs) = find_idx (P \<circ> f) xs"
  by (induction xs) auto

end
