(* ===== verification/JsValue.thy ===== *)
theory JsValue
  imports Prelude
begin

text \<open>
  The part of the JavaScript runtime the sources rely on: JSON values as
  \<open>JSON.parse\<close> produces them, the objects the code mutates in place, property
  reads that throw on \<open>null\<close>, and the array methods \<open>some\<close>, \<open>findIndex\<close> and
  \<open>map\<close> with a callback that may throw. Exceptions are the values of
  \<open>js_error\<close>, so a function that may throw returns \<open>js_error + 'a\<close>.

  Numbers are kept as integers: the sources only count (\<open>length\<close>) and never
  compute with the numbers they read. Object members are association lists in
  insertion order, which is the order \<open>JSON.stringify\<close> writes them in; an object
  \<open>JSON.parse\<close> returns has distinct keys, so the first binding is the one read.
\<close>

datatype json =
    JNull
  | JBool bool
  | JNum int
  | JStr string
  | JArr "json list"
  | JObj "(string \<times> json) list"

datatype js_error = TypeError | SecurityError

text \<open>
  A parsed value the code treats as an object and writes properties into
  (\<open>data[subject] = ...\<close>). An array is an object too: properties with
  non-index names go beside its elements and \<open>JSON.stringify\<close> drops them.
  The sources are ES modules and so run in strict mode, where writing a property
  of a primitive (a string, number or boolean) throws; reading one of \<open>null\<close>
  throws as well.
\<close>

datatype jsobj =
    PlainObj "(string \<times> json) list"
  | ArrayObj "json list" "(string \<times> json) list"

section \<open>Property access\<close>

text \<open>\<open>v.k\<close> or \<open>v[k]\<close> for a name \<open>k\<close> that is no array index and no built-in
  property: \<open>undefined\<close> (\<open>None\<close>) on arrays and primitives, a \<open>TypeError\<close> on
  \<open>null\<close>.\<close>

fun get_prop :: "json \<Rightarrow> string \<Rightarrow> js_error + json option" where
  "get_prop JNull k = Inl TypeError"
| "get_prop (JObj kvs) k = Inr (map_of kvs k)"
| "get_prop _ k = Inr None"

fun alist_set :: "'k \<Rightarrow> 'v \<Rightarrow> ('k \<times> 'v) list \<Rightarrow> ('k \<times> 'v) list" where
  "alist_set k v [] = [(k, v)]"
| "alist_set k v ((k', v') # kvs) =
     (if k = k' then (k, v) # kvs else (k', v') # alist_set k v kvs)"

fun obj_get :: "jsobj \<Rightarrow> string \<Rightarrow> json option" where
  "obj_get (PlainObj kvs) k = map_of kvs k"
| "obj_get (ArrayObj xs props) k = map_of props k"

fun obj_set :: "jsobj \<Rightarrow> string \<Rightarrow> json \<Rightarrow> jsobj" where
  "obj_set (PlainObj kvs) k v = PlainObj (alist_set k v kvs)"
| "obj_set (ArrayObj xs props) k v = ArrayObj xs (alist_set k v props)"

text \<open>Reading a parsed value as an object to write into (the first
  \<open>data[subject]\<close> access of a loop that assigns when the member is missing).\<close>

fun as_object :: "json \<Rightarrow> js_error + jsobj" where
  "as_object (JObj kvs) = Inr (PlainObj kvs)"
| "as_object (JArr xs) = Inr (ArrayObj xs [])"
| "as_object _ = Inl TypeError"

text \<open>\<open>JSON.stringify\<close> of an object, read back by \<open>JSON.parse\<close>.\<close>

fun stringify :: "jsobj \<Rightarrow> json" where
  "stringify (PlainObj kvs) = JObj kvs"
| "stringify (ArrayObj xs props) = JArr xs"

fun is_plain :: "jsobj \<Rightarrow> bool" where
  "is_plain (PlainObj _) = True"
| "is_plain (ArrayObj _ _) = False"

section \<open>Array methods with a callback that may throw\<close>

fun js_some :: "('a \<Rightarrow> js_error + bool) \<Rightarrow> 'a list \<Rightarrow> js_error + bool" where
  "js_some f [] = Inr False"
| "js_some f (x # xs) =
     (case f x of Inl e \<Rightarrow> Inl e | Inr True \<Rightarrow> Inr True | Inr False \<Rightarrow> js_some f xs)"

fun js_find_index :: "('a \<Rightarrow> js_error + bool) \<Rightarrow> 'a list \<Rightarrow> js_error + nat option" where
  "js_find_index f [] = Inr None"
| "js_find_index f (x # xs) =
     (case f x of
        Inl e \<Rightarrow> Inl e
      | Inr True \<Rightarrow> Inr (Some 0)
      | Inr False \<Rightarrow> map_sum id (map_option Suc) (js_find_index f xs))"

fun js_map :: "('a \<Rightarrow> js_error + 'b) \<Rightarrow> 'a list \<Rightarrow> js_error + 'b list" where
  "js_map f [] = Inr []"
| "js_map f (x # xs) =
     (case f x of
        Inl e \<Rightarrow> Inl e
      | Inr y \<Rightarrow> map_sum id (Cons y) (js_map f xs))"

section \<open>Lemmas\<close>

lemma map_of_alist_set [simp]:
  "map_of (alist_set k v kvs) = (map_of kvs)(k \<mapsto> v)"
  by (induction kvs) (auto simp: fun_eq_iff)

lemma obj_get_set [simp]:
  "obj_get (obj_set d k v) k' = (if k' = k then Some v else obj_get d k')"
  by (cases d) auto

lemma obj_set_same [simp]: "obj_set (obj_set d k v) k w = obj_set d k w"
proof -
  have "alist_set k w (alist_set k v kvs) = alist_set k w kvs" for kvs :: "(string \<times> json) list"
    by (induction kvs) auto
  then show ?thesis by (cases d) auto
qed

lemma alist_set_id:
  "map_of kvs k = Some v \<Longrightarrow> alist_set k v kvs = kvs"
  by (induction kvs) (auto split: if_splits)

lemma obj_set_get_id [simp]: "obj_get d k = Some v \<Longrightarrow> obj_set d k v = d"
  by (cases d) (auto simp: alist_set_id)

lemma is_plain_obj_set [simp]: "is_plain (obj_set d k v) = is_plain d"
  by (cases d) auto

lemma js_some_pure [model_simps]:
  "js_some (\<lambda>x. Inr (P x)) xs = Inr (\<exists>x \<in> set xs. P x)"
  by (induction xs) (auto split: bool.split)

lemma js_find_index_pure [model_simps]:
  "js_find_index (\<lambda>x. Inr (P x)) xs = Inr (find_idx P xs)"
  by (induction xs) (auto split: bool.split)

lemma js_map_pure [model_simps]:
  "js_map (\<lambda>x. Inr (f x)) xs = Inr (map f xs)"
  by (induction xs) auto

lemma js_some_cong:
  "(\<And>x. x \<in> set xs \<Longrightarrow> f x = g x) \<Longrightarrow> js_some f xs = js_some g xs"
  by (induction xs) (auto split: sum.splits bool.splits)

lemma js_find_index_cong:
  "(\<And>x. x \<in> set xs \<Longrightarrow> f x = g x) \<Longrightarrow> js_find_index f xs = js_find_index g xs"
  by (induction xs) (auto split: sum.splits bool.splits)

lemma js_map_cong:
  "(\<And>x. x \<in> set xs \<Longrightarrow> f x = g x) \<Longrightarrow> js_map f xs = js_map g xs"
  by (induction xs) (auto split: sum.splits)

text \<open>A callback that throws on some element makes the whole call throw when
  no earlier element decides it: the error branch of the array methods.\<close>

lemma js_some_throws:
  "f x = Inl e \<Longrightarrow> (\<forall>y \<in> set ys. f y = Inr False) \<Longrightarrow> js_some f (ys @ x # zs) = Inl e"
  by (induction ys) auto

lemma js_map_throws:
  "f x = Inl e \<Longrightarrow> (\<forall>y \<in> set ys. \<exists>v. f y = Inr v) \<Longrightarrow> js_map f (ys @ x # zs) = Inl e"
  by (induction ys) auto

end
