(* ===== verification/Tags.thy ===== *)
theory Tags
  imports JsValue
begin

text \<open>
  The tag store of \<open>src/src/lib/custom-tags.ts\<close>, as the code is written. The browser
  is a record: whether \<open>window\<close> exists (the module also runs during server-side
  rendering), the \<open>localStorage\<close> contents as a map from keys to the stored text,
  and whether \<open>setItem\<close> succeeds (it throws when the quota is exhausted). Every
  operation takes the browser and returns it, because even a read
  (\<open>getCustomTags\<close>) may write back a migrated value. An exception that escapes an
  operation is the \<open>Inl\<close> of its result, next to the browser as the operation left it.

  A stored text is what \<open>JSON.parse\<close> makes of it: a JSON value, or malformed
  (the parse throws). \<open>JSON.stringify\<close> followed by \<open>JSON.parse\<close> gives back the
  value written, so the text saved for an object is recorded as the value
  \<^term>\<open>stringify\<close> produces.
\<close>

section \<open>Data\<close>

datatype subject = Math | English | Physics | Chemistry | Other

fun subject_key :: "subject \<Rightarrow> string" where
  "subject_key Math = ''math''"
| "subject_key English = ''english''"
| "subject_key Physics = ''physics''"
| "subject_key Chemistry = ''chemistry''"
| "subject_key Other = ''other''"

definition subjects :: "subject list" where
  "subjects = [Math, English, Physics, Chemistry, Other]"

definition CUSTOM_TAGS_KEY :: string where
  "CUSTOM_TAGS_KEY = ''wrongnotebook_custom_tags''"

datatype json_text = Text_JSON json | Text_Malformed

fun json_parse :: "json_text \<Rightarrow> json option" where
  "json_parse (Text_JSON j) = Some j"
| "json_parse Text_Malformed = None"

record browser =
  has_window :: bool
  local_storage :: "string \<Rightarrow> json_text option"
  quota_ok :: bool

text \<open>The object literal \<open>{ math: [], english: [], physics: [], chemistry: [], other: [] }\<close>.\<close>

definition empty_tags :: jsobj where
  "empty_tags = PlainObj (map (\<lambda>s. (subject_key s, JArr [])) subjects)"

text \<open>The object literal \<open>{ name: t, category: c }\<close>.\<close>

definition tag_obj :: "json \<Rightarrow> string \<Rightarrow> json" where
  "tag_obj t c = JObj [(''name'', t), (''category'', JStr c)]"

text \<open>\<open>typeof data[subject][0] === 'string'\<close> on a non-empty array.\<close>

fun first_is_string :: "json list \<Rightarrow> bool" where
  "first_is_string (JStr _ # _) = True"
| "first_is_string _ = False"

section \<open>Operations\<close>

text \<open>\<open>saveCustomTags\<close>: no-op without \<open>window\<close>; a failing \<open>setItem\<close> is caught
  and logged, leaving the storage as it was.\<close>

definition saveCustomTags :: "jsobj \<Rightarrow> browser \<Rightarrow> browser" where
  "saveCustomTags tags b =
     (if \<not> has_window b then b
      else if quota_ok b
        then b\<lparr>local_storage := (local_storage b)(CUSTOM_TAGS_KEY \<mapsto> Text_JSON (stringify tags))\<rparr>
      else b)"

text \<open>One turn of the \<open>subjects.forEach\<close> loop of \<open>getCustomTags\<close>: the object and
  the \<open>migrated\<close> flag.\<close>

fun migrate_subject :: "jsobj \<times> bool \<Rightarrow> subject \<Rightarrow> jsobj \<times> bool" where
  "migrate_subject (data, migrated) s =
     (let k = subject_key s in
      case obj_get data k of
        Some (JArr xs) \<Rightarrow>
          (if xs \<noteq> [] \<and> first_is_string xs
           then (obj_set data k (JArr (map (\<lambda>t. tag_obj t ''default'') xs)), True)
           else (data, migrated))
      | _ \<Rightarrow> (obj_set data k (JArr []), migrated))"

text \<open>The loop after \<open>JSON.parse\<close>; its first property access throws on \<open>null\<close>
  and its first assignment throws on a primitive, which \<^term>\<open>as_object\<close> records.\<close>

definition load_tags :: "json \<Rightarrow> js_error + jsobj \<times> bool" where
  "load_tags data = map_sum id (\<lambda>d. foldl migrate_subject (d, False) subjects) (as_object data)"

definition getCustomTags :: "browser \<Rightarrow> jsobj \<times> browser" where
  "getCustomTags b =
     (if \<not> has_window b then (empty_tags, b)
      else case local_storage b CUSTOM_TAGS_KEY of
        None \<Rightarrow> (empty_tags, b)
      | Some stored \<Rightarrow>
          (case json_parse stored of
             None \<Rightarrow> (empty_tags, b)
           | Some data \<Rightarrow>
               (case load_tags data of
                  Inl _ \<Rightarrow> (empty_tags, b)
                | Inr (d, migrated) \<Rightarrow> (d, if migrated then saveCustomTags d b else b))))"

text \<open>\<open>t => t.name === name\<close>: reading \<open>name\<close> of a \<open>null\<close> element throws.\<close>

definition name_is :: "string \<Rightarrow> json \<Rightarrow> js_error + bool" where
  "name_is n t = map_sum id (\<lambda>v. v = Some (JStr n)) (get_prop t ''name'')"

definition addCustomTag ::
  "subject \<Rightarrow> string \<Rightarrow> string \<Rightarrow> browser \<Rightarrow> (js_error + bool) \<times> browser" where
  "addCustomTag subject tag category b =
     (if js_trim tag = [] then (Inr False, b)
      else
        let (tags, b1) = getCustomTags b;
            trimmedTag = js_trim tag;
            k = subject_key subject
        in case obj_get tags k of
             Some (JArr xs) \<Rightarrow>
               (case js_some (name_is trimmedTag) xs of
                  Inl e \<Rightarrow> (Inl e, b1)
                | Inr True \<Rightarrow> (Inr False, b1)
                | Inr False \<Rightarrow>
                    (Inr True,
                     saveCustomTags (obj_set tags k (JArr (xs @ [tag_obj (JStr trimmedTag) category]))) b1))
           | _ \<Rightarrow> (Inl TypeError, b1))"

definition removeCustomTag ::
  "subject \<Rightarrow> string \<Rightarrow> browser \<Rightarrow> (js_error + bool) \<times> browser" where
  "removeCustomTag subject tagName b =
     (let (tags, b1) = getCustomTags b;
          k = subject_key subject
      in case obj_get tags k of
           Some (JArr xs) \<Rightarrow>
             (case js_find_index (name_is tagName) xs of
                Inl e \<Rightarrow> (Inl e, b1)
              | Inr None \<Rightarrow> (Inr False, b1)
              | Inr (Some index) \<Rightarrow>
                  (Inr True, saveCustomTags (obj_set tags k (JArr (remove_nth index xs))) b1))
         | _ \<Rightarrow> (Inl TypeError, b1))"

text \<open>\<open>tags[subject].map(t => t.name)\<close>; an element without a \<open>name\<close> gives
  \<open>undefined\<close> (\<open>None\<close>).\<close>

definition subject_names :: "jsobj \<Rightarrow> subject \<Rightarrow> js_error + json option list" where
  "subject_names tags s =
     (case obj_get tags (subject_key s) of
        Some (JArr xs) \<Rightarrow> js_map (\<lambda>t. get_prop t ''name'') xs
      | _ \<Rightarrow> Inl TypeError)"

fun concat_names :: "jsobj \<Rightarrow> subject list \<Rightarrow> js_error + json option list" where
  "concat_names tags [] = Inr []"
| "concat_names tags (s # ss) =
     (case subject_names tags s of
        Inl e \<Rightarrow> Inl e
      | Inr ns \<Rightarrow> map_sum id (\<lambda>ms. ns @ ms) (concat_names tags ss))"

definition getAllCustomTagsFlat :: "browser \<Rightarrow> (js_error + json option list) \<times> browser" where
  "getAllCustomTagsFlat b = (let (tags, b1) = getCustomTags b in (concat_names tags subjects, b1))"

definition isCustomTag :: "string \<Rightarrow> browser \<Rightarrow> (js_error + bool) \<times> browser" where
  "isCustomTag tag b =
     (let (r, b1) = getAllCustomTagsFlat b in (map_sum id (\<lambda>ns. Some (JStr tag) \<in> set ns) r, b1))"

text \<open>\<open>JSON.stringify(tags, null, 2)\<close>: the indentation does not change what
  \<open>JSON.parse\<close> reads back.\<close>

definition exportCustomTags :: "browser \<Rightarrow> json_text \<times> browser" where
  "exportCustomTags b = (let (tags, b1) = getCustomTags b in (Text_JSON (stringify tags), b1))"

definition import_tag :: "json \<Rightarrow> json" where
  "import_tag t = (case t of JStr _ \<Rightarrow> tag_obj t ''default'' | _ \<Rightarrow> t)"

fun import_subjects :: "json \<Rightarrow> jsobj \<Rightarrow> subject list \<Rightarrow> js_error + jsobj" where
  "import_subjects parsed tags [] = Inr tags"
| "import_subjects parsed tags (s # ss) =
     (case get_prop parsed (subject_key s) of
        Inl e \<Rightarrow> Inl e
      | Inr (Some (JArr ys)) \<Rightarrow>
          import_subjects parsed (obj_set tags (subject_key s) (JArr (map import_tag ys))) ss
      | Inr _ \<Rightarrow> import_subjects parsed tags ss)"

definition importCustomTags :: "json_text \<Rightarrow> browser \<Rightarrow> bool \<times> browser" where
  "importCustomTags jsonString b =
     (case json_parse jsonString of
        None \<Rightarrow> (False, b)
      | Some parsed \<Rightarrow>
          (let (tags, b1) = getCustomTags b in
           case import_subjects parsed tags subjects of
             Inl _ \<Rightarrow> (False, b1)
           | Inr tags' \<Rightarrow> (True, saveCustomTags tags' b1)))"

definition clearCustomTags :: "browser \<Rightarrow> browser" where
  "clearCustomTags b =
     (if \<not> has_window b then b
      else b\<lparr>local_storage := (local_storage b)(CUSTOM_TAGS_KEY := None)\<rparr>)"

text \<open>\<open>tags.math.length\<close> and its siblings. After loading every member is an array
  (\<open>getCustomTags_settled\<close> below); reading \<open>length\<close> of a missing member throws,
  and a member of another kind is not reached.\<close>

definition subject_count :: "jsobj \<Rightarrow> subject \<Rightarrow> js_error + nat" where
  "subject_count tags s =
     (case obj_get tags (subject_key s) of Some (JArr xs) \<Rightarrow> Inr (length xs) | _ \<Rightarrow> Inl TypeError)"

fun counts :: "jsobj \<Rightarrow> subject list \<Rightarrow> js_error + nat list" where
  "counts tags [] = Inr []"
| "counts tags (s # ss) =
     (case subject_count tags s of
        Inl e \<Rightarrow> Inl e
      | Inr n \<Rightarrow> map_sum id (Cons n) (counts tags ss))"

definition getCustomTagsStats :: "browser \<Rightarrow> (js_error + (string \<times> nat) list) \<times> browser" where
  "getCustomTagsStats b =
     (let (tags, b1) = getCustomTags b in
      (map_sum id (\<lambda>ns. zip (map subject_key subjects) ns @ [(''total'', sum_list ns)])
         (counts tags subjects), b1))"

section \<open>The loaded shape\<close>

text \<open>A member is settled when it is an array that the migration loop leaves alone:
  one whose first element is no string.\<close>

definition settled_at :: "jsobj \<Rightarrow> subject \<Rightarrow> bool" where
  "settled_at d s =
     (case obj_get d (subject_key s) of Some (JArr xs) \<Rightarrow> \<not> first_is_string xs | _ \<Rightarrow> False)"

definition settled :: "jsobj \<Rightarrow> bool" where
  "settled d = list_all (settled_at d) subjects"

section \<open>Lemmas on the shape of loaded data\<close>

declare migrate_subject.simps [simp del]

lemma subject_key_eq_iff [simp]: "subject_key s = subject_key t \<longleftrightarrow> s = t"
  by (cases s; cases t) auto

lemma set_subjects [simp]: "set subjects = UNIV"
  by (auto simp: subjects_def intro: subject.exhaust)

lemma settled_iff: "settled d \<longleftrightarrow> (\<forall>s. settled_at d s)"
  by (simp add: settled_def list_all_iff)

lemma first_is_string_nonempty: "first_is_string xs \<Longrightarrow> xs \<noteq> []"
  by (cases xs) auto

lemma first_is_string_tag_objs [simp]: "\<not> first_is_string (map (\<lambda>t. tag_obj t c) xs)"
  by (cases xs) (auto simp: tag_obj_def)

lemma migrate_subject_settled_id:
  "settled_at d s \<Longrightarrow> migrate_subject (d, m) s = (d, m)"
  by (auto simp: settled_at_def migrate_subject.simps split: option.splits json.splits)

lemma migrate_subject_settles: "settled_at (fst (migrate_subject (d, m) s)) s"
  by (auto simp: settled_at_def Let_def migrate_subject.simps split: option.splits json.splits)

lemma migrate_subject_keeps:
  assumes "settled_at d t"
  shows "settled_at (fst (migrate_subject (d, m) s)) t"
proof (cases "s = t")
  case True
  with assms show ?thesis by (simp add: migrate_subject_settled_id)
next
  case False
  with assms show ?thesis
    by (auto simp: settled_at_def Let_def migrate_subject.simps split: option.splits json.splits)
qed

lemma migrate_subject_plain [simp]: "is_plain (fst (migrate_subject (d, m) s)) = is_plain d"
  by (auto simp: Let_def migrate_subject.simps split: option.splits json.splits)

lemma foldl_migrate_keeps:
  "settled_at d t \<Longrightarrow> settled_at (fst (foldl migrate_subject (d, m) ss)) t"
proof (induction ss arbitrary: d m)
  case Nil
  then show ?case by simp
next
  case (Cons s ss)
  obtain d' m' where step: "migrate_subject (d, m) s = (d', m')" by fastforce
  from Cons.prems have "settled_at d' t"
    using migrate_subject_keeps [of d t m s] by (simp add: step)
  then show ?case using Cons.IH by (simp add: step)
qed

lemma foldl_migrate_settles:
  "s \<in> set ss \<Longrightarrow> settled_at (fst (foldl migrate_subject (d, m) ss)) s"
proof (induction ss arbitrary: d m)
  case Nil
  then show ?case by simp
next
  case (Cons s' ss)
  obtain d' m' where step: "migrate_subject (d, m) s' = (d', m')" by fastforce
  show ?case
  proof (cases "s = s'")
    case True
    have "settled_at d' s" using migrate_subject_settles [of d m s'] True by (simp add: step)
    then show ?thesis by (simp add: step foldl_migrate_keeps)
  next
    case False
    with Cons show ?thesis by (simp add: step)
  qed
qed

lemma foldl_migrate_id:
  "(\<forall>s \<in> set ss. settled_at d s) \<Longrightarrow> foldl migrate_subject (d, m) ss = (d, m)"
  by (induction ss) (simp_all add: migrate_subject_settled_id)

lemma foldl_migrate_plain [simp]:
  "is_plain (fst (foldl migrate_subject (d, m) ss)) = is_plain d"
proof (induction ss arbitrary: d m)
  case Nil
  then show ?case by simp
next
  case (Cons s ss)
  obtain d' m' where step: "migrate_subject (d, m) s = (d', m')" by fastforce
  have "is_plain d' = is_plain d" using migrate_subject_plain [of d m s] by (simp add: step)
  with Cons.IH show ?case by (simp add: step)
qed

text \<open>An array read as an object has no members named after subjects, so the loop
  only adds empty arrays and never sets the \<open>migrated\<close> flag.\<close>

lemma foldl_migrate_empty_members:
  "(\<forall>s. obj_get d (subject_key s) \<in> {None, Some (JArr [])}) \<Longrightarrow>
   snd (foldl migrate_subject (d, m) ss) = m"
proof (induction ss arbitrary: d)
  case Nil
  then show ?case by simp
next
  case (Cons s ss)
  let ?d' = "fst (migrate_subject (d, m) s)"
  from Cons.prems have hs: "obj_get d (subject_key s) \<in> {None, Some (JArr [])}" by blast
  then have step: "migrate_subject (d, m) s = (?d', m)"
    and d': "?d' = d \<or> ?d' = obj_set d (subject_key s) (JArr [])"
    by (auto simp: Let_def migrate_subject.simps)
  have "obj_get ?d' (subject_key t) \<in> {None, Some (JArr [])}" for t
    using Cons.prems [rule_format, of t] d' by (auto split: if_splits)
  then have "\<forall>t. obj_get ?d' (subject_key t) \<in> {None, Some (JArr [])}" by blast
  then show ?case using Cons.IH step by (metis foldl_Cons)
qed

lemma load_tags_Inr:
  "load_tags data = Inr (d, m) \<Longrightarrow>
   \<exists>d0. as_object data = Inr d0 \<and> foldl migrate_subject (d0, False) subjects = (d, m)"
  by (cases "as_object data") (auto simp: load_tags_def)

lemma load_tags_settled: "load_tags data = Inr (d, m) \<Longrightarrow> settled d"
  by (auto simp: settled_iff dest!: load_tags_Inr intro: foldl_migrate_settles [where m = False, simplified])
    (metis foldl_migrate_settles fst_conv set_subjects UNIV_I)

lemma load_tags_migrated_plain:
  assumes "load_tags data = Inr (d, True)"
  shows "is_plain d"
proof -
  from load_tags_Inr [OF assms] obtain d0 where
    obj: "as_object data = Inr d0" and run: "foldl migrate_subject (d0, False) subjects = (d, True)"
    by blast
  show ?thesis
  proof (cases data)
    case (JArr xs)
    have "snd (foldl migrate_subject (ArrayObj xs [], False) subjects) = False"
      by (rule foldl_migrate_empty_members) simp
    with obj run JArr show ?thesis by simp
  next
    case (JObj kvs)
    with obj have "is_plain d0" by auto
    with run show ?thesis by (metis foldl_migrate_plain fst_conv)
  qed (use obj in auto)
qed

lemma load_tags_settled_plain:
  "is_plain d \<Longrightarrow> settled d \<Longrightarrow> load_tags (stringify d) = Inr (d, False)"
  by (cases d) (auto simp: load_tags_def settled_iff foldl_migrate_id)

lemma empty_tags_settled [simp]: "settled empty_tags" and empty_tags_plain [simp]: "is_plain empty_tags"
  by (simp_all add: empty_tags_def settled_def subjects_def settled_at_def)

lemma saveCustomTags_window [simp]: "has_window (saveCustomTags d b) = has_window b"
  and saveCustomTags_quota [simp]: "quota_ok (saveCustomTags d b) = quota_ok b"
  by (simp_all add: saveCustomTags_def)

lemma saveCustomTags_stored:
  "has_window b \<Longrightarrow> quota_ok b \<Longrightarrow>
   local_storage (saveCustomTags d b) CUSTOM_TAGS_KEY = Some (Text_JSON (stringify d))"
  by (simp add: saveCustomTags_def)

lemma saveCustomTags_twice [simp]: "saveCustomTags d' (saveCustomTags d b) = saveCustomTags d' b"
  by (simp add: saveCustomTags_def)

text \<open>Loading what was saved gives it back unchanged and writes nothing.\<close>

lemma getCustomTags_saveCustomTags:
  assumes "has_window b" "quota_ok b" "is_plain d" "settled d"
  shows "getCustomTags (saveCustomTags d b) = (d, saveCustomTags d b)"
  using assms by (simp add: getCustomTags_def saveCustomTags_stored load_tags_settled_plain)

lemma getCustomTags_window [simp]: "has_window (snd (getCustomTags b)) = has_window b"
  and getCustomTags_quota [simp]: "quota_ok (snd (getCustomTags b)) = quota_ok b"
  by (auto simp: getCustomTags_def split: option.splits sum.splits)


lemma foldl_migrate_get_settled:
  "settled_at d s \<Longrightarrow> obj_get (fst (foldl migrate_subject (d, m) ss)) (subject_key s) = obj_get d (subject_key s)"
proof (induction ss arbitrary: d m)
  case Nil
  then show ?case by simp
next
  case (Cons t ss)
  obtain d' m' where step: "migrate_subject (d, m) t = (d', m')" by fastforce
  have same: "obj_get d' (subject_key s) = obj_get d (subject_key s)"
  proof (cases "t = s")
    case True
    with Cons.prems step show ?thesis by (simp add: migrate_subject_settled_id)
  next
    case False
    with step show ?thesis by (auto simp: Let_def migrate_subject.simps split: option.splits json.splits if_splits)
  qed
  have "settled_at d' s" using migrate_subject_keeps [OF Cons.prems, of m t] step by simp
  with Cons.IH same show ?case by (simp add: step)
qed

lemma getCustomTags_settled_member:
  assumes "has_window b" "local_storage b CUSTOM_TAGS_KEY = Some (Text_JSON (JObj kvs))"
    and "settled_at (PlainObj kvs) s"
  shows "obj_get (fst (getCustomTags b)) (subject_key s) = map_of kvs (subject_key s)"
proof -
  obtain d m where run: "foldl migrate_subject (PlainObj kvs, False) subjects = (d, m)" by fastforce
  have "obj_get d (subject_key s) = map_of kvs (subject_key s)"
    using foldl_migrate_get_settled [OF assms(3), of False subjects] run by simp
  moreover have "fst (getCustomTags b) = d"
    using assms(1,2) run by (simp add: getCustomTags_def load_tags_def)
  ultimately show ?thesis by simp
qed

lemma obj_get_empty_tags [simp]: "obj_get empty_tags (subject_key s) = Some (JArr [])"
  by (cases s) (simp_all add: empty_tags_def subjects_def)

lemma getCustomTags_loaded_settled: "settled (fst (getCustomTags b))"
proof -
  have "load_tags data = Inr (d, m) \<Longrightarrow> settled d" for data d m
    by (rule load_tags_settled)
  then show ?thesis
    by (auto simp: getCustomTags_def split: option.splits sum.splits)
qed

lemma getCustomTags_reload: "getCustomTags (snd (getCustomTags b)) = getCustomTags b"
proof (cases "has_window b")
  case False
  then show ?thesis by (simp add: getCustomTags_def)
next
  case True
  show ?thesis
  proof (cases "\<exists>stored data d. local_storage b CUSTOM_TAGS_KEY = Some stored \<and>
                  json_parse stored = Some data \<and> load_tags data = Inr (d, True) \<and> quota_ok b")
    case True
    then obtain stored data d where
      st: "local_storage b CUSTOM_TAGS_KEY = Some stored" and
      ps: "json_parse stored = Some data" and
      ld: "load_tags data = Inr (d, True)" and q: "quota_ok b"
      by blast
    have g: "getCustomTags b = (d, saveCustomTags d b)"
      using \<open>has_window b\<close> st ps ld by (simp add: getCustomTags_def)
    have "getCustomTags (saveCustomTags d b) = (d, saveCustomTags d b)"
      using \<open>has_window b\<close> q load_tags_migrated_plain [OF ld] load_tags_settled [OF ld]
      by (rule getCustomTags_saveCustomTags)
    with g show ?thesis by simp
  next
    case False
    then have "snd (getCustomTags b) = b"
      using \<open>has_window b\<close>
      by (auto simp: getCustomTags_def saveCustomTags_def split: option.splits sum.splits)
    then show ?thesis by simp
  qed
qed

section \<open>Properties of loading\<close>

text \<open>C5. Whatever the browser holds (no blob, malformed text, \<open>null\<close>, a primitive,
  an array, or an object of any shape), the object \<open>getCustomTags\<close> returns has an
  array under every subject key, and none of those arrays starts with a string: the
  legacy string form never survives a load.\<close>

theorem getCustomTags_settled: "settled (fst (getCustomTags b))"
  by (rule getCustomTags_loaded_settled)

text \<open>C6. The spec's migration test: when the stored blob needs migrating (a subject
  array of plain strings), the first load returns the migrated object and writes it
  back as \<open>JSON.stringify\<close> of that object; reading the written blob migrates nothing,
  so the next load returns the same object and writes nothing more.\<close>

theorem getCustomTags_migration_persisted:
  assumes win: "has_window b" and q: "quota_ok b"
    and st: "local_storage b CUSTOM_TAGS_KEY = Some (Text_JSON data)" and l: "load_tags data = Inr (d, True)"
  shows "getCustomTags b = (d, saveCustomTags d b) \<and>
         local_storage (saveCustomTags d b) CUSTOM_TAGS_KEY = Some (Text_JSON (stringify d)) \<and>
         load_tags (stringify d) = Inr (d, False) \<and>
         getCustomTags (saveCustomTags d b) = (d, saveCustomTags d b)"
proof -
  have p: "is_plain d" by (rule load_tags_migrated_plain [OF l])
  have s: "settled d" by (rule load_tags_settled [OF l])
  show ?thesis
    using win q st l saveCustomTags_stored [OF win q, of d] load_tags_settled_plain [OF p s]
      getCustomTags_saveCustomTags [OF win q p s]
    by (simp add: getCustomTags_def)
qed

lemma getCustomTags_migration_persisted_witness:
  "has_window \<lparr>has_window = True, local_storage = [CUSTOM_TAGS_KEY \<mapsto> Text_JSON (JObj [(''math'', JArr [JStr ''x'', JStr ''y''])])],
                 quota_ok = True\<rparr> \<and>
   quota_ok \<lparr>has_window = True, local_storage = [CUSTOM_TAGS_KEY \<mapsto> Text_JSON (JObj [(''math'', JArr [JStr ''x'', JStr ''y''])])],
                 quota_ok = True\<rparr> \<and>
   load_tags (JObj [(''math'', JArr [JStr ''x'', JStr ''y''])]) =
     Inr (PlainObj [(''math'', JArr [tag_obj (JStr ''x'') ''default'', tag_obj (JStr ''y'') ''default'']),
                    (''english'', JArr []), (''physics'', JArr []), (''chemistry'', JArr []), (''other'', JArr [])], True) \<and>
   getCustomTags \<lparr>has_window = True, local_storage = [CUSTOM_TAGS_KEY \<mapsto> Text_JSON (JObj [(''math'', JArr [JStr ''x'', JStr ''y''])])],
                 quota_ok = True\<rparr> =
     (PlainObj [(''math'', JArr [tag_obj (JStr ''x'') ''default'', tag_obj (JStr ''y'') ''default'']),
                (''english'', JArr []), (''physics'', JArr []), (''chemistry'', JArr []), (''other'', JArr [])],
      saveCustomTags (PlainObj [(''math'', JArr [tag_obj (JStr ''x'') ''default'', tag_obj (JStr ''y'') ''default'']),
                (''english'', JArr []), (''physics'', JArr []), (''chemistry'', JArr []), (''other'', JArr [])])
        \<lparr>has_window = True, local_storage = [CUSTOM_TAGS_KEY \<mapsto> Text_JSON (JObj [(''math'', JArr [JStr ''x'', JStr ''y''])])],
         quota_ok = True\<rparr>)"
proof -
  have l: "load_tags (JObj [(''math'', JArr [JStr ''x'', JStr ''y''])]) =
     Inr (PlainObj [(''math'', JArr [tag_obj (JStr ''x'') ''default'', tag_obj (JStr ''y'') ''default'']),
                    (''english'', JArr []), (''physics'', JArr []), (''chemistry'', JArr []), (''other'', JArr [])], True)"
    by (simp add: load_tags_def subjects_def migrate_subject.simps)
  have h: "has_window \<lparr>has_window = True, local_storage = [CUSTOM_TAGS_KEY \<mapsto> Text_JSON (JObj [(''math'', JArr [JStr ''x'', JStr ''y''])])],
                 quota_ok = True\<rparr>"
    "quota_ok \<lparr>has_window = True, local_storage = [CUSTOM_TAGS_KEY \<mapsto> Text_JSON (JObj [(''math'', JArr [JStr ''x'', JStr ''y''])])],
                 quota_ok = True\<rparr>"
    "local_storage \<lparr>has_window = True, local_storage = [CUSTOM_TAGS_KEY \<mapsto> Text_JSON (JObj [(''math'', JArr [JStr ''x'', JStr ''y''])])],
                 quota_ok = True\<rparr> CUSTOM_TAGS_KEY = Some (Text_JSON (JObj [(''math'', JArr [JStr ''x'', JStr ''y''])]))"
    by simp_all
  show ?thesis using getCustomTags_migration_persisted [OF h l] h l by blast
qed

section \<open>Error paths and edge cases of the operations\<close>

text \<open>C24. A stored tag array whose first element is \<open>null\<close> makes
  \<open>addCustomTag\<close> throw a \<open>TypeError\<close> out of the call (reading \<open>name\<close> of
  \<open>null\<close> in \<open>some\<close>), although the store is meant never to throw to its caller.
  Such an array is what \<open>importCustomTags\<close> stores from an input \<open>{"math": [null]}\<close>.\<close>
theorem addCustomTag_null_element_throws:
  assumes "has_window b"
    and "local_storage b CUSTOM_TAGS_KEY = Some (Text_JSON (JObj [(subject_key s, JArr (JNull # xs))]))"
    and "js_trim tag \<noteq> []"
  shows "fst (addCustomTag s tag c b) = Inl TypeError"
proof -
  have "settled_at (PlainObj [(subject_key s, JArr (JNull # xs))]) s"
    by (simp add: settled_at_def)
  then have get: "obj_get (fst (getCustomTags b)) (subject_key s) = Some (JArr (JNull # xs))"
    using getCustomTags_settled_member [OF assms(1,2)] by simp
  obtain d b1 where g: "getCustomTags b = (d, b1)" by fastforce
  with get assms(3) show ?thesis
    by (simp add: addCustomTag_def name_is_def)
qed

theorem addCustomTag_null_element_throws_witness:
  "fst (addCustomTag Math ''x'' ''default''
     \<lparr>has_window = True,
      local_storage = [CUSTOM_TAGS_KEY \<mapsto> Text_JSON (JObj [(subject_key Math, JArr [JNull])])],
      quota_ok = True\<rparr>) = Inl TypeError"
  by (rule addCustomTag_null_element_throws) (simp_all add: js_trim_def is_js_ws_def)

text \<open>C25. When the stored text is a JSON array, \<open>addCustomTag\<close> returns true but
  leaves the browser exactly as it was: the tag is written as a property of the
  array, which \<open>JSON.stringify\<close> drops, so the added tag is silently lost.\<close>
theorem addCustomTag_array_blob_drops:
  assumes "has_window b" and "quota_ok b"
    and "local_storage b CUSTOM_TAGS_KEY = Some (Text_JSON (JArr xs))"
    and "js_trim tag \<noteq> []"
  shows "addCustomTag s tag c b = (Inr True, b)"
proof -
  let ?d = "ArrayObj xs (map (\<lambda>s. (subject_key s, JArr [])) subjects)"
  have load: "getCustomTags b = (?d, b)"
    using assms(1,3) by (simp add: getCustomTags_def load_tags_def subjects_def migrate_subject.simps)
  have get: "obj_get ?d (subject_key s) = Some (JArr [])"
    by (cases s) (simp_all add: subjects_def)
  have "saveCustomTags (obj_set ?d k v) b = b" for k v
    using assms(1,2,3) by (simp add: saveCustomTags_def fun_upd_idem)
  with load get assms(4) show ?thesis by (simp add: addCustomTag_def)
qed

theorem addCustomTag_array_blob_drops_witness:
  "addCustomTag Math ''x'' ''default''
     \<lparr>has_window = True, local_storage = [CUSTOM_TAGS_KEY \<mapsto> Text_JSON (JArr [])], quota_ok = True\<rparr> =
   (Inr True, \<lparr>has_window = True, local_storage = [CUSTOM_TAGS_KEY \<mapsto> Text_JSON (JArr [])], quota_ok = True\<rparr>)"
  by (rule addCustomTag_array_blob_drops) (simp_all add: js_trim_def is_js_ws_def)

text \<open>Without \<open>window\<close> (server-side rendering) \<open>addCustomTag\<close> reports
  success for any non-blank name and persists nothing.\<close>
theorem addCustomTag_no_window:
  "\<not> has_window b \<Longrightarrow> js_trim tag \<noteq> [] \<Longrightarrow> addCustomTag s tag c b = (Inr True, b)"
  by (simp add: addCustomTag_def getCustomTags_def saveCustomTags_def)

theorem addCustomTag_no_window_witness:
  "addCustomTag Physics ''x'' ''default'' \<lparr>has_window = False, local_storage = Map.empty, quota_ok = True\<rparr> =
   (Inr True, \<lparr>has_window = False, local_storage = Map.empty, quota_ok = True\<rparr>)"
  by (rule addCustomTag_no_window) (simp_all add: js_trim_def is_js_ws_def)

text \<open>C26. The result of \<open>importCustomTags\<close> is not decided by parsing alone: the
  parsed value \<open>null\<close> makes it return false (after loading, which may persist a
  migration), while a number is accepted, returns true, and rewrites the loaded tags
  unchanged.\<close>
theorem importCustomTags_non_object:
  "importCustomTags (Text_JSON JNull) b = (False, snd (getCustomTags b)) \<and>
   importCustomTags (Text_JSON (JNum n)) b =
     (True, saveCustomTags (fst (getCustomTags b)) (snd (getCustomTags b)))"
  by (simp add: importCustomTags_def subjects_def split: prod.splits)

end
