(* ===== verification/Tags_Spec.thy ===== *)
theory Tags_Spec
  imports Tags
begin

text \<open>
  The tag store as the spec describes it (section 4.1): for each of the five subjects,
  an ordered list of tags, each a name and an optional category. The abstraction
  \<open>store_view\<close> reads a browser through \<open>getCustomTags\<close>, as every operation does,
  and decodes each subject's array; it is defined when the loaded object is a plain
  object whose members decode. On such well-formed browsers (window present,
  \<open>setItem\<close> succeeding) the operations of \<open>Tags\<close> implement the abstract ones and
  keep the browser well formed.
\<close>

section \<open>Abstract store\<close>

record tag =
  tag_name :: string
  tag_category :: "string option"

type_synonym store = "subject \<Rightarrow> tag list"

definition empty_store :: store where
  "empty_store = (\<lambda>_. [])"

definition spec_add :: "subject \<Rightarrow> string \<Rightarrow> string \<Rightarrow> store \<Rightarrow> bool \<times> store" where
  "spec_add s name cat st =
     (let n = js_trim name in
      if n = [] then (False, st)
      else if n \<in> set (map tag_name (st s)) then (False, st)
      else (True, st(s := st s @ [\<lparr>tag_name = n, tag_category = Some cat\<rparr>])))"

definition spec_remove :: "subject \<Rightarrow> string \<Rightarrow> store \<Rightarrow> bool \<times> store" where
  "spec_remove s name st =
     (case find_idx (\<lambda>t. tag_name t = name) (st s) of
        None \<Rightarrow> (False, st)
      | Some i \<Rightarrow> (True, st(s := remove_nth i (st s))))"

definition spec_list_flat :: "store \<Rightarrow> string list" where
  "spec_list_flat st = concat (map (\<lambda>s. map tag_name (st s)) subjects)"

definition spec_is_custom :: "string \<Rightarrow> store \<Rightarrow> bool" where
  "spec_is_custom n st \<longleftrightarrow> n \<in> set (spec_list_flat st)"

definition spec_stats :: "store \<Rightarrow> (string \<times> nat) list" where
  "spec_stats st =
     map (\<lambda>s. (subject_key s, length (st s))) subjects @
     [(''total'', sum_list (map (\<lambda>s. length (st s)) subjects))]"

section \<open>Abstraction function\<close>

fun decode_tag :: "json \<Rightarrow> tag option" where
  "decode_tag (JObj kvs) =
     (case map_of kvs ''name'' of
        Some (JStr n) \<Rightarrow>
          (case map_of kvs ''category'' of
             None \<Rightarrow> Some \<lparr>tag_name = n, tag_category = None\<rparr>
           | Some (JStr c) \<Rightarrow> Some \<lparr>tag_name = n, tag_category = Some c\<rparr>
           | Some _ \<Rightarrow> None)
      | _ \<Rightarrow> None)"
| "decode_tag _ = None"

primrec decode_tags :: "json list \<Rightarrow> tag list option" where
  "decode_tags [] = Some []"
| "decode_tags (x # xs) =
     (case decode_tag x of None \<Rightarrow> None | Some t \<Rightarrow> map_option (Cons t) (decode_tags xs))"

definition subject_view :: "jsobj \<Rightarrow> subject \<Rightarrow> tag list option" where
  "subject_view d s =
     (case obj_get d (subject_key s) of Some (JArr xs) \<Rightarrow> decode_tags xs | _ \<Rightarrow> None)"

definition tags_view :: "jsobj \<Rightarrow> store option" where
  "tags_view d =
     (if is_plain d \<and> list_all (\<lambda>s. subject_view d s \<noteq> None) subjects
      then Some (\<lambda>s. the (subject_view d s)) else None)"

definition store_view :: "browser \<Rightarrow> store option" where
  "store_view b = tags_view (fst (getCustomTags b))"

definition tags_wf :: "browser \<Rightarrow> bool" where
  "tags_wf b \<longleftrightarrow> has_window b \<and> quota_ok b \<and> store_view b \<noteq> None"

definition spec_import :: "(subject \<Rightarrow> tag list option) \<Rightarrow> store \<Rightarrow> store" where
  "spec_import upd st = (\<lambda>s. case upd s of None \<Rightarrow> st s | Some ts \<Rightarrow> ts)"

text \<open>The spec's reading of an imported element: a plain string is a tag of that name in
  category \<open>"default"\<close>, anything else must be a tag record.\<close>

fun spec_import_tag :: "json \<Rightarrow> tag option" where
  "spec_import_tag (JStr n) = Some \<lparr>tag_name = n, tag_category = Some ''default''\<rparr>"
| "spec_import_tag x = decode_tag x"

primrec spec_import_tags :: "json list \<Rightarrow> tag list option" where
  "spec_import_tags [] = Some []"
| "spec_import_tags (x # xs) =
     (case spec_import_tag x of None \<Rightarrow> None | Some t \<Rightarrow> map_option (Cons t) (spec_import_tags xs))"

text \<open>What an import input asks for, per subject: the member's array when it is one,
  nothing otherwise. It has an abstract reading when every such array reads as tags.\<close>

definition member_update :: "(string \<times> json) list \<Rightarrow> subject \<Rightarrow> json list option" where
  "member_update kvs s =
     (case map_of kvs (subject_key s) of Some (JArr ys) \<Rightarrow> Some ys | _ \<Rightarrow> None)"

definition import_view :: "(string \<times> json) list \<Rightarrow> (subject \<Rightarrow> tag list option) option" where
  "import_view kvs =
     (if list_all (\<lambda>s. case member_update kvs s of None \<Rightarrow> True | Some ys \<Rightarrow> spec_import_tags ys \<noteq> None) subjects
      then Some (\<lambda>s. map_option (\<lambda>ys. the (spec_import_tags ys)) (member_update kvs s)) else None)"

section \<open>Lemmas on decoding\<close>

lemma decode_tag_tag_obj [simp]:
  "decode_tag (tag_obj (JStr n) c) = Some \<lparr>tag_name = n, tag_category = Some c\<rparr>"
  by (simp add: tag_obj_def)

lemma decode_tags_append:
  "decode_tags xs = Some ts \<Longrightarrow> decode_tags ys = Some us \<Longrightarrow> decode_tags (xs @ ys) = Some (ts @ us)"
  by (induction xs arbitrary: ts) (auto split: option.splits)

lemma decode_tags_Some_length: "decode_tags xs = Some ts \<Longrightarrow> length ts = length xs"
  by (induction xs arbitrary: ts) (auto split: option.splits)

lemma decode_tag_not_string: "decode_tag x = Some t \<Longrightarrow> \<not> (\<exists>s. x = JStr s)"
  by auto

lemma decode_tags_not_first_string: "decode_tags xs = Some ts \<Longrightarrow> \<not> first_is_string xs"
  by (cases xs rule: first_is_string.cases) (auto split: option.splits)

lemma decode_tags_ConsE:
  assumes "decode_tags (x # xs) = Some ts"
  obtains t ts' where "decode_tag x = Some t" "decode_tags xs = Some ts'" "ts = t # ts'"
  using assms by (auto split: option.splits)

lemma name_is_decoded:
  "decode_tag x = Some t \<Longrightarrow> name_is n x = Inr (tag_name t = n)"
  by (cases x rule: decode_tag.cases)
     (auto simp: name_is_def split: option.splits json.splits)

lemma get_name_decoded:
  "decode_tag x = Some t \<Longrightarrow> get_prop x ''name'' = Inr (Some (JStr (tag_name t)))"
  by (cases x rule: decode_tag.cases) (auto split: option.splits json.splits)

lemma js_some_name_is [model_simps]:
  "decode_tags xs = Some ts \<Longrightarrow> js_some (name_is n) xs = Inr (n \<in> set (map tag_name ts))"
proof (induction xs arbitrary: ts)
  case Nil
  then show ?case by simp
next
  case (Cons x xs)
  from Cons.prems obtain t ts' where x: "decode_tag x = Some t" and xs: "decode_tags xs = Some ts'"
    and ts: "ts = t # ts'"
    by (rule decode_tags_ConsE)
  show ?case using Cons.IH [OF xs] name_is_decoded [OF x] ts by (auto split: bool.split)
qed

lemma js_find_index_name_is [model_simps]:
  "decode_tags xs = Some ts \<Longrightarrow>
   js_find_index (name_is n) xs = Inr (find_idx (\<lambda>t. tag_name t = n) ts)"
proof (induction xs arbitrary: ts)
  case Nil
  then show ?case by simp
next
  case (Cons x xs)
  from Cons.prems obtain t ts' where x: "decode_tag x = Some t" and xs: "decode_tags xs = Some ts'"
    and ts: "ts = t # ts'"
    by (rule decode_tags_ConsE)
  show ?case using Cons.IH [OF xs] name_is_decoded [OF x] ts by (auto split: bool.split)
qed

lemma js_map_names [model_simps]:
  "decode_tags xs = Some ts \<Longrightarrow>
   js_map (\<lambda>t. get_prop t ''name'') xs = Inr (map (\<lambda>t. Some (JStr (tag_name t))) ts)"
proof (induction xs arbitrary: ts)
  case Nil
  then show ?case by simp
next
  case (Cons x xs)
  from Cons.prems obtain t ts' where x: "decode_tag x = Some t" and xs: "decode_tags xs = Some ts'"
    and ts: "ts = t # ts'"
    by (rule decode_tags_ConsE)
  show ?case using Cons.IH [OF xs] get_name_decoded [OF x] ts by auto
qed

lemma decode_tags_remove_nth:
  "decode_tags xs = Some ts \<Longrightarrow> decode_tags (remove_nth i xs) = Some (remove_nth i ts)"
proof (induction xs arbitrary: ts i)
  case Nil
  then show ?case by (simp add: remove_nth_def)
next
  case (Cons x xs)
  from Cons.prems obtain t ts' where x: "decode_tag x = Some t" and xs: "decode_tags xs = Some ts'"
    and ts: "ts = t # ts'"
    by (rule decode_tags_ConsE)
  show ?case
  proof (cases i)
    case 0
    with xs ts show ?thesis by (simp add: remove_nth_def)
  next
    case (Suc j)
    with Cons.IH [OF xs, of j] x ts show ?thesis by (simp add: remove_nth_def)
  qed
qed


section \<open>Lemmas on the views\<close>

lemma tags_view_SomeD:
  assumes "tags_view d = Some st"
  shows "is_plain d"
    and "\<exists>xs. obj_get d (subject_key s) = Some (JArr xs) \<and> decode_tags xs = Some (st s)"
proof -
  from assms have ok: "is_plain d \<and> (\<forall>s. subject_view d s \<noteq> None)"
    and st: "st = (\<lambda>s. the (subject_view d s))"
    by (auto simp: tags_view_def list_all_iff split: if_splits)
  then show "is_plain d" by simp
  from ok have "subject_view d s \<noteq> None" by simp
  with st show "\<exists>xs. obj_get d (subject_key s) = Some (JArr xs) \<and> decode_tags xs = Some (st s)"
    by (auto simp: subject_view_def split: option.splits json.splits)
qed

lemma tags_view_settled:
  assumes "tags_view d = Some st"
  shows "settled d"
  unfolding settled_iff
proof
  fix s
  from tags_view_SomeD(2) [OF assms, of s] obtain xs where
    "obj_get d (subject_key s) = Some (JArr xs)" and "decode_tags xs = Some (st s)"
    by blast
  then show "settled_at d s" by (simp add: settled_at_def decode_tags_not_first_string)
qed

lemma tags_view_empty_tags [simp]: "tags_view empty_tags = Some empty_store"
  by (simp add: tags_view_def subject_view_def empty_store_def subjects_def)

lemma store_view_no_blob:
  "has_window b \<Longrightarrow> local_storage b CUSTOM_TAGS_KEY = None \<Longrightarrow> store_view b = Some empty_store"
  by (simp add: store_view_def getCustomTags_def)

lemma tags_view_obj_set:
  assumes "tags_view d = Some st" and "decode_tags ys = Some ts"
  shows "tags_view (obj_set d (subject_key s) (JArr ys)) = Some (st(s := ts))"
proof -
  have sv: "subject_view (obj_set d (subject_key s) (JArr ys)) t = Some ((st(s := ts)) t)" for t
  proof (cases "t = s")
    case True
    with assms(2) show ?thesis by (simp add: subject_view_def)
  next
    case False
    from tags_view_SomeD(2) [OF assms(1), of t] False show ?thesis
      by (auto simp: subject_view_def)
  qed
  have "is_plain d" by (rule tags_view_SomeD(1) [OF assms(1)])
  with sv show ?thesis by (simp add: tags_view_def list_all_iff fun_eq_iff)
qed

lemma store_view_saveCustomTags:
  "has_window b \<Longrightarrow> quota_ok b \<Longrightarrow> tags_view d = Some st \<Longrightarrow>
   store_view (saveCustomTags d b) = Some st"
  by (simp add: store_view_def getCustomTags_saveCustomTags tags_view_SomeD(1) tags_view_settled)

lemma store_view_loaded:
  assumes "store_view b = Some st"
  shows "tags_view (fst (getCustomTags b)) = Some st" and "store_view (snd (getCustomTags b)) = Some st"
  using assms by (simp_all add: store_view_def getCustomTags_reload)

lemmas view_facts [view_simps] =
  store_view_loaded tags_view_obj_set store_view_saveCustomTags getCustomTags_window getCustomTags_quota

lemma concat_names_view:
  "tags_view d = Some st \<Longrightarrow>
   concat_names d ss = Inr (concat (map (\<lambda>s. map (\<lambda>t. Some (JStr (tag_name t))) (st s)) ss))"
proof (induction ss)
  case Nil
  then show ?case by simp
next
  case (Cons s ss)
  obtain xs where "obj_get d (subject_key s) = Some (JArr xs)" and "decode_tags xs = Some (st s)"
    using tags_view_SomeD(2) [OF Cons.prems] by blast
  with Cons show ?case by (simp add: subject_names_def js_map_names)
qed

lemma counts_view:
  "tags_view d = Some st \<Longrightarrow> counts d ss = Inr (map (\<lambda>s. length (st s)) ss)"
proof (induction ss)
  case Nil
  then show ?case by simp
next
  case (Cons s ss)
  obtain xs where "obj_get d (subject_key s) = Some (JArr xs)" and "decode_tags xs = Some (st s)"
    using tags_view_SomeD(2) [OF Cons.prems] by blast
  with Cons show ?case by (simp add: subject_count_def decode_tags_Some_length)
qed

lemma counts_settled:
  "list_all (settled_at d) ss \<Longrightarrow> \<exists>ns. counts d ss = Inr ns"
proof (induction ss)
  case Nil
  then show ?case by simp
next
  case (Cons s ss)
  then obtain xs where "obj_get d (subject_key s) = Some (JArr xs)"
    by (auto simp: settled_at_def split: option.splits json.splits)
  with Cons show ?case by (auto simp: subject_count_def)
qed

lemma getCustomTagsStats_view:
  assumes "store_view b = Some st"
  shows "getCustomTagsStats b = (Inr (spec_stats st), snd (getCustomTags b))"
proof -
  obtain d b1 where g: "getCustomTags b = (d, b1)" by fastforce
  with store_view_loaded(1) [OF assms] have "tags_view d = Some st" by simp
  then have "counts d subjects = Inr (map (\<lambda>s. length (st s)) subjects)" by (rule counts_view)
  with g show ?thesis
    by (simp add: getCustomTagsStats_def spec_stats_def zip_map_map)
qed

lemma getAllCustomTagsFlat_view:
  assumes "store_view b = Some st"
  shows "getAllCustomTagsFlat b = (Inr (map (\<lambda>n. Some (JStr n)) (spec_list_flat st)), snd (getCustomTags b))"
proof -
  obtain d b1 where g: "getCustomTags b = (d, b1)" by fastforce
  with store_view_loaded(1) [OF assms] have "tags_view d = Some st" by simp
  with g show ?thesis
    by (simp add: getAllCustomTagsFlat_def concat_names_view spec_list_flat_def map_concat comp_def)
qed

lemma import_tag_decoded: "decode_tag x = Some t \<Longrightarrow> import_tag x = x"
  by (cases x) (auto simp: import_tag_def)

lemma map_import_tag_decoded: "decode_tags xs = Some ts \<Longrightarrow> map import_tag xs = xs"
proof (induction xs arbitrary: ts)
  case Nil
  then show ?case by simp
next
  case (Cons x xs)
  from Cons.prems obtain t ts' where "decode_tag x = Some t" and "decode_tags xs = Some ts'"
    by (rule decode_tags_ConsE)
  with Cons.IH show ?case by (simp add: import_tag_decoded)
qed

lemma decode_import_tags: "decode_tags (map import_tag ys) = spec_import_tags ys"
proof (induction ys)
  case (Cons y ys)
  have "decode_tag (import_tag y) = spec_import_tag y"
    by (cases y) (simp_all add: import_tag_def tag_obj_def)
  then show ?case by (simp only: list.map decode_tags.simps spec_import_tags.simps Cons.IH)
qed simp

lemma import_subjects_own:
  assumes "tags_view (PlainObj kvs) = Some st"
  shows "import_subjects (JObj kvs) (PlainObj kvs) ss = Inr (PlainObj kvs)"
proof (induction ss)
  case Nil
  then show ?case by simp
next
  case (Cons s ss)
  obtain xs where get: "map_of kvs (subject_key s) = Some (JArr xs)" and dx: "decode_tags xs = Some (st s)"
    using tags_view_SomeD(2) [OF assms, of s] by auto
  have "obj_set (PlainObj kvs) (subject_key s) (JArr xs) = PlainObj kvs"
    using get by (simp add: alist_set_id)
  with Cons.IH get map_import_tag_decoded [OF dx] show ?case by simp
qed

lemma import_view_SomeD:
  assumes "import_view kvs = Some upd"
  shows "upd s = map_option (\<lambda>ys. the (spec_import_tags ys)) (member_update kvs s)"
    and "member_update kvs s = Some ys \<Longrightarrow> \<exists>ts. spec_import_tags ys = Some ts \<and> upd s = Some ts"
proof -
  from assms have ok: "\<forall>s. case member_update kvs s of None \<Rightarrow> True | Some ys \<Rightarrow> spec_import_tags ys \<noteq> None"
    and u: "upd = (\<lambda>s. map_option (\<lambda>ys. the (spec_import_tags ys)) (member_update kvs s))"
    by (auto simp: import_view_def list_all_iff split: if_splits)
  show "upd s = map_option (\<lambda>ys. the (spec_import_tags ys)) (member_update kvs s)" by (simp add: u)
  assume "member_update kvs s = Some ys"
  with ok [rule_format, of s] u show "\<exists>ts. spec_import_tags ys = Some ts \<and> upd s = Some ts" by auto
qed

lemma import_subjects_view:
  assumes "tags_view d = Some st" and iv: "import_view kvs = Some upd"
  shows "\<exists>d'. import_subjects (JObj kvs) d ss = Inr d' \<and>
              tags_view d' = Some (\<lambda>s. if s \<in> set ss then (case upd s of None \<Rightarrow> st s | Some ts \<Rightarrow> ts) else st s)"
  using assms(1)
proof (induction ss arbitrary: d st)
  case Nil
  then show ?case by simp
next
  case (Cons s ss)
  show ?case
  proof (cases "member_update kvs s")
    case None
    then have get: "get_prop (JObj kvs) (subject_key s) = Inr (map_of kvs (subject_key s))"
      and nz: "\<forall>ys. map_of kvs (subject_key s) \<noteq> Some (JArr ys)"
      by (auto simp: member_update_def split: option.splits json.splits)
    have u: "upd s = None" using import_view_SomeD(1) [OF iv, of s] None by simp
    have step: "import_subjects (JObj kvs) d (s # ss) = import_subjects (JObj kvs) d ss"
      using nz by (auto split: option.splits json.splits)
    from Cons.IH [OF Cons.prems] obtain d' where
      "import_subjects (JObj kvs) d ss = Inr d'" and
      "tags_view d' = Some (\<lambda>t. if t \<in> set ss then (case upd t of None \<Rightarrow> st t | Some ts \<Rightarrow> ts) else st t)"
      by blast
    with step u show ?thesis by (auto simp: fun_eq_iff)
  next
    case (Some ys)
    then have m: "map_of kvs (subject_key s) = Some (JArr ys)"
      by (auto simp: member_update_def split: option.splits json.splits)
    define zs where "zs = map import_tag ys"
    obtain ts where dz: "decode_tags zs = Some ts" and u: "upd s = Some ts"
      using import_view_SomeD(2) [OF iv Some] by (auto simp: zs_def decode_import_tags)
    have td1: "tags_view (obj_set d (subject_key s) (JArr zs)) = Some (st(s := ts))"
      by (rule tags_view_obj_set [OF Cons.prems dz])
    from Cons.IH [OF td1] obtain d' where
      run: "import_subjects (JObj kvs) (obj_set d (subject_key s) (JArr zs)) ss = Inr d'" and
      v': "tags_view d' = Some (\<lambda>t. if t \<in> set ss then (case upd t of None \<Rightarrow> (st(s := ts)) t | Some ts \<Rightarrow> ts)
                                 else (st(s := ts)) t)"
      by blast
    have "import_subjects (JObj kvs) d (s # ss) = Inr d'" using run m by (simp add: zs_def)
    with v' u show ?thesis by (auto simp: fun_eq_iff split: option.splits)
  qed
qed

section \<open>Refinement: the operations implement the abstract store\<close>

text \<open>C1. On a well-formed browser, \<open>addCustomTag\<close> returns what the abstract
  \<open>add\<close> returns (false for a blank or duplicate trimmed name, true otherwise), never
  throws, and leaves a well-formed browser whose abstract store is the abstract result:
  the trimmed name appended to that subject with the given category.\<close>

theorem addCustomTag_refines:
  assumes win: "has_window b" and q: "quota_ok b" and v: "store_view b = Some st"
  shows "\<exists>b'. addCustomTag s n c b = (Inr (fst (spec_add s n c st)), b') \<and>
              store_view b' = Some (snd (spec_add s n c st)) \<and> tags_wf b'"
proof -
  obtain d b1 where g: "getCustomTags b = (d, b1)" by fastforce
  from v g have td: "tags_view d = Some st" and v1: "store_view b1 = Some st"
    using store_view_loaded [OF v] by simp_all
  from g win q have w1: "has_window b1" and q1: "quota_ok b1"
    using getCustomTags_window [of b] getCustomTags_quota [of b] by simp_all
  obtain xs where get: "obj_get d (subject_key s) = Some (JArr xs)" and dx: "decode_tags xs = Some (st s)"
    using tags_view_SomeD(2) [OF td] by blast
  let ?n = "js_trim n"
  let ?new = "\<lparr>tag_name = ?n, tag_category = Some c\<rparr>"
  show ?thesis
  proof (cases "?n = []")
    case True
    with win q v show ?thesis by (simp add: addCustomTag_def spec_add_def tags_wf_def)
  next
    case blank: False
    show ?thesis
    proof (cases "?n \<in> set (map tag_name (st s))")
      case True
      with blank g get dx v1 w1 q1 show ?thesis
        by (simp add: addCustomTag_def spec_add_def js_some_name_is tags_wf_def)
    next
      case False
      have dx': "decode_tags (xs @ [tag_obj (JStr ?n) c]) = Some (st s @ [?new])"
        using decode_tags_append [OF dx] by simp
      have "store_view (saveCustomTags (obj_set d (subject_key s) (JArr (xs @ [tag_obj (JStr ?n) c]))) b1)
            = Some (st(s := st s @ [?new]))"
        using store_view_saveCustomTags [OF w1 q1 tags_view_obj_set [OF td dx']] .
      with blank False g get dx w1 q1 show ?thesis
        by (simp add: addCustomTag_def spec_add_def js_some_name_is tags_wf_def)
    qed
  qed
qed

theorem addCustomTag_refines_witness:
  "\<exists>b'. addCustomTag Math '' x '' ''default''
          \<lparr>has_window = True, local_storage = Map.empty, quota_ok = True\<rparr> =
        (Inr (fst (spec_add Math '' x '' ''default'' empty_store)), b') \<and>
        store_view b' = Some (snd (spec_add Math '' x '' ''default'' empty_store)) \<and> tags_wf b'"
  by (rule addCustomTag_refines) (simp_all add: store_view_no_blob)

text \<open>C2. On a well-formed browser, \<open>removeCustomTag\<close> returns what the abstract
  \<open>remove\<close> returns, never throws, and leaves a well-formed browser whose abstract store
  has the first tag of that name removed from the subject (the store is unchanged
  when there is none). The name is compared as given, untrimmed.\<close>

theorem removeCustomTag_refines:
  assumes win: "has_window b" and q: "quota_ok b" and v: "store_view b = Some st"
  shows "\<exists>b'. removeCustomTag s n b = (Inr (fst (spec_remove s n st)), b') \<and>
              store_view b' = Some (snd (spec_remove s n st)) \<and> tags_wf b'"
proof -
  obtain d b1 where g: "getCustomTags b = (d, b1)" by fastforce
  from v g have td: "tags_view d = Some st" and v1: "store_view b1 = Some st"
    using store_view_loaded [OF v] by simp_all
  from g win q have w1: "has_window b1" and q1: "quota_ok b1"
    using getCustomTags_window [of b] getCustomTags_quota [of b] by simp_all
  obtain xs where get: "obj_get d (subject_key s) = Some (JArr xs)" and dx: "decode_tags xs = Some (st s)"
    using tags_view_SomeD(2) [OF td] by blast
  show ?thesis
  proof (cases "find_idx (\<lambda>t. tag_name t = n) (st s)")
    case None
    with g get dx v1 w1 q1 show ?thesis
      by (simp add: removeCustomTag_def spec_remove_def js_find_index_name_is tags_wf_def
          del: find_idx_None)
  next
    case (Some i)
    have "store_view (saveCustomTags (obj_set d (subject_key s) (JArr (remove_nth i xs))) b1)
          = Some (st(s := remove_nth i (st s)))"
      using store_view_saveCustomTags [OF w1 q1 tags_view_obj_set [OF td decode_tags_remove_nth [OF dx]]] .
    with Some g get dx w1 q1 show ?thesis
      by (simp add: removeCustomTag_def spec_remove_def js_find_index_name_is tags_wf_def)
  qed
qed


theorem removeCustomTag_refines_witness:
  "\<exists>b'. removeCustomTag Math ''x'' \<lparr>has_window = True, local_storage = Map.empty, quota_ok = True\<rparr> =
        (Inr (fst (spec_remove Math ''x'' empty_store)), b') \<and>
        store_view b' = Some (snd (spec_remove Math ''x'' empty_store)) \<and> tags_wf b'"
  by (rule removeCustomTag_refines) (simp_all add: store_view_no_blob)


text \<open>C12. \<open>getAllCustomTagsFlat\<close> on a browser with an abstract store returns the
  names of all tags, subject by subject in the order math, english, physics,
  chemistry, other and each subject in store order, and leaves the abstract store as it was.\<close>

theorem getAllCustomTagsFlat_refines:
  assumes "store_view b = Some st"
  shows "fst (getAllCustomTagsFlat b) = Inr (map (\<lambda>n. Some (JStr n)) (spec_list_flat st)) \<and>
         store_view (snd (getAllCustomTagsFlat b)) = Some st"
  using getAllCustomTagsFlat_view [OF assms] store_view_loaded(2) [OF assms] by simp

theorem getAllCustomTagsFlat_refines_witness:
  "fst (getAllCustomTagsFlat \<lparr>has_window = True, local_storage = Map.empty, quota_ok = True\<rparr>) =
     Inr (map (\<lambda>n. Some (JStr n)) (spec_list_flat empty_store)) \<and>
   store_view (snd (getAllCustomTagsFlat \<lparr>has_window = True, local_storage = Map.empty, quota_ok = True\<rparr>)) =
     Some empty_store"
  by (rule getAllCustomTagsFlat_refines) (simp add: store_view_no_blob)

text \<open>C13. \<open>isCustomTag n\<close> on a browser with an abstract store is true exactly when
  \<open>n\<close> is among the names of the flat list.\<close>

theorem isCustomTag_refines:
  assumes "store_view b = Some st"
  shows "fst (isCustomTag n b) = Inr (spec_is_custom n st)"
  using getAllCustomTagsFlat_view [OF assms] by (auto simp: isCustomTag_def spec_is_custom_def)

theorem isCustomTag_refines_witness:
  "fst (isCustomTag ''x'' \<lparr>has_window = True, local_storage = Map.empty, quota_ok = True\<rparr>) =
   Inr (spec_is_custom ''x'' empty_store)"
  by (rule isCustomTag_refines) (simp add: store_view_no_blob)

text \<open>C14. \<open>getCustomTagsStats\<close> on a browser with an abstract store returns the count
  of each subject in the fixed subject order followed by their sum under \<open>total\<close>.\<close>

theorem getCustomTagsStats_refines:
  assumes "store_view b = Some st"
  shows "fst (getCustomTagsStats b) = Inr (spec_stats st)"
  using getCustomTagsStats_view [OF assms] by simp

theorem getCustomTagsStats_refines_witness:
  "fst (getCustomTagsStats \<lparr>has_window = True, local_storage = Map.empty, quota_ok = True\<rparr>) =
   Inr (spec_stats empty_store)"
  by (rule getCustomTagsStats_refines) (simp add: store_view_no_blob)

text \<open>\<open>getCustomTagsStats\<close> never throws, whatever the browser holds: after
  loading every subject member is an array, so every \<open>length\<close> read succeeds.\<close>

theorem getCustomTagsStats_total: "\<exists>r. fst (getCustomTagsStats b) = Inr r"
proof -
  obtain d b1 where g: "getCustomTags b = (d, b1)" by fastforce
  have "settled d" using getCustomTags_loaded_settled [of b] g by simp
  then obtain ns where "counts d subjects = Inr ns"
    using counts_settled [of d subjects] by (auto simp: settled_def)
  with g show ?thesis by (simp add: getCustomTagsStats_def)
qed

text \<open>Exporting a well-formed store and importing the exported text succeeds, keeps
  the abstract store, and so leaves \<open>getCustomTagsStats\<close> exactly as before.\<close>

lemma export_import_roundtrip:
  assumes win: "has_window b" and q: "quota_ok b" and v: "store_view b = Some st"
  shows "(let (txt, b1) = exportCustomTags b; (ok, b2) = importCustomTags txt b1
          in ok \<and> store_view b2 = Some st \<and> fst (getCustomTagsStats b2) = fst (getCustomTagsStats b))"
proof -
  obtain d b1 where g: "getCustomTags b = (d, b1)" by fastforce
  from store_view_loaded [OF v] g have td: "tags_view d = Some st" and v1: "store_view b1 = Some st"
    by simp_all
  obtain kvs where d: "d = PlainObj kvs"
    using tags_view_SomeD(1) [OF td] by (cases d) auto
  have g1: "getCustomTags b1 = (d, b1)" using getCustomTags_reload [of b] g by simp
  from g win q have w1: "has_window b1" and q1: "quota_ok b1"
    using getCustomTags_window [of b] getCustomTags_quota [of b] by simp_all
  have imp: "importCustomTags (Text_JSON (stringify d)) b1 = (True, saveCustomTags d b1)"
    using g1 import_subjects_own [OF td [unfolded d]] d by (simp add: importCustomTags_def)
  have v2: "store_view (saveCustomTags d b1) = Some st"
    by (rule store_view_saveCustomTags [OF w1 q1 td])
  have "fst (getCustomTagsStats (saveCustomTags d b1)) = fst (getCustomTagsStats b)"
    using getCustomTagsStats_view [OF v2] getCustomTagsStats_view [OF v] by simp
  with imp v2 g show ?thesis by (simp add: exportCustomTags_def)
qed

text \<open>C15. \<open>clearCustomTags\<close> with a window removes the stored blob, so the next load
  yields the empty store, and touches no other \<open>localStorage\<close> key.\<close>

theorem clearCustomTags_empties:
  "has_window b \<Longrightarrow> store_view (clearCustomTags b) = Some empty_store \<and>
     (\<forall>k. k \<noteq> CUSTOM_TAGS_KEY \<longrightarrow> local_storage (clearCustomTags b) k = local_storage b k)"
  by (simp add: clearCustomTags_def store_view_no_blob)

theorem clearCustomTags_empties_witness:
  "store_view (clearCustomTags \<lparr>has_window = True,
      local_storage = [CUSTOM_TAGS_KEY \<mapsto> Text_Malformed, ''other_key'' \<mapsto> Text_Malformed], quota_ok = True\<rparr>) =
     Some empty_store \<and>
   local_storage (clearCustomTags \<lparr>has_window = True,
      local_storage = [CUSTOM_TAGS_KEY \<mapsto> Text_Malformed, ''other_key'' \<mapsto> Text_Malformed], quota_ok = True\<rparr>)
      ''other_key'' = Some Text_Malformed"
  using clearCustomTags_empties [of "\<lparr>has_window = True,
      local_storage = [CUSTOM_TAGS_KEY \<mapsto> Text_Malformed, ''other_key'' \<mapsto> Text_Malformed], quota_ok = True\<rparr>"]
  by (simp add: CUSTOM_TAGS_KEY_def)

text \<open>C3. Importing an object whose subject members are arrays of strings or decodable tag
  objects succeeds and replaces exactly those subjects' lists by the normalised
  input; subjects absent from the input, or not arrays there, keep their tags. The
  normalisation \<^term>\<open>import_view\<close> is the spec's, written on abstract tags apart from
  the code's \<open>import_tag\<close>: a string becomes a tag with category \<open>"default"\<close>, a tag
  object is read as it is.\<close>

theorem importCustomTags_refines:
  assumes win: "has_window b" and q: "quota_ok b" and v: "store_view b = Some st"
    and iv: "import_view kvs = Some upd"
  shows "\<exists>b'. importCustomTags (Text_JSON (JObj kvs)) b = (True, b') \<and>
              store_view b' = Some (spec_import upd st) \<and> tags_wf b'"
proof -
  obtain d b1 where g: "getCustomTags b = (d, b1)" by fastforce
  from store_view_loaded [OF v] g have td: "tags_view d = Some st" by simp
  from g win q have w1: "has_window b1" and q1: "quota_ok b1"
    using getCustomTags_window [of b] getCustomTags_quota [of b] by simp_all
  obtain d' where run: "import_subjects (JObj kvs) d subjects = Inr d'"
    and td': "tags_view d' = Some (spec_import upd st)"
    using import_subjects_view [OF td iv, of subjects] by (auto simp: spec_import_def fun_eq_iff)
  have "store_view (saveCustomTags d' b1) = Some (spec_import upd st)"
    by (rule store_view_saveCustomTags [OF w1 q1 td'])
  with g run w1 q1 show ?thesis by (simp add: importCustomTags_def tags_wf_def)
qed

theorem importCustomTags_refines_witness:
  "import_view [(''math'', JArr [JStr ''a''])] =
     Some ((\<lambda>s. None)(Math := Some [\<lparr>tag_name = ''a'', tag_category = Some ''default''\<rparr>])) \<and>
   (\<exists>b'. importCustomTags (Text_JSON (JObj [(''math'', JArr [JStr ''a''])]))
          \<lparr>has_window = True, local_storage = Map.empty, quota_ok = True\<rparr> = (True, b') \<and>
        store_view b' = Some (spec_import ((\<lambda>s. None)(Math := Some [\<lparr>tag_name = ''a'', tag_category = Some ''default''\<rparr>]))
                                empty_store) \<and>
        tags_wf b')"
proof -
  have iv: "import_view [(''math'', JArr [JStr ''a''])] =
     Some ((\<lambda>s. None)(Math := Some [\<lparr>tag_name = ''a'', tag_category = Some ''default''\<rparr>]))"
  proof -
    have "member_update [(''math'', JArr [JStr ''a''])] s = (if s = Math then Some [JStr ''a''] else None)" for s
      by (cases s) (simp_all add: member_update_def)
    then show ?thesis by (simp add: import_view_def subjects_def fun_eq_iff)
  qed
  have "has_window \<lparr>has_window = True, local_storage = Map.empty, quota_ok = True\<rparr>"
    "quota_ok \<lparr>has_window = True, local_storage = Map.empty, quota_ok = True\<rparr>"
    "store_view \<lparr>has_window = True, local_storage = Map.empty, quota_ok = True\<rparr> = Some empty_store"
    by (simp_all add: store_view_no_blob)
  from importCustomTags_refines [OF this iv] iv show ?thesis by blast
qed

end
