(* ===== verification/Tags_Migration.thy ===== *)
theory Tags_Migration
  imports Tags
begin

text \<open>
  A reference reading of the migration loop of \<open>getCustomTags\<close>
  (\<open>src/src/lib/custom-tags.ts\<close>, the \<open>subjects.forEach\<close> body): each subject member is
  rewritten on its own, by \<^term>\<open>migrate_member\<close>, and the loop reports a migration
  when some member had the legacy shape. The subject keys are distinct, so the order
  of the loop does not matter; the theorem below shows the loop computes exactly the
  pointwise rewrite.
\<close>

definition migrate_member :: "json option \<Rightarrow> json" where
  "migrate_member v =
     (case v of
        Some (JArr xs) \<Rightarrow>
          if xs \<noteq> [] \<and> first_is_string xs then JArr (map (\<lambda>t. tag_obj t ''default'') xs) else JArr xs
      | _ \<Rightarrow> JArr [])"

definition legacy_member :: "json option \<Rightarrow> bool" where
  "legacy_member v = (case v of Some (JArr xs) \<Rightarrow> xs \<noteq> [] \<and> first_is_string xs | _ \<Rightarrow> False)"

lemma migrate_subject_pointwise:
  "migrate_subject (d, m) s =
     (obj_set d (subject_key s) (migrate_member (obj_get d (subject_key s))),
      m \<or> legacy_member (obj_get d (subject_key s)))"
  by (auto simp: migrate_subject.simps migrate_member_def legacy_member_def Let_def
      split: option.splits json.splits)

lemma foldl_migrate_pointwise:
  assumes "distinct ss"
  shows "snd (foldl migrate_subject (d, m) ss) =
           (m \<or> list_ex (\<lambda>s. legacy_member (obj_get d (subject_key s))) ss) \<and>
         (\<forall>k. obj_get (fst (foldl migrate_subject (d, m) ss)) k =
                (if k \<in> subject_key ` set ss then Some (migrate_member (obj_get d k)) else obj_get d k))"
  using assms
proof (induction ss arbitrary: d m)
  case Nil
  then show ?case by simp
next
  case (Cons s ss)
  let ?d' = "obj_set d (subject_key s) (migrate_member (obj_get d (subject_key s)))"
  have same: "obj_get ?d' (subject_key t) = obj_get d (subject_key t)" if "t \<in> set ss" for t
    using Cons.prems that by auto
  have ex: "list_ex (\<lambda>t. legacy_member (obj_get ?d' (subject_key t))) ss =
            list_ex (\<lambda>t. legacy_member (obj_get d (subject_key t))) ss"
    using same by (auto simp: list_ex_iff)
  from Cons.prems have "distinct ss" by simp
  note IH = Cons.IH [OF this, of ?d' "m \<or> legacy_member (obj_get d (subject_key s))"]
  show ?case
  proof (intro conjI allI)
    show "snd (foldl migrate_subject (d, m) (s # ss)) =
            (m \<or> list_ex (\<lambda>s. legacy_member (obj_get d (subject_key s))) (s # ss))"
      using IH ex by (simp add: migrate_subject_pointwise)
  next
    fix k
    show "obj_get (fst (foldl migrate_subject (d, m) (s # ss))) k =
            (if k \<in> subject_key ` set (s # ss) then Some (migrate_member (obj_get d k)) else obj_get d k)"
      using IH Cons.prems by (auto simp: migrate_subject_pointwise)
  qed
qed

lemma distinct_subjects [simp]: "distinct subjects"
  by (simp add: subjects_def)

text \<open>C9. The migration loop of \<open>getCustomTags\<close> is equivalent to its pointwise reference:
  for a parsed value that can be written into, \<open>load_tags\<close> succeeds, every subject
  member becomes \<^term>\<open>migrate_member\<close> of what it was, every other property is kept,
  and the \<open>migrated\<close> flag is set exactly when some member had the legacy shape.\<close>

theorem load_tags_pointwise:
  assumes "as_object data = Inr d"
  shows "\<exists>d'. load_tags data = Inr (d', list_ex (\<lambda>s. legacy_member (obj_get d (subject_key s))) subjects) \<and>
              (\<forall>k. obj_get d' k =
                     (if k \<in> set (map subject_key subjects) then Some (migrate_member (obj_get d k))
                      else obj_get d k))"
proof -
  obtain d' m' where run: "foldl migrate_subject (d, False) subjects = (d', m')" by fastforce
  from foldl_migrate_pointwise [OF distinct_subjects, of d False] run
  have "m' = list_ex (\<lambda>s. legacy_member (obj_get d (subject_key s))) subjects"
    and "\<forall>k. obj_get d' k = (if k \<in> set (map subject_key subjects) then Some (migrate_member (obj_get d k))
                              else obj_get d k)"
    by simp_all
  with assms run show ?thesis by (simp add: load_tags_def)
qed

theorem load_tags_pointwise_witness:
  "\<exists>d'. load_tags (JObj [(''math'', JStr ''x'')]) =
          Inr (d', list_ex (\<lambda>s. legacy_member (obj_get (PlainObj [(''math'', JStr ''x'')]) (subject_key s))) subjects) \<and>
        (\<forall>k. obj_get d' k =
               (if k \<in> set (map subject_key subjects) then Some (migrate_member (obj_get (PlainObj [(''math'', JStr ''x'')]) k))
                else obj_get (PlainObj [(''math'', JStr ''x'')]) k))"
  by (rule load_tags_pointwise) simp

end
