(* ===== verification/Tags_Types.thy ===== *)
theory Tags_Types
  imports Tags_Spec
begin

text \<open>
  The TypeScript interfaces \<open>CustomTag\<close> and \<open>CustomTagsData\<close> of
  \<open>src/src/lib/custom-tags.ts\<close> as predicates on JSON values: a tag is an object with a
  string \<open>name\<close> and, optionally, a string \<open>category\<close> (further properties are allowed,
  as in TypeScript's structural typing); the data is an object with an array of tags
  under each of the five subject keys. \<open>getCustomTags\<close> returns its result
  \<open>as CustomTagsData\<close>, an unchecked cast; the lemmas below show that the abstract view
  of \<open>Tags_Spec\<close> is defined exactly on the values that have this type, and that the
  loaded data need not have it.
\<close>

fun is_custom_tag :: "json \<Rightarrow> bool" where
  "is_custom_tag (JObj kvs) =
     ((case map_of kvs ''name'' of Some (JStr _) \<Rightarrow> True | _ \<Rightarrow> False) \<and>
      (case map_of kvs ''category'' of None \<Rightarrow> True | Some (JStr _) \<Rightarrow> True | Some _ \<Rightarrow> False))"
| "is_custom_tag _ = False"

definition is_custom_tags_data :: "json \<Rightarrow> bool" where
  "is_custom_tags_data v =
     (case v of
        JObj kvs \<Rightarrow>
          list_all (\<lambda>s. case map_of kvs (subject_key s) of
                          Some (JArr xs) \<Rightarrow> list_all is_custom_tag xs
                        | _ \<Rightarrow> False) subjects
      | _ \<Rightarrow> False)"

lemma decode_tag_typed: "decode_tag x \<noteq> None \<longleftrightarrow> is_custom_tag x"
  by (cases x rule: is_custom_tag.cases) (auto split: option.splits json.splits)

lemma decode_tags_typed: "decode_tags xs \<noteq> None \<longleftrightarrow> list_all is_custom_tag xs"
proof (induction xs)
  case Nil
  then show ?case by simp
next
  case (Cons x xs)
  then show ?case using decode_tag_typed [of x] by (auto split: option.splits)
qed

lemma tags_view_typed: "tags_view d \<noteq> None \<longleftrightarrow> is_plain d \<and> is_custom_tags_data (stringify d)"
proof (cases d)
  case (PlainObj kvs)
  have "subject_view d s \<noteq> None \<longleftrightarrow>
        (case map_of kvs (subject_key s) of Some (JArr xs) \<Rightarrow> list_all is_custom_tag xs | _ \<Rightarrow> False)" for s
    using PlainObj decode_tags_typed
    by (auto simp: subject_view_def split: option.splits json.splits)
  then show ?thesis using PlainObj by (simp add: tags_view_def is_custom_tags_data_def list_all_iff)
next
  case (ArrayObj xs props)
  then show ?thesis by (simp add: tags_view_def)
qed

text \<open>C10. The cast \<open>as CustomTagsData\<close> of \<open>getCustomTags\<close> is not checked:
  when the stored object holds, under some subject, an array whose first element is
  neither a string nor a \<open>CustomTag\<close> object (a number, \<open>null\<close>, an array), the loop
  leaves that array as it is and the returned data does not have the declared type.\<close>

theorem getCustomTags_cast_unchecked:
  assumes win: "has_window b"
    and st: "local_storage b CUSTOM_TAGS_KEY = Some (Text_JSON (JObj kvs))"
    and mem: "map_of kvs (subject_key s) = Some (JArr (x # xs))"
    and not_str: "\<forall>n. x \<noteq> JStr n" and not_tag: "\<not> is_custom_tag x"
  shows "\<not> is_custom_tags_data (stringify (fst (getCustomTags b)))"
proof -
  have "settled_at (PlainObj kvs) s"
    using mem not_str by (cases x) (simp_all add: settled_at_def)
  then have get: "obj_get (fst (getCustomTags b)) (subject_key s) = Some (JArr (x # xs))"
    using getCustomTags_settled_member [OF win st] mem by simp
  obtain d m where run: "foldl migrate_subject (PlainObj kvs, False) subjects = (d, m)" by fastforce
  have d: "fst (getCustomTags b) = d"
    using win st run by (simp add: getCustomTags_def load_tags_def)
  have "is_plain d" using foldl_migrate_plain [of "PlainObj kvs" False subjects] run by simp
  then obtain kvs' where "d = PlainObj kvs'" by (cases d) auto
  with get d not_tag have "\<not> (case map_of kvs' (subject_key s) of
      Some (JArr ys) \<Rightarrow> list_all is_custom_tag ys | _ \<Rightarrow> False)" by simp
  then show ?thesis using d \<open>d = PlainObj kvs'\<close>
    by (auto simp: is_custom_tags_data_def list_all_iff)
qed

theorem getCustomTags_cast_unchecked_witness:
  "\<not> is_custom_tags_data (stringify (fst (getCustomTags
     \<lparr>has_window = True, local_storage = [CUSTOM_TAGS_KEY \<mapsto> Text_JSON (JObj [(''math'', JArr [JNull])])],
      quota_ok = True\<rparr>)))"
  by (rule getCustomTags_cast_unchecked [where s = Math and kvs = "[(''math'', JArr [JNull])]" and x = JNull and xs = "[]"]) simp_all

end
