(* ===== verification/Json_Text.thy ===== *)
theory Json_Text
  imports JsValue
begin

text \<open>
  The text layer of the browser's JSON: \<open>JSON.stringify\<close> as the printer \<open>pj\<close>
  and \<open>JSON.parse\<close> as the parser \<open>parse_json\<close>, over the values of
  \<^typ>\<open>json\<close>. The tag store keeps its data as the text \<open>JSON.stringify(tags)\<close>
  (\<open>src/src/lib/custom-tags.ts\<close>, \<open>saveCustomTags\<close>), exports it as
  \<open>JSON.stringify(tags, null, 2)\<close> and reads both back with \<open>JSON.parse\<close>.

  \<open>pj gap ind v\<close> prints \<open>v\<close> the way \<open>JSON.stringify(v, null, gap)\<close> does at
  indentation \<open>ind\<close>: with the empty gap it writes no whitespace; otherwise each
  element and member goes on its own line, indented one gap deeper, and a colon is
  followed by one space; an empty array or object prints as \<open>[]\<close> or \<open>{}\<close>. Strings
  escape the quote, the backslash and the control characters (short escapes where
  JSON has them, \<open>\u00xx\<close> otherwise).

  The parser reads what the JSON grammar allows, whitespace included, and fails with
  \<open>None\<close> where \<open>JSON.parse\<close> throws a \<open>SyntaxError\<close>. It is one recursive
  function \<open>pjs\<close> over the four places of the grammar (\<open>pmode\<close>), with fuel:
  every call consumes one unit, and \<open>parse_json\<close> gives one unit more than
  the text has characters; the lemma \<open>jfuel_length\<close> below shows that this is enough for
  every printed value.

  Two restrictions follow from the model's types: characters are bytes, so a \<open>\u\<close>
  escape is read only below 256; numbers are integers (the values the sources store
  are strings, arrays and objects).
\<close>

section \<open>Printing: \<open>JSON.stringify\<close>\<close>

definition quote_char :: char where "quote_char = CHR 0x22"
definition backslash :: char where "backslash = CHR 0x5C"

definition hex_digit :: "nat \<Rightarrow> char" where
  "hex_digit n = (if n < 10 then char_of (48 + n) else char_of (87 + n))"

definition esc_char :: "char \<Rightarrow> string" where
  "esc_char c =
     (if c = quote_char then [backslash, quote_char]
      else if c = backslash then [backslash, backslash]
      else if c = CHR 0x08 then [backslash, CHR ''b'']
      else if c = CHR 0x09 then [backslash, CHR ''t'']
      else if c = CHR 0x0A then [backslash, CHR ''n'']
      else if c = CHR 0x0C then [backslash, CHR ''f'']
      else if c = CHR 0x0D then [backslash, CHR ''r'']
      else if of_char c < (32::nat) then
        [backslash, CHR ''u'', CHR ''0'', CHR ''0'', hex_digit (of_char c div 16), hex_digit (of_char c mod 16)]
      else [c])"

definition print_str :: "string \<Rightarrow> string" where
  "print_str s = quote_char # concat (map esc_char s) @ [quote_char]"

fun nat_digits :: "nat \<Rightarrow> string" where
  "nat_digits n = (if n < 10 then [char_of (48 + n)] else nat_digits (n div 10) @ [char_of (48 + n mod 10)])"

definition print_int :: "int \<Rightarrow> string" where
  "print_int i = (if i < 0 then CHR ''-'' # nat_digits (nat (- i)) else nat_digits (nat i))"

fun join :: "string \<Rightarrow> string list \<Rightarrow> string" where
  "join sep [] = []"
| "join sep (x # xs) = x @ concat (map (\<lambda>y. sep @ y) xs)"

definition nl :: char where "nl = CHR 0x0A"

fun pj :: "string \<Rightarrow> string \<Rightarrow> json \<Rightarrow> string" where
  "pj gap ind JNull = ''null''"
| "pj gap ind (JBool b) = (if b then ''true'' else ''false'')"
| "pj gap ind (JNum i) = print_int i"
| "pj gap ind (JStr s) = print_str s"
| "pj gap ind (JArr xs) =
     (if xs = [] then ''[]''
      else if gap = [] then CHR ''['' # join '','' (map (pj gap ind) xs) @ '']''
      else CHR ''['' # nl # (ind @ gap) @ join ('','' @ nl # ind @ gap) (map (pj gap (ind @ gap)) xs)
             @ nl # ind @ '']'')"
| "pj gap ind (JObj kvs) =
     (if kvs = [] then ''{}''
      else if gap = [] then
        CHR ''{'' # join '','' (map (\<lambda>(k, v). print_str k @ CHR '':'' # pj gap ind v) kvs) @ ''}''
      else CHR ''{'' # nl # (ind @ gap) @
             join ('','' @ nl # ind @ gap) (map (\<lambda>(k, v). print_str k @ '': '' @ pj gap (ind @ gap) v) kvs)
             @ nl # ind @ ''}'')"

section \<open>Parsing: \<open>JSON.parse\<close>\<close>

definition is_json_ws :: "char \<Rightarrow> bool" where
  "is_json_ws c \<longleftrightarrow> c = CHR 0x20 \<or> c = CHR 0x09 \<or> c = CHR 0x0A \<or> c = CHR 0x0D"

definition skip_ws :: "string \<Rightarrow> string" where
  "skip_ws = dropWhile is_json_ws"

definition is_digit :: "char \<Rightarrow> bool" where
  "is_digit c \<longleftrightarrow> (48::nat) \<le> of_char c \<and> of_char c \<le> (57::nat)"

definition digit_val :: "char \<Rightarrow> nat" where
  "digit_val c = of_char c - 48"

fun digits_val :: "nat \<Rightarrow> string \<Rightarrow> nat \<times> string" where
  "digits_val acc [] = (acc, [])"
| "digits_val acc (c # r) = (if is_digit c then digits_val (10 * acc + digit_val c) r else (acc, c # r))"

text \<open>A number is \<open>0\<close> or a non-zero digit followed by digits; a leading zero ends it.\<close>

definition parse_nat :: "string \<Rightarrow> (nat \<times> string) option" where
  "parse_nat s =
     (case s of
        [] \<Rightarrow> None
      | c # r \<Rightarrow> if c = CHR ''0'' then Some (0, r)
                 else if is_digit c then Some (digits_val (digit_val c) r) else None)"

definition parse_num :: "string \<Rightarrow> (json \<times> string) option" where
  "parse_num s =
     (case s of
        [] \<Rightarrow> None
      | c # r \<Rightarrow> if c = CHR ''-'' then map_option (\<lambda>(n, r'). (JNum (- int n), r')) (parse_nat r)
                 else map_option (\<lambda>(n, r'). (JNum (int n), r')) (parse_nat s))"

definition hex_val :: "char \<Rightarrow> nat option" where
  "hex_val c =
     (if is_digit c then Some (digit_val c)
      else if (97::nat) \<le> of_char c \<and> of_char c \<le> (102::nat) then Some (of_char c - 87)
      else if (65::nat) \<le> of_char c \<and> of_char c \<le> (70::nat) then Some (of_char c - 55)
      else None)"

text \<open>The body of a string literal after its opening quote, with the characters read so
  far in reverse. Escapes \<open>\u\<close> name characters below 256 only: the model's characters
  are bytes.\<close>

fun pstr :: "string \<Rightarrow> string \<Rightarrow> (string \<times> string) option" where
  "pstr acc [] = None"
| "pstr acc (c # r) =
     (if c = quote_char then Some (rev acc, r)
      else if c = backslash then
        (case r of
           [] \<Rightarrow> None
         | e # r' \<Rightarrow>
             if e = quote_char \<or> e = backslash \<or> e = CHR ''/'' then pstr (e # acc) r'
             else if e = CHR ''b'' then pstr (CHR 0x08 # acc) r'
             else if e = CHR ''t'' then pstr (CHR 0x09 # acc) r'
             else if e = CHR ''n'' then pstr (CHR 0x0A # acc) r'
             else if e = CHR ''f'' then pstr (CHR 0x0C # acc) r'
             else if e = CHR ''r'' then pstr (CHR 0x0D # acc) r'
             else if e = CHR ''u'' then
               (case r' of
                  h1 # h2 # h3 # h4 # r'' \<Rightarrow>
                    (case (hex_val h1, hex_val h2, hex_val h3, hex_val h4) of
                       (Some 0, Some 0, Some a, Some b) \<Rightarrow> pstr (char_of (16 * a + b) # acc) r''
                     | _ \<Rightarrow> None)
                | _ \<Rightarrow> None)
             else None)
      else if of_char c < (32::nat) then None
      else pstr (c # acc) r)"

text \<open>An object read by \<open>JSON.parse\<close>: a repeated key keeps its first position and takes
  its last value.\<close>

definition js_object :: "(string \<times> json) list \<Rightarrow> (string \<times> json) list" where
  "js_object kvs = foldl (\<lambda>m (k, v). alist_set k v m) [] kvs"

text \<open>Recursive descent with fuel, one function for the four positions of the grammar:
  a value, the rest of an array, an object member, the rest of an object (with what has
  been read so far). Each call consumes one unit of fuel; \<open>parse_json\<close> gives one more
  unit than the input has characters.\<close>

datatype pmode = PValue | PArr "json list" | PMember "(string \<times> json) list" | PObj "(string \<times> json) list"

primrec pjs :: "nat \<Rightarrow> pmode \<Rightarrow> string \<Rightarrow> (json \<times> string) option" where
  "pjs 0 m s = None"
| "pjs (Suc n) m s =
     (case skip_ws s of
        [] \<Rightarrow> None
      | c # r \<Rightarrow>
          (case m of
             PValue \<Rightarrow>
               if c = CHR ''n'' then (if take 3 r = ''ull'' then Some (JNull, drop 3 r) else None)
               else if c = CHR ''t'' then (if take 3 r = ''rue'' then Some (JBool True, drop 3 r) else None)
               else if c = CHR ''f'' then (if take 4 r = ''alse'' then Some (JBool False, drop 4 r) else None)
               else if c = quote_char then map_option (\<lambda>(str, r'). (JStr str, r')) (pstr [] r)
               else if c = CHR ''['' then
                 (if take 1 (skip_ws r) = '']'' then Some (JArr [], tl (skip_ws r))
                  else (case pjs n PValue r of None \<Rightarrow> None | Some (v, r') \<Rightarrow> pjs n (PArr [v]) r'))
               else if c = CHR ''{'' then
                 (if take 1 (skip_ws r) = ''}'' then Some (JObj [], tl (skip_ws r))
                  else pjs n (PMember []) r)
               else parse_num (c # r)
           | PArr acc \<Rightarrow>
               if c = CHR '','' then
                 (case pjs n PValue r of None \<Rightarrow> None | Some (v, r') \<Rightarrow> pjs n (PArr (acc @ [v])) r')
               else if c = CHR '']'' then Some (JArr acc, r) else None
           | PMember acc \<Rightarrow>
               if c = quote_char then
                 (case pstr [] r of
                    None \<Rightarrow> None
                  | Some (k, r1) \<Rightarrow>
                      if take 1 (skip_ws r1) = '':'' then
                        (case pjs n PValue (tl (skip_ws r1)) of
                           None \<Rightarrow> None
                         | Some (v, r2) \<Rightarrow> pjs n (PObj (acc @ [(k, v)])) r2)
                      else None)
               else None
           | PObj acc \<Rightarrow>
               if c = CHR '','' then pjs n (PMember acc) r
               else if c = CHR ''}'' then Some (JObj (js_object acc), r) else None))"

definition parse_json :: "string \<Rightarrow> json option" where
  "parse_json s =
     (case pjs (Suc (length s)) PValue s of
        None \<Rightarrow> None
      | Some (v, r) \<Rightarrow> if skip_ws r = [] then Some v else None)"

section \<open>Well-formed values and the parser's fuel\<close>

text \<open>\<open>json_ok\<close>: every object has distinct keys, which is what \<open>JSON.parse\<close>
  returns (\<open>parse_json_ok\<close>). \<open>jfuel\<close> is the fuel a value needs,
  \<open>ok_rest\<close> what may follow a value in the text, \<open>mode_ok\<close> the
  well-formedness of what the parser has read so far, and \<open>digits_acc\<close> the
  value of a digit string.\<close>

fun json_ok :: "json \<Rightarrow> bool" where
  "json_ok (JArr xs) = list_all json_ok xs"
| "json_ok (JObj kvs) = (distinct (map fst kvs) \<and> list_all (\<lambda>(k, v). json_ok v) kvs)"
| "json_ok _ = True"

fun jfuel :: "json \<Rightarrow> nat" where
  "jfuel (JArr xs) = 1 + sum_list (map jfuel xs) + length xs"
| "jfuel (JObj kvs) = 1 + sum_list (map (\<lambda>(k, v). jfuel v) kvs) + 2 * length kvs"
| "jfuel _ = 1"

definition ok_rest :: "string \<Rightarrow> bool" where
  "ok_rest r =
     (case r of [] \<Rightarrow> True | c # _ \<Rightarrow> c = CHR '','' \<or> c = CHR '']'' \<or> c = CHR ''}'' \<or> is_json_ws c)"

fun mode_ok :: "pmode \<Rightarrow> bool" where
  "mode_ok PValue = True"
| "mode_ok (PArr acc) = list_all json_ok acc"
| "mode_ok (PMember acc) = list_all (\<lambda>(k, v). json_ok v) acc"
| "mode_ok (PObj acc) = list_all (\<lambda>(k, v). json_ok v) acc"

definition digits_acc :: "nat \<Rightarrow> string \<Rightarrow> nat" where
  "digits_acc acc ds = foldl (\<lambda>a c. 10 * a + digit_val c) acc ds"

declare nat_digits.simps [simp del]

section \<open>Printing then parsing a string, a number\<close>

lemma of_char_lt_256: "of_char c < (256::nat)"
  by (metis of_char_of char_of_char mod_less_divisor zero_less_numeral)
lemma hex_val_hex_digit [simp]: "d < 16 \<Longrightarrow> hex_val (hex_digit d) = Some d"
  by (auto simp: hex_val_def hex_digit_def is_digit_def digit_val_def of_char_of)

lemma hex_val_zero [simp]: "hex_val (CHR ''0'') = Some 0"
  by (simp add: hex_val_def is_digit_def digit_val_def)

lemma pstr_esc_ctrl:
  assumes "of_char c < (32::nat)"
  shows "pstr acc ([backslash, CHR ''u'', CHR ''0'', CHR ''0'', hex_digit (of_char c div 16),
                    hex_digit (of_char c mod 16)] @ r) = pstr (c # acc) r"
proof -
  have "of_char c div 16 < (16::nat)" "of_char c mod 16 < (16::nat)" using assms by simp_all
  moreover have "char_of (16 * (of_char c div 16) + of_char c mod 16) = c"
    by (simp add: char_of_char)
  ultimately show ?thesis by (simp add: backslash_def quote_char_def)
qed

lemma pstr_esc [simp]: "pstr acc (esc_char c @ r) = pstr (c # acc) r"
proof (cases "c = quote_char \<or> c = backslash \<or> c = CHR 0x08 \<or> c = CHR 0x09 \<or> c = CHR 0x0A \<or>
              c = CHR 0x0C \<or> c = CHR 0x0D")
  case True
  then show ?thesis by (auto simp: esc_char_def quote_char_def backslash_def)
next
  case False
  show ?thesis
  proof (cases "of_char c < (32::nat)")
    case True
    with False have "esc_char c = [backslash, CHR ''u'', CHR ''0'', CHR ''0'', hex_digit (of_char c div 16),
                                   hex_digit (of_char c mod 16)]"
      by (simp add: esc_char_def)
    then show ?thesis using pstr_esc_ctrl [OF True, of acc r] by simp
  next
    case ge: False
    with False have "esc_char c = [c]" by (simp add: esc_char_def)
    with False ge show ?thesis by auto
  qed
qed

lemma pstr_print:
  "pstr acc (concat (map esc_char s) @ quote_char # rest) = Some (rev acc @ s, rest)"
  by (induction s arbitrary: acc) simp_all

lemma digit_char [simp]: "n < 10 \<Longrightarrow> is_digit (char_of (48 + n)) \<and> digit_val (char_of (48 + n)) = n"
  by (simp add: is_digit_def digit_val_def of_char_of)

lemma char_of_48 [simp]: "char_of (48::nat) = CHR ''0''"
  by code_simp

lemma nat_digits_facts:
  "list_all is_digit (nat_digits n) \<and> digits_acc 0 (nat_digits n) = n \<and>
   (\<exists>d ds. nat_digits n = d # ds \<and> (d = CHR ''0'' \<longleftrightarrow> n = 0) \<and> (n = 0 \<longrightarrow> ds = []))"
proof (induction n rule: nat_digits.induct)
  case (1 n)
  show ?case
  proof (cases "n < 10")
    case True
    then have "nat_digits n = [char_of (48 + n)]" by (simp add: nat_digits.simps)
    moreover have "char_of (48 + n) = CHR ''0'' \<longleftrightarrow> n = 0"
    proof
      assume "char_of (48 + n) = CHR ''0''"
      then have "of_char (char_of (48 + n)) = (of_char (CHR ''0'') :: nat)" by simp
      with True show "n = 0" by (simp add: of_char_of)
    qed simp
    ultimately show ?thesis using True by (simp add: digits_acc_def)
  next
    case False
    then have eq: "nat_digits n = nat_digits (n div 10) @ [char_of (48 + n mod 10)]"
      by (simp add: nat_digits.simps)
    from False have pos: "n div 10 \<noteq> 0" by simp
    from "1" False obtain d ds where h: "nat_digits (n div 10) = d # ds" and "d \<noteq> CHR ''0''"
      and all: "list_all is_digit (nat_digits (n div 10))"
      and v: "digits_acc 0 (nat_digits (n div 10)) = n div 10" using pos by auto
    moreover have "digits_acc 0 (nat_digits n) = 10 * (n div 10) + n mod 10"
      using v by (simp add: eq digits_acc_def)
    ultimately show ?thesis using False all by (simp add: eq h)
  qed
qed

lemma digits_val_append:
  "list_all is_digit ds \<Longrightarrow> digits_val acc (ds @ rest) = digits_val (digits_acc acc ds) rest"
  by (induction ds arbitrary: acc) (simp_all add: digits_acc_def)

lemma digits_val_stop: "(case rest of [] \<Rightarrow> True | c # _ \<Rightarrow> \<not> is_digit c) \<Longrightarrow> digits_val acc rest = (acc, rest)"
  by (cases rest) simp_all

lemma parse_nat_digits:
  assumes "case rest of [] \<Rightarrow> True | c # _ \<Rightarrow> \<not> is_digit c"
  shows "parse_nat (nat_digits n @ rest) = Some (n, rest)"
proof -
  obtain d ds where h: "nat_digits n = d # ds" and z: "d = CHR ''0'' \<longleftrightarrow> n = 0" and e: "n = 0 \<longrightarrow> ds = []"
    and all: "list_all is_digit (nat_digits n)" and v: "digits_acc 0 (nat_digits n) = n"
    using nat_digits_facts [of n] by blast
  show ?thesis
  proof (cases "n = 0")
    case True
    with h z e show ?thesis by (simp add: parse_nat_def)
  next
    case False
    with z have "d \<noteq> CHR ''0''" by simp
    moreover from all h have "is_digit d" "list_all is_digit ds" by simp_all
    moreover from v h have "digits_acc (digit_val d) ds = n" by (simp add: digits_acc_def)
    ultimately show ?thesis using h assms by (simp add: parse_nat_def digits_val_append digits_val_stop)
  qed
qed

lemma parse_num_print:
  assumes "case rest of [] \<Rightarrow> True | c # _ \<Rightarrow> \<not> is_digit c"
  shows "parse_num (print_int i @ rest) = Some (JNum i, rest)"
proof (cases "i < 0")
  case True
  then show ?thesis using parse_nat_digits [OF assms, of "nat (- i)"] by (simp add: parse_num_def print_int_def)
next
  case False
  obtain d ds where h: "nat_digits (nat i) = d # ds" and "is_digit d"
    using nat_digits_facts [of "nat i"] by auto
  then have "d \<noteq> CHR ''-''" by (auto simp: is_digit_def)
  with False h show ?thesis using parse_nat_digits [OF assms, of "nat i"]
    by (simp add: parse_num_def print_int_def)
qed

section \<open>Printing then parsing a value\<close>

lemma json_induct [case_names JNull JBool JNum JStr JArr JObj]:
  assumes "P JNull" "\<And>b. P (JBool b)" "\<And>i. P (JNum i)" "\<And>s. P (JStr s)"
    and "\<And>xs. (\<And>x. x \<in> set xs \<Longrightarrow> P x) \<Longrightarrow> P (JArr xs)"
    and "\<And>kvs. (\<And>k v. (k, v) \<in> set kvs \<Longrightarrow> P v) \<Longrightarrow> P (JObj kvs)"
  shows "P v"
proof (induction v rule: json.induct)
  case (JArr xs)
  then show ?case by (rule assms(5))
next
  case (JObj kvs)
  show ?case
  proof (rule assms(6))
    fix k v assume "(k, v) \<in> set kvs"
    then show "P v" using JObj.IH [of "(k, v)" v] by simp
  qed
qed (simp_all add: assms)

lemma skip_ws_Cons [simp]: "\<not> is_json_ws c \<Longrightarrow> skip_ws (c # r) = c # r"
  by (simp add: skip_ws_def)

lemma skip_ws_append_ws [simp]: "list_all is_json_ws w \<Longrightarrow> skip_ws (w @ r) = skip_ws r"
  by (induction w) (simp_all add: skip_ws_def)

lemma skip_ws_idem [simp]: "skip_ws (skip_ws s) = skip_ws s"
  by (induction s) (simp_all add: skip_ws_def)

lemma pjs_ws: "list_all is_json_ws w \<Longrightarrow> pjs n m (w @ s) = pjs n m s"
  by (cases n) simp_all

lemma ok_rest_not_digit: "ok_rest r \<Longrightarrow> (case r of [] \<Rightarrow> True | c # _ \<Rightarrow> \<not> is_digit c)"
  by (cases r) (auto simp: ok_rest_def is_digit_def is_json_ws_def)

lemma pj_arr_start: "\<exists>r. pj gap ind (JArr xs) = CHR ''['' # r"
  by (cases "xs = []"; cases "gap = []") simp_all
lemma pj_obj_start: "\<exists>r. pj gap ind (JObj kvs) = CHR ''{'' # r"
  by (cases "kvs = []"; cases "gap = []") simp_all
lemma print_int_start: "\<exists>c r. print_int i = c # r \<and> (c = CHR ''-'' \<or> is_digit c)"
proof (cases "i < 0")
  case True then show ?thesis by (simp add: print_int_def)
next
  case False
  obtain d ds where nd: "nat_digits (nat i) = d # ds" and all: "list_all is_digit (nat_digits (nat i))"
    using nat_digits_facts [of "nat i"] by blast
  from False nd all show ?thesis by (simp add: print_int_def)
qed

lemma join_map: "join sep (map f (x # xs)) = f x @ concat (map (\<lambda>y. sep @ f y) xs)"
  by (simp add: comp_def)

lemma js_object_distinct: "distinct (map fst (m @ kvs)) \<Longrightarrow> foldl (\<lambda>m (k, v). alist_set k v m) m kvs = m @ kvs"
proof (induction kvs arbitrary: m)
  case Nil
  then show ?case by simp
next
  case (Cons kv kvs)
  obtain k v where kv: "kv = (k, v)" by fastforce
  from Cons.prems kv have "k \<notin> set (map fst m)" by auto
  then have "alist_set k v m = m @ [(k, v)]" by (induction m) auto
  with Cons kv show ?case by simp
qed

lemma ok_rest_close_bracket:
  assumes "list_all is_json_ws w2" and "c = CHR '']'' \<or> c = CHR ''}''"
  shows "ok_rest (concat (map (\<lambda>y. CHR '','' # g y) ys) @ w2 @ c # rest)"
  using assms by (cases ys; cases w2) (auto simp: ok_rest_def)

lemma not_ws_brackets [simp]:
  "\<not> is_json_ws CHR '']''" "\<not> is_json_ws CHR ''}''" "\<not> is_json_ws CHR '',''" "\<not> is_json_ws CHR ''[''"
  "\<not> is_json_ws CHR ''{''" "\<not> is_json_ws CHR '':''" "\<not> is_json_ws quote_char"
  by (simp_all add: is_json_ws_def quote_char_def)

lemma parr_print:
  assumes IH: "\<And>x n rest. x \<in> set xs \<Longrightarrow> json_ok x \<Longrightarrow> jfuel x \<le> n \<Longrightarrow> ok_rest rest \<Longrightarrow>
                 pjs n PValue (p x @ rest) = Some (x, rest)"
    and ok: "list_all json_ok xs" and fuel: "1 + sum_list (map jfuel xs) + length xs \<le> n"
    and w1: "list_all is_json_ws w1" and w2: "list_all is_json_ws w2" and r: "ok_rest rest"
  shows "pjs n (PArr acc) (concat (map (\<lambda>y. CHR '','' # w1 @ p y) xs) @ w2 @ CHR '']'' # rest) =
           Some (JArr (acc @ xs), rest)"
  using IH ok fuel
proof (induction xs arbitrary: acc n)
  case Nil
  then obtain m where "n = Suc m" by (cases n) auto
  with w2 show ?case by simp
next
  case (Cons y ys)
  from Cons.prems(3) obtain m where n: "n = Suc m" by (cases n) auto
  let ?R = "concat (map (\<lambda>y. CHR '','' # w1 @ p y) ys) @ w2 @ CHR '']'' # rest"
  have okR: "ok_rest ?R" by (rule ok_rest_close_bracket [OF w2]) simp
  from Cons.prems n have "pjs m PValue (p y @ ?R) = Some (y, ?R)"
    by (intro Cons.prems(1)) (simp_all add: okR)
  then have v: "pjs m PValue (w1 @ p y @ ?R) = Some (y, ?R)" by (simp add: pjs_ws [OF w1])
  have "pjs m (PArr (acc @ [y])) ?R = Some (JArr ((acc @ [y]) @ ys), rest)"
    using Cons.prems n by (intro Cons.IH) auto
  with v n show ?case by simp
qed

lemma pmember_step:
  assumes w3: "list_all is_json_ws w3" and v: "pjs m PValue (p @ R) = Some (v, R)"
  shows "pjs (Suc m) (PMember acc) (print_str k @ CHR '':'' # w3 @ p @ R) = pjs m (PObj (acc @ [(k, v)])) R"
proof -
  have "pstr [] (concat (map esc_char k) @ quote_char # CHR '':'' # w3 @ p @ R) = Some (k, CHR '':'' # w3 @ p @ R)"
    using pstr_print [of "[]" k] by simp
  with v show ?thesis by (simp add: print_str_def pjs_ws [OF w3])
qed

lemma pjs_obj_comma: "pjs (Suc n) (PObj acc) (CHR '','' # r) = pjs n (PMember acc) r"
  by simp

lemma pobj_print:
  assumes IH: "\<And>k v n rest. (k, v) \<in> set kvs \<Longrightarrow> json_ok v \<Longrightarrow> jfuel v \<le> n \<Longrightarrow> ok_rest rest \<Longrightarrow>
                 pjs n PValue (p v @ rest) = Some (v, rest)"
    and ok: "list_all (\<lambda>(k, v). json_ok v) kvs" and dist: "distinct (map fst (acc @ kvs))"
    and fuel: "1 + sum_list (map (\<lambda>(k, v). jfuel v) kvs) + 2 * length kvs \<le> n"
    and w1: "list_all is_json_ws w1" and w2: "list_all is_json_ws w2" and w3: "list_all is_json_ws w3"
    and r: "ok_rest rest"
  shows "pjs n (PObj acc)
           (concat (map (\<lambda>(k, v). CHR '','' # w1 @ print_str k @ CHR '':'' # w3 @ p v) kvs) @ w2 @ CHR ''}'' # rest) =
         Some (JObj (acc @ kvs), rest)"
  using IH ok dist fuel
proof (induction kvs arbitrary: acc n)
  case Nil
  then obtain m where "n = Suc m" by (cases n) auto
  with w2 Nil.prems(3) show ?case by (simp add: js_object_def js_object_distinct [where m = "[]", simplified])
next
  case (Cons kv kvs)
  obtain k v where kv: "kv = (k, v)" by fastforce
  from Cons.prems(4) kv obtain m where n: "n = Suc (Suc m)"
    by (cases n; cases "n - 1") auto
  let ?g = "\<lambda>(k, v). CHR '','' # w1 @ print_str k @ CHR '':'' # w3 @ p v"
  let ?R = "concat (map ?g kvs) @ w2 @ CHR ''}'' # rest"
  have okR: "ok_rest ?R"
    using ok_rest_close_bracket [OF w2, of "CHR ''}''" "\<lambda>x. case x of (k, v) \<Rightarrow> w1 @ print_str k @ CHR '':'' # w3 @ p v" kvs rest]
    by (simp add: case_prod_unfold)
  from Cons.prems kv n have "pjs m PValue (p v @ ?R) = Some (v, ?R)"
    by (intro Cons.prems(1) [of k v m ?R]) (simp_all add: okR)
  then have mem: "pjs (Suc m) (PMember acc) (print_str k @ CHR '':'' # w3 @ p v @ ?R) = pjs m (PObj (acc @ [(k, v)])) ?R"
    by (rule pmember_step [OF w3])
  have "pjs m (PObj (acc @ [(k, v)])) ?R = Some (JObj ((acc @ [(k, v)]) @ kvs), rest)"
    using Cons.prems kv n by (intro Cons.IH) auto
  moreover have "pjs (Suc (Suc m)) (PObj acc) (CHR '','' # w1 @ print_str k @ CHR '':'' # w3 @ p v @ ?R) =
      pjs (Suc m) (PMember acc) (print_str k @ CHR '':'' # w3 @ p v @ ?R)"
    by (simp only: pjs_obj_comma pjs_ws [OF w1])
  ultimately show ?case using mem kv n by simp
qed

lemma digit_special:
  "is_digit c \<Longrightarrow> \<not> is_json_ws c \<and> c \<noteq> CHR ''n'' \<and> c \<noteq> CHR ''t'' \<and> c \<noteq> CHR ''f'' \<and> c \<noteq> quote_char \<and>
     c \<noteq> CHR ''['' \<and> c \<noteq> CHR ''{'' \<and> c \<noteq> CHR '']'' \<and> c \<noteq> CHR ''-''"
  unfolding is_digit_def is_json_ws_def quote_char_def by auto

lemma pjs_value_other:
  assumes "\<not> is_json_ws c" "c \<noteq> CHR ''n''" "c \<noteq> CHR ''t''" "c \<noteq> CHR ''f''" "c \<noteq> quote_char"
    "c \<noteq> CHR ''[''" "c \<noteq> CHR ''{''"
  shows "pjs (Suc n) PValue (c # r) = parse_num (c # r)"
  using assms by simp

lemma pjs_num:
  assumes "ok_rest rest"
  shows "pjs (Suc n) PValue (print_int i @ rest) = Some (JNum i, rest)"
proof -
  obtain c r where p: "print_int i = c # r" and c: "c = CHR ''-'' \<or> is_digit c" using print_int_start by blast
  have d: "\<not> is_json_ws c \<and> c \<noteq> CHR ''n'' \<and> c \<noteq> CHR ''t'' \<and> c \<noteq> CHR ''f'' \<and> c \<noteq> quote_char \<and>
     c \<noteq> CHR ''['' \<and> c \<noteq> CHR ''{''"
    using c
  proof
    assume "c = CHR ''-''" then show ?thesis by (simp add: is_json_ws_def quote_char_def)
  qed (simp add: digit_special)
  have "pjs (Suc n) PValue (print_int i @ rest) = parse_num (print_int i @ rest)"
    unfolding p append_Cons using d by (intro pjs_value_other) simp_all
  also have "\<dots> = Some (JNum i, rest)"
    by (rule parse_num_print [OF ok_rest_not_digit [OF assms]])
  finally show ?thesis .
qed

lemma pj_start: "\<exists>c r. pj gap ind v = c # r \<and> \<not> is_json_ws c \<and> c \<noteq> CHR '']'' \<and> c \<noteq> CHR ''}''"
proof (cases v)
  case (JNum i)
  obtain c r where p: "print_int i = c # r" and c: "c = CHR ''-'' \<or> is_digit c" using print_int_start by blast
  have "\<not> is_json_ws c \<and> c \<noteq> CHR '']'' \<and> c \<noteq> CHR ''}''"
    using c
  proof
    assume "c = CHR ''-''" then show ?thesis by (simp add: is_json_ws_def)
  next
    assume "is_digit c" then show ?thesis unfolding is_digit_def is_json_ws_def by auto
  qed
  with JNum p show ?thesis by simp
next
  case (JArr xs)
  then show ?thesis using pj_arr_start [of gap ind xs] by auto
next
  case (JObj kvs)
  then show ?thesis using pj_obj_start [of gap ind kvs] by auto
qed (simp_all add: is_json_ws_def print_str_def quote_char_def)

lemma parr_open:
  assumes IH: "\<And>x n rest. x \<in> set (y # ys) \<Longrightarrow> json_ok x \<Longrightarrow> jfuel x \<le> n \<Longrightarrow> ok_rest rest \<Longrightarrow>
                 pjs n PValue (p x @ rest) = Some (x, rest)"
    and ok: "list_all json_ok (y # ys)" and fuel: "jfuel (JArr (y # ys)) \<le> n"
    and st: "\<exists>c r. p y = c # r \<and> \<not> is_json_ws c \<and> c \<noteq> CHR '']''"
    and w0: "list_all is_json_ws w0" and w1: "list_all is_json_ws w1" and w2: "list_all is_json_ws w2"
    and r: "ok_rest rest"
  shows "pjs n PValue (CHR ''['' # w0 @ p y @ concat (map (\<lambda>z. CHR '','' # w1 @ p z) ys) @ w2 @ CHR '']'' # rest) =
           Some (JArr (y # ys), rest)"
proof -
  from fuel obtain m where n: "n = Suc m" by (cases n) auto
  let ?R = "concat (map (\<lambda>z. CHR '','' # w1 @ p z) ys) @ w2 @ CHR '']'' # rest"
  from st obtain c s where cs: "p y = c # s" and c: "\<not> is_json_ws c" "c \<noteq> CHR '']''" by blast
  have t: "take 1 (skip_ws (w0 @ p y @ ?R)) \<noteq> '']''" using w0 cs c by simp
  have okR: "ok_rest ?R" by (rule ok_rest_close_bracket [OF w2]) simp
  have v: "pjs m PValue (w0 @ p y @ ?R) = Some (y, ?R)"
    unfolding pjs_ws [OF w0] using ok fuel n okR by (intro IH) simp_all
  have "pjs m (PArr [y]) ?R = Some (JArr ([y] @ ys), rest)"
    using IH ok fuel n w1 w2 r by (intro parr_print) auto
  with t v n show ?thesis by (simp add: quote_char_def)
qed

lemma pobj_open:
  assumes IH: "\<And>k' v' n rest. (k', v') \<in> set ((k, v) # kvs) \<Longrightarrow> json_ok v' \<Longrightarrow> jfuel v' \<le> n \<Longrightarrow> ok_rest rest \<Longrightarrow>
                 pjs n PValue (p v' @ rest) = Some (v', rest)"
    and ok: "json_ok (JObj ((k, v) # kvs))" and fuel: "jfuel (JObj ((k, v) # kvs)) \<le> n"
    and w0: "list_all is_json_ws w0" and w1: "list_all is_json_ws w1" and w2: "list_all is_json_ws w2"
    and w3: "list_all is_json_ws w3" and r: "ok_rest rest"
  shows "pjs n PValue (CHR ''{'' # w0 @ print_str k @ CHR '':'' # w3 @ p v @
           concat (map (\<lambda>(k, v). CHR '','' # w1 @ print_str k @ CHR '':'' # w3 @ p v) kvs) @ w2 @ CHR ''}'' # rest) =
         Some (JObj ((k, v) # kvs), rest)"
proof -
  from fuel obtain m where n: "n = Suc (Suc m)" by (cases n; cases "n - 1") auto
  let ?R = "concat (map (\<lambda>(k, v). CHR '','' # w1 @ print_str k @ CHR '':'' # w3 @ p v) kvs) @ w2 @ CHR ''}'' # rest"
  have t: "take 1 (skip_ws (w0 @ print_str k @ CHR '':'' # w3 @ p v @ ?R)) \<noteq> ''}''"
    using w0 by (simp add: print_str_def) (simp add: quote_char_def)
  have okR: "ok_rest ?R"
    using ok_rest_close_bracket [OF w2, of "CHR ''}''" "\<lambda>x. case x of (k, v) \<Rightarrow> w1 @ print_str k @ CHR '':'' # w3 @ p v" kvs rest]
    by (simp add: case_prod_unfold)
  have pv: "pjs m PValue (p v @ ?R) = Some (v, ?R)"
    using ok fuel n okR by (intro IH [of k v]) simp_all
  have mem: "pjs (Suc m) (PMember []) (w0 @ print_str k @ CHR '':'' # w3 @ p v @ ?R) = pjs m (PObj [(k, v)]) ?R"
    unfolding pjs_ws [OF w0] using pmember_step [OF w3 pv, of "[]"] by simp
  have "pjs m (PObj [(k, v)]) ?R = Some (JObj ([(k, v)] @ kvs), rest)"
    using IH ok fuel n w1 w2 w3 r by (intro pobj_print) auto
  with t mem n show ?thesis by (simp add: quote_char_def)
qed

lemma quote_char_ne [simp]:
  "quote_char \<noteq> CHR ''n''" "quote_char \<noteq> CHR ''t''" "quote_char \<noteq> CHR ''f''"
  "CHR ''['' \<noteq> quote_char" "CHR ''{'' \<noteq> quote_char"
  by (simp_all add: quote_char_def)

lemma nl_ws [simp]: "is_json_ws nl"
  by (simp add: nl_def is_json_ws_def)

lemma pj_start_arr: "\<exists>c r. pj gap ind v = c # r \<and> \<not> is_json_ws c \<and> c \<noteq> CHR '']''"
  using pj_start [of gap ind v] by blast

lemma pjs_print_arr:
  assumes IH: "\<And>x ind n rest. x \<in> set xs \<Longrightarrow> list_all is_json_ws ind \<Longrightarrow> json_ok x \<Longrightarrow> jfuel x \<le> n \<Longrightarrow>
                 ok_rest rest \<Longrightarrow> pjs n PValue (pj gap ind x @ rest) = Some (x, rest)"
    and g: "list_all is_json_ws gap" and i: "list_all is_json_ws ind"
    and ok: "json_ok (JArr xs)" and fuel: "jfuel (JArr xs) \<le> n" and r: "ok_rest rest"
  shows "pjs n PValue (pj gap ind (JArr xs) @ rest) = Some (JArr xs, rest)"
proof (cases xs)
  case Nil
  with fuel obtain m where "n = Suc m" by (cases n) auto
  with Nil show ?thesis by simp
next
  case (Cons y ys)
  show ?thesis
  proof (cases "gap = []")
    case True
    have "pj gap ind (JArr xs) @ rest =
        CHR ''['' # [] @ pj gap ind y @ concat (map (\<lambda>z. CHR '','' # [] @ pj gap ind z) ys) @ [] @ CHR '']'' # rest"
      using Cons True by (simp add: comp_def)
    also have "pjs n PValue \<dots> = Some (JArr xs, rest)"
      unfolding Cons using IH i ok fuel r Cons by (intro parr_open pj_start_arr) auto
    finally show ?thesis .
  next
    case False
    let ?w = "nl # ind @ gap"
    have "pj gap ind (JArr xs) @ rest =
        CHR ''['' # ?w @ pj gap (ind @ gap) y @ concat (map (\<lambda>z. CHR '','' # ?w @ pj gap (ind @ gap) z) ys) @
          (nl # ind) @ CHR '']'' # rest"
      using Cons False by (simp add: comp_def)
    also have "pjs n PValue \<dots> = Some (JArr xs, rest)"
      unfolding Cons using IH g i ok fuel r Cons by (intro parr_open pj_start_arr) auto
    finally show ?thesis .
  qed
qed

lemma space_ws [simp]: "is_json_ws CHR '' ''" "list_all is_json_ws '' ''"
  by (simp_all add: is_json_ws_def)

lemma pjs_print_obj:
  assumes IH: "\<And>k v ind n rest. (k, v) \<in> set kvs \<Longrightarrow> list_all is_json_ws ind \<Longrightarrow> json_ok v \<Longrightarrow> jfuel v \<le> n \<Longrightarrow>
                 ok_rest rest \<Longrightarrow> pjs n PValue (pj gap ind v @ rest) = Some (v, rest)"
    and g: "list_all is_json_ws gap" and i: "list_all is_json_ws ind"
    and ok: "json_ok (JObj kvs)" and fuel: "jfuel (JObj kvs) \<le> n" and r: "ok_rest rest"
  shows "pjs n PValue (pj gap ind (JObj kvs) @ rest) = Some (JObj kvs, rest)"
proof (cases kvs)
  case Nil
  with fuel obtain m where "n = Suc m" by (cases n) auto
  with Nil show ?thesis by simp
next
  case (Cons kv kvs')
  obtain k v where kv: "kv = (k, v)" by fastforce
  show ?thesis
  proof (cases "gap = []")
    case True
    have "pj gap ind (JObj kvs) @ rest =
        CHR ''{'' # [] @ print_str k @ CHR '':'' # [] @ pj gap ind v @
          concat (map (\<lambda>(k, v). CHR '','' # [] @ print_str k @ CHR '':'' # [] @ pj gap ind v) kvs') @ [] @ CHR ''}'' # rest"
      using Cons kv True by (simp add: comp_def case_prod_unfold)
    also have "pjs n PValue \<dots> = Some (JObj kvs, rest)"
      unfolding Cons kv using IH i ok fuel r Cons kv by (intro pobj_open) auto
    finally show ?thesis .
  next
    case False
    let ?w = "nl # ind @ gap"
    have "pj gap ind (JObj kvs) @ rest =
        CHR ''{'' # ?w @ print_str k @ CHR '':'' # '' '' @ pj gap (ind @ gap) v @
          concat (map (\<lambda>(k, v). CHR '','' # ?w @ print_str k @ CHR '':'' # '' '' @ pj gap (ind @ gap) v) kvs') @
          (nl # ind) @ CHR ''}'' # rest"
      using Cons kv False by (simp add: comp_def case_prod_unfold)
    also have "pjs n PValue \<dots> = Some (JObj kvs, rest)"
      unfolding Cons kv using IH g i ok fuel r Cons kv by (intro pobj_open) auto
    finally show ?thesis .
  qed
qed

lemma pjs_print:
  assumes "list_all is_json_ws gap" "list_all is_json_ws ind" "json_ok v" "jfuel v \<le> n" "ok_rest rest"
  shows "pjs n PValue (pj gap ind v @ rest) = Some (v, rest)"
  using assms
proof (induction v arbitrary: ind n rest rule: json_induct)
  case (JArr xs)
  then show ?case by (intro pjs_print_arr) auto
next
  case (JObj kvs)
  then show ?case by (intro pjs_print_obj) auto
next
  case (JNum i)
  then obtain m where "n = Suc m" by (cases n) auto
  with JNum.prems show ?case by (simp only: pj.simps(3) pjs_num)
next
  case (JStr s)
  then obtain m where "n = Suc m" by (cases n) auto
  moreover have "pstr [] (concat (map esc_char s) @ quote_char # rest) = Some (s, rest)"
    using pstr_print [of "[]" s] by simp
  ultimately show ?case by (simp add: print_str_def)
next
  case JNull
  then obtain m where "n = Suc m" by (cases n) auto
  then show ?case by (simp add: is_json_ws_def)
next
  case (JBool b)
  then obtain m where "n = Suc m" by (cases n) auto
  then show ?case by (cases b) (simp_all add: is_json_ws_def)
qed

lemma length_join_ge:
  assumes "ys \<noteq> []" and "sep \<noteq> []"
  shows "sum_list (map length ys) + length ys \<le> Suc (length (join sep ys))"
proof -
  obtain x xs where ys: "ys = x # xs" using assms(1) by (cases ys) auto
  obtain c cs where sep: "sep = c # cs" using assms(2) by (cases sep) auto
  have "sum_list (map length xs) + length xs \<le> sum_list (map (\<lambda>y. length sep + length y) xs)"
    unfolding sep by (induction xs) auto
  then show ?thesis unfolding ys by (simp add: length_concat comp_def)
qed

lemma length_print_str: "2 \<le> length (print_str s)"
  by (simp add: print_str_def)

lemma jfuel_length: "jfuel v \<le> length (pj gap ind v)"
proof (induction v arbitrary: ind rule: json_induct)
  case (JNum i)
  then show ?case using print_int_start [of i] by auto
next
  case (JStr s)
  then show ?case using length_print_str [of s] by simp
next
  case (JArr xs)
  let ?ind = "if gap = [] then ind else ind @ gap"
  have "sum_list (map jfuel xs) \<le> sum_list (map (length \<circ> pj gap ?ind) xs)"
    using JArr by (intro sum_list_mono) simp
  moreover have "xs \<noteq> [] \<Longrightarrow> sum_list (map (length \<circ> pj gap ?ind) xs) + length xs \<le>
      Suc (length (join (if gap = [] then '','' else '','' @ nl # ind @ gap) (map (pj gap ?ind) xs)))"
    using length_join_ge [of "map (pj gap ?ind) xs"] by (simp add: comp_def)
  ultimately show ?case by (cases "xs = []"; cases "gap = []") auto
next
  case (JObj kvs)
  let ?ind = "if gap = [] then ind else ind @ gap"
  let ?m = "\<lambda>(k, v). print_str k @ (if gap = [] then '':'' else '': '') @ pj gap ?ind v"
  have "sum_list (map (\<lambda>(k, v). 3 + jfuel v) kvs) \<le> sum_list (map (length \<circ> ?m) kvs)"
  proof (intro sum_list_mono)
    fix x assume "x \<in> set kvs"
    moreover obtain k v where "x = (k, v)" by fastforce
    ultimately show "(\<lambda>(k, v). 3 + jfuel v) x \<le> (length \<circ> ?m) x"
      using JObj [of k v ?ind] length_print_str [of k] by auto
  qed
  moreover have "kvs \<noteq> [] \<Longrightarrow> sum_list (map (length \<circ> ?m) kvs) + length kvs \<le>
      Suc (length (join (if gap = [] then '','' else '','' @ nl # ind @ gap) (map ?m kvs)))"
    using length_join_ge [of "map ?m kvs"] by (simp add: comp_def)
  moreover have "sum_list (map (\<lambda>(k, v). 3 + jfuel v) kvs) = 3 * length kvs + sum_list (map (\<lambda>(k, v). jfuel v) kvs)"
    by (induction kvs) auto
  ultimately show ?case by (cases "kvs = []"; cases "gap = []") (auto simp: comp_def)
qed simp_all

lemma parse_json_pj:
  assumes "json_ok v" and "list_all is_json_ws gap"
  shows "parse_json (pj gap [] v) = Some v"
proof -
  have "jfuel v \<le> Suc (length (pj gap [] v))" using jfuel_length [of v gap "[]"] by simp
  then have "pjs (Suc (length (pj gap [] v))) PValue (pj gap [] v @ []) = Some (v, [])"
    using assms by (intro pjs_print) (simp_all add: ok_rest_def)
  then show ?thesis by (simp add: parse_json_def skip_ws_def)
qed

section \<open>What the parser returns\<close>

lemma alist_set_keys: "fst ` set (alist_set k v m) = insert k (fst ` set m)"
  by (induction m) force+

lemma alist_set_distinct: "distinct (map fst m) \<Longrightarrow> distinct (map fst (alist_set k v m))"
  by (induction m) (auto simp: alist_set_keys)

lemma alist_set_all: "list_all (\<lambda>(k, v). P v) m \<Longrightarrow> P v \<Longrightarrow> list_all (\<lambda>(k, v). P v) (alist_set k v m)"
  by (induction m) auto

lemma js_object_ok: "list_all (\<lambda>(k, v). json_ok v) acc \<Longrightarrow> json_ok (JObj (js_object acc))"
proof -
  have "distinct (map fst m) \<Longrightarrow> list_all (\<lambda>(k, v). json_ok v) m \<Longrightarrow> list_all (\<lambda>(k, v). json_ok v) acc \<Longrightarrow>
        json_ok (JObj (foldl (\<lambda>m (k, v). alist_set k v m) m acc))" for m
    by (induction acc arbitrary: m) (auto simp: alist_set_distinct alist_set_all)
  then show "list_all (\<lambda>(k, v). json_ok v) acc \<Longrightarrow> json_ok (JObj (js_object acc))"
    by (simp add: js_object_def)
qed

lemma parse_num_ok: "parse_num s = Some (v, r) \<Longrightarrow> json_ok v"
  by (auto simp: parse_num_def split: list.splits if_splits option.splits prod.splits)

lemma pjs_ok: "pjs n m s = Some (v, r) \<Longrightarrow> mode_ok m \<Longrightarrow> json_ok v"
proof (induction n arbitrary: m s v r)
  case (Suc n)
  show ?case
  proof (cases m)
    case PValue
    with Suc show ?thesis
      by (auto simp: parse_num_ok split: list.splits if_splits option.splits prod.splits)
  next
    case (PArr acc)
    with Suc show ?thesis by (auto split: list.splits if_splits option.splits prod.splits dest: Suc.IH)
  next
    case (PMember acc)
    with Suc show ?thesis by (auto split: list.splits if_splits option.splits prod.splits dest: Suc.IH)
  next
    case (PObj acc)
    with Suc show ?thesis using js_object_ok [of acc] by (auto split: list.splits if_splits)
  qed
qed simp

lemma parse_json_Some: "parse_json s = Some v \<Longrightarrow> \<exists>r. pjs (Suc (length s)) PValue s = Some (v, r)"
  by (auto simp del: pjs.simps simp: parse_json_def split: option.splits if_splits)

lemma parse_json_Nil [simp]: "parse_json [] = None"
  by (simp add: parse_json_def skip_ws_def)

lemma parse_json_wf: "parse_json s = Some v \<Longrightarrow> json_ok v"
  using parse_json_Some [of s v] pjs_ok [where m = PValue] by (auto simp del: pjs.simps)

end
