(* ===== verification/Tags_Text.thy ===== *)
theory Tags_Text
  imports Tags_Spec Json_Text
begin

text \<open>
  The tag store at the level of the text it keeps: \<open>localStorage\<close> maps keys to strings,
  \<open>saveCustomTags\<close> writes \<open>JSON.stringify(tags)\<close> (the printer \<^term>\<open>pj\<close> with the empty
  gap), \<open>exportCustomTags\<close> returns \<open>JSON.stringify(tags, null, 2)\<close>, and
  \<open>getCustomTags\<close> and \<open>importCustomTags\<close> read text with \<open>JSON.parse\<close>
  (\<^term>\<open>parse_json\<close>). Each operation is translated again from
  \<open>src/src/lib/custom-tags.ts\<close> over this store. The abstraction \<open>abs_browser\<close> reads
  every stored text as the JSON value it parses to, or as malformed; the lemmas show
  that each operation here commutes with it and the operation of \<open>Tags\<close>, so what is
  proved there of the value-level store holds of the text the browser keeps. The last
  section applies this to the spec's export round trip of \<open>Tags_Spec\<close>, over the
  exported string itself, and shows what the calls do where the storage cannot be
  reached at all.
\<close>

text \<open>The browser with \<open>localStorage\<close> holding strings. \<open>s_storage_ok\<close> says whether the
  storage can be reached at all: where it is disabled, every \<open>getItem\<close>, \<open>setItem\<close> and
  \<open>removeItem\<close> throws a \<open>SecurityError\<close>. \<open>s_quota_ok\<close> says whether \<open>setItem\<close>
  succeeds otherwise.\<close>

record sbrowser =
  s_has_window :: bool
  s_local_storage :: "string \<Rightarrow> string option"
  s_quota_ok :: bool
  s_storage_ok :: bool

text \<open>What \<open>JSON.parse\<close> makes of a stored text. The empty string, which the code
  tests with \<open>!stored\<close>, does not parse.\<close>

definition text_of :: "string \<Rightarrow> json_text" where
  "text_of s = (case parse_json s of Some v \<Rightarrow> Text_JSON v | None \<Rightarrow> Text_Malformed)"

definition abs_browser :: "sbrowser \<Rightarrow> browser" where
  "abs_browser sb =
     \<lparr>has_window = s_has_window sb,
      local_storage = (if s_storage_ok sb then map_option text_of \<circ> s_local_storage sb else Map.empty),
      quota_ok = (s_storage_ok sb \<and> s_quota_ok sb)\<rparr>"

text \<open>A parsed object the code holds is well-formed when its printed part and the
  properties beside an array's elements have distinct keys.\<close>

fun jsobj_ok :: "jsobj \<Rightarrow> bool" where
  "jsobj_ok (PlainObj kvs) = json_ok (JObj kvs)"
| "jsobj_ok (ArrayObj xs props) = (list_all json_ok xs \<and> json_ok (JObj props))"

section \<open>Operations over the text store\<close>

definition saveCustomTags_s :: "jsobj \<Rightarrow> sbrowser \<Rightarrow> sbrowser" where
  "saveCustomTags_s tags sb =
     (if \<not> s_has_window sb then sb
      else if s_storage_ok sb \<and> s_quota_ok sb
        then sb\<lparr>s_local_storage := (s_local_storage sb)(CUSTOM_TAGS_KEY \<mapsto> pj [] [] (stringify tags))\<rparr>
      else sb)"

definition getCustomTags_s :: "sbrowser \<Rightarrow> jsobj \<times> sbrowser" where
  "getCustomTags_s sb =
     (if \<not> s_has_window sb \<or> \<not> s_storage_ok sb then (empty_tags, sb)
      else case s_local_storage sb CUSTOM_TAGS_KEY of
        None \<Rightarrow> (empty_tags, sb)
      | Some stored \<Rightarrow>
          if stored = [] then (empty_tags, sb)
          else (case parse_json stored of
             None \<Rightarrow> (empty_tags, sb)
           | Some data \<Rightarrow>
               (case load_tags data of
                  Inl _ \<Rightarrow> (empty_tags, sb)
                | Inr (d, migrated) \<Rightarrow> (d, if migrated then saveCustomTags_s d sb else sb))))"

definition addCustomTag_s ::
  "subject \<Rightarrow> string \<Rightarrow> string \<Rightarrow> sbrowser \<Rightarrow> (js_error + bool) \<times> sbrowser" where
  "addCustomTag_s subject tag category sb =
     (if js_trim tag = [] then (Inr False, sb)
      else
        let (tags, sb1) = getCustomTags_s sb;
            trimmedTag = js_trim tag;
            k = subject_key subject
        in case obj_get tags k of
             Some (JArr xs) \<Rightarrow>
               (case js_some (name_is trimmedTag) xs of
                  Inl e \<Rightarrow> (Inl e, sb1)
                | Inr True \<Rightarrow> (Inr False, sb1)
                | Inr False \<Rightarrow>
                    (Inr True,
                     saveCustomTags_s (obj_set tags k (JArr (xs @ [tag_obj (JStr trimmedTag) category]))) sb1))
           | _ \<Rightarrow> (Inl TypeError, sb1))"

definition removeCustomTag_s ::
  "subject \<Rightarrow> string \<Rightarrow> sbrowser \<Rightarrow> (js_error + bool) \<times> sbrowser" where
  "removeCustomTag_s subject tagName sb =
     (let (tags, sb1) = getCustomTags_s sb;
          k = subject_key subject
      in case obj_get tags k of
           Some (JArr xs) \<Rightarrow>
             (case js_find_index (name_is tagName) xs of
                Inl e \<Rightarrow> (Inl e, sb1)
              | Inr None \<Rightarrow> (Inr False, sb1)
              | Inr (Some index) \<Rightarrow>
                  (Inr True, saveCustomTags_s (obj_set tags k (JArr (remove_nth index xs))) sb1))
         | _ \<Rightarrow> (Inl TypeError, sb1))"

definition exportCustomTags_s :: "sbrowser \<Rightarrow> string \<times> sbrowser" where
  "exportCustomTags_s sb = (let (tags, sb1) = getCustomTags_s sb in (pj ''  '' [] (stringify tags), sb1))"

definition importCustomTags_s :: "string \<Rightarrow> sbrowser \<Rightarrow> bool \<times> sbrowser" where
  "importCustomTags_s jsonString sb =
     (case parse_json jsonString of
        None \<Rightarrow> (False, sb)
      | Some parsed \<Rightarrow>
          (let (tags, sb1) = getCustomTags_s sb in
           case import_subjects parsed tags subjects of
             Inl _ \<Rightarrow> (False, sb1)
           | Inr tags' \<Rightarrow> (True, saveCustomTags_s tags' sb1)))"

text \<open>\<open>clearCustomTags\<close> calls \<open>removeItem\<close> outside any \<open>try\<close>.\<close>

definition clearCustomTags_s :: "sbrowser \<Rightarrow> js_error + sbrowser" where
  "clearCustomTags_s sb =
     (if \<not> s_has_window sb then Inr sb
      else if \<not> s_storage_ok sb then Inl SecurityError
      else Inr (sb\<lparr>s_local_storage := (s_local_storage sb)(CUSTOM_TAGS_KEY := None)\<rparr>))"

definition getAllCustomTagsFlat_s :: "sbrowser \<Rightarrow> (js_error + json option list) \<times> sbrowser" where
  "getAllCustomTagsFlat_s sb = (let (tags, sb1) = getCustomTags_s sb in (concat_names tags subjects, sb1))"

definition isCustomTag_s :: "string \<Rightarrow> sbrowser \<Rightarrow> (js_error + bool) \<times> sbrowser" where
  "isCustomTag_s tag sb =
     (let (r, sb1) = getAllCustomTagsFlat_s sb in (map_sum id (\<lambda>ns. Some (JStr tag) \<in> set ns) r, sb1))"

definition getCustomTagsStats_s :: "sbrowser \<Rightarrow> (js_error + (string \<times> nat) list) \<times> sbrowser" where
  "getCustomTagsStats_s sb =
     (let (tags, sb1) = getCustomTags_s sb in
      (map_sum id (\<lambda>ns. zip (map subject_key subjects) ns @ [(''total'', sum_list ns)])
         (counts tags subjects), sb1))"

section \<open>The module's interface\<close>

text \<open>The exported functions of \<open>custom-tags.ts\<close> as one type of calls, with what a
  call returns or throws.\<close>

datatype tag_op =
    GetTags
  | AddTag subject string string
  | RemoveTag subject string
  | FlatTags
  | IsTag string
  | ExportTags
  | ImportTags string
  | ClearTags
  | StatsTags

datatype tag_out =
    Out_Done
  | Out_Throw js_error
  | Out_Tags jsobj
  | Out_Bool "js_error + bool"
  | Out_Names "js_error + json option list"
  | Out_Text string
  | Out_Ok bool
  | Out_Stats "js_error + (string \<times> nat) list"

fun op_s :: "tag_op \<Rightarrow> sbrowser \<Rightarrow> tag_out \<times> sbrowser" where
  "op_s GetTags sb = map_prod Out_Tags id (getCustomTags_s sb)"
| "op_s (AddTag s tag c) sb = map_prod Out_Bool id (addCustomTag_s s tag c sb)"
| "op_s (RemoveTag s tag) sb = map_prod Out_Bool id (removeCustomTag_s s tag sb)"
| "op_s FlatTags sb = map_prod Out_Names id (getAllCustomTagsFlat_s sb)"
| "op_s (IsTag tag) sb = map_prod Out_Bool id (isCustomTag_s tag sb)"
| "op_s ExportTags sb = map_prod Out_Text id (exportCustomTags_s sb)"
| "op_s (ImportTags str) sb = map_prod Out_Ok id (importCustomTags_s str sb)"
| "op_s ClearTags sb = (case clearCustomTags_s sb of Inl e \<Rightarrow> (Out_Throw e, sb) | Inr sb' \<Rightarrow> (Out_Done, sb'))"
| "op_s StatsTags sb = map_prod Out_Stats id (getCustomTagsStats_s sb)"

text \<open>A browser whose storage is reachable, writable and empty.\<close>

abbreviation fresh_browser :: sbrowser where
  "fresh_browser \<equiv> \<lparr>s_has_window = True, s_local_storage = Map.empty, s_quota_ok = True, s_storage_ok = True\<rparr>"

section \<open>Well-formed objects\<close>

lemma jsobj_ok_stringify: "jsobj_ok d \<Longrightarrow> json_ok (stringify d)"
  by (cases d) simp_all

lemma jsobj_ok_get: "jsobj_ok d \<Longrightarrow> obj_get d k = Some v \<Longrightarrow> json_ok v"
  by (cases d) (auto simp: list_all_iff dest!: map_of_SomeD)

lemma jsobj_ok_set: "jsobj_ok d \<Longrightarrow> json_ok v \<Longrightarrow> jsobj_ok (obj_set d k v)"
  by (cases d) (simp_all add: alist_set_distinct alist_set_all)

lemma json_ok_tag_obj [simp]: "json_ok (tag_obj t c) = json_ok t"
  by (simp add: tag_obj_def)

lemma jsobj_ok_as_object: "json_ok v \<Longrightarrow> as_object v = Inr d \<Longrightarrow> jsobj_ok d"
  by (cases v) auto

lemma jsobj_ok_empty [simp]: "jsobj_ok empty_tags"
  by (simp add: empty_tags_def subjects_def)

lemma jsobj_ok_update:
  "jsobj_ok d \<Longrightarrow> obj_get d k = Some (JArr xs) \<Longrightarrow> (list_all json_ok xs \<Longrightarrow> list_all json_ok ys) \<Longrightarrow>
   jsobj_ok (obj_set d k (JArr ys))"
  using jsobj_ok_get [of d k "JArr xs"] by (intro jsobj_ok_set) simp_all

lemma jsobj_ok_migrate: "jsobj_ok (fst dm) \<Longrightarrow> jsobj_ok (fst (migrate_subject dm s))"
  by (cases dm)
     (auto simp: migrate_subject.simps Let_def list_all_iff jsobj_ok_set intro: jsobj_ok_update split: option.splits json.splits)

lemma jsobj_ok_load: "json_ok v \<Longrightarrow> load_tags v = Inr (d, m) \<Longrightarrow> jsobj_ok d"
proof -
  assume v: "json_ok v" and l: "load_tags v = Inr (d, m)"
  have fold: "jsobj_ok (fst dm) \<Longrightarrow> jsobj_ok (fst (foldl migrate_subject dm ss))" for dm ss
    by (induction ss arbitrary: dm) (simp_all add: jsobj_ok_migrate)
  from l obtain d0 where a: "as_object v = Inr d0" and f: "foldl migrate_subject (d0, False) subjects = (d, m)"
    by (cases "as_object v") (auto simp: load_tags_def)
  show "jsobj_ok d" using fold [of "(d0, False)" subjects] jsobj_ok_as_object [OF v a] f by simp
qed

lemma list_all_remove_nth: "list_all P xs \<Longrightarrow> list_all P (remove_nth i xs)"
  by (auto simp: remove_nth_def list_all_iff dest: in_set_takeD in_set_dropD)

lemma json_ok_import_tag: "json_ok t \<Longrightarrow> json_ok (import_tag t)"
  by (cases t) (simp_all add: import_tag_def)

lemma json_ok_get_prop: "json_ok p \<Longrightarrow> get_prop p k = Inr (Some v) \<Longrightarrow> json_ok v"
  by (cases p) (auto simp: list_all_iff dest!: map_of_SomeD)

lemma jsobj_ok_import:
  "json_ok p \<Longrightarrow> jsobj_ok t \<Longrightarrow> import_subjects p t ss = Inr t' \<Longrightarrow> jsobj_ok t'"
proof (induction p t ss rule: import_subjects.induct)
  case (2 p t s ss)
  then show ?case
    by (auto simp: list_all_iff json_ok_import_tag jsobj_ok_set dest: json_ok_get_prop
             split: sum.splits option.splits json.splits)
qed simp

section \<open>The text store refines the value store\<close>

lemma text_of_print: "json_ok v \<Longrightarrow> list_all is_json_ws gap \<Longrightarrow> text_of (pj gap [] v) = Text_JSON v"
  by (simp add: text_of_def parse_json_pj)

lemma json_parse_text_of [simp]: "json_parse (text_of s) = parse_json s"
  by (simp add: text_of_def split: option.split)

lemma text_of_empty [simp]: "text_of [] = Text_Malformed"
  by (simp add: text_of_def)

lemma abs_browser_window [simp]: "has_window (abs_browser sb) = s_has_window sb"
  by (simp add: abs_browser_def)

lemma abs_browser_quota [simp]: "quota_ok (abs_browser sb) = (s_storage_ok sb \<and> s_quota_ok sb)"
  by (simp add: abs_browser_def)

lemma abs_browser_storage [simp]:
  "local_storage (abs_browser sb) = (if s_storage_ok sb then map_option text_of \<circ> s_local_storage sb else Map.empty)"
  by (simp add: abs_browser_def)

lemma saveCustomTags_abs:
  "jsobj_ok t \<Longrightarrow> abs_browser (saveCustomTags_s t sb) = saveCustomTags t (abs_browser sb)"
  by (auto simp: saveCustomTags_s_def saveCustomTags_def abs_browser_def fun_eq_iff
                 text_of_print jsobj_ok_stringify)

lemma getCustomTags_s_abs:
  "jsobj_ok (fst (getCustomTags_s sb)) \<and>
   getCustomTags (abs_browser sb) = (fst (getCustomTags_s sb), abs_browser (snd (getCustomTags_s sb)))"
proof (cases "s_has_window sb \<and> s_storage_ok sb \<and> s_local_storage sb CUSTOM_TAGS_KEY \<noteq> None")
  case True
  then obtain stored where st: "s_local_storage sb CUSTOM_TAGS_KEY = Some stored" by auto
  show ?thesis
  proof (cases "parse_json stored")
    case None
    with True st show ?thesis by (auto simp: getCustomTags_s_def getCustomTags_def)
  next
    case (Some data)
    have ok: "json_ok data" using Some by (rule parse_json_wf)
    then have "stored \<noteq> []" using Some by auto
    with True st Some show ?thesis
      using jsobj_ok_load [OF ok] saveCustomTags_abs [OF jsobj_ok_load [OF ok]]
      by (auto simp: getCustomTags_s_def getCustomTags_def split: sum.splits prod.splits)
  qed
qed (auto simp: getCustomTags_s_def getCustomTags_def)

lemma saveCustomTags_update_abs:
  "jsobj_ok d \<Longrightarrow> obj_get d k = Some (JArr xs) \<Longrightarrow> (list_all json_ok xs \<Longrightarrow> list_all json_ok ys) \<Longrightarrow>
   abs_browser (saveCustomTags_s (obj_set d k (JArr ys)) sb) = saveCustomTags (obj_set d k (JArr ys)) (abs_browser sb)"
  by (intro saveCustomTags_abs jsobj_ok_update)

lemma get_s_split:
  obtains tags sb1 where "getCustomTags_s sb = (tags, sb1)" and "jsobj_ok tags"
    and "getCustomTags (abs_browser sb) = (tags, abs_browser sb1)"
  using getCustomTags_s_abs [of sb] by (cases "getCustomTags_s sb") auto

lemma addCustomTag_s_abs: "map_prod id abs_browser (addCustomTag_s s tag c sb) = addCustomTag s tag c (abs_browser sb)"
proof -
  obtain tags sb1 where g: "getCustomTags_s sb = (tags, sb1)" and ok: "jsobj_ok tags"
    and a: "getCustomTags (abs_browser sb) = (tags, abs_browser sb1)" by (rule get_s_split)
  show ?thesis
    using g ok a
    by (auto simp: addCustomTag_s_def addCustomTag_def Let_def saveCustomTags_update_abs
             split: option.splits json.splits sum.splits bool.splits)
qed

lemma removeCustomTag_s_abs: "map_prod id abs_browser (removeCustomTag_s s tag sb) = removeCustomTag s tag (abs_browser sb)"
proof -
  obtain tags sb1 where g: "getCustomTags_s sb = (tags, sb1)" and ok: "jsobj_ok tags"
    and a: "getCustomTags (abs_browser sb) = (tags, abs_browser sb1)" by (rule get_s_split)
  show ?thesis
    using g ok a
    by (auto simp: removeCustomTag_s_def removeCustomTag_def Let_def saveCustomTags_update_abs list_all_remove_nth
             split: option.splits json.splits sum.splits)
qed

lemma getAllCustomTagsFlat_s_abs:
  "map_prod id abs_browser (getAllCustomTagsFlat_s sb) = getAllCustomTagsFlat (abs_browser sb)"
  by (rule get_s_split [of sb]) (simp add: getAllCustomTagsFlat_s_def getAllCustomTagsFlat_def)

lemma isCustomTag_s_abs: "map_prod id abs_browser (isCustomTag_s tag sb) = isCustomTag tag (abs_browser sb)"
  by (rule get_s_split [of sb]) (simp add: isCustomTag_s_def isCustomTag_def getAllCustomTagsFlat_s_def getAllCustomTagsFlat_def)

lemma getCustomTagsStats_s_abs: "map_prod id abs_browser (getCustomTagsStats_s sb) = getCustomTagsStats (abs_browser sb)"
  by (rule get_s_split [of sb]) (simp add: getCustomTagsStats_s_def getCustomTagsStats_def)

lemma exportCustomTags_s_abs:
  "map_prod text_of abs_browser (exportCustomTags_s sb) = exportCustomTags (abs_browser sb)"
  by (rule get_s_split [of sb])
     (simp add: exportCustomTags_s_def exportCustomTags_def text_of_print jsobj_ok_stringify is_json_ws_def)

lemma importCustomTags_s_abs:
  "map_prod id abs_browser (importCustomTags_s str sb) = importCustomTags (text_of str) (abs_browser sb)"
proof (cases "parse_json str")
  case (Some parsed)
  then have p: "json_ok parsed" by (rule parse_json_wf)
  obtain tags sb1 where g: "getCustomTags_s sb = (tags, sb1)" and ok: "jsobj_ok tags"
    and a: "getCustomTags (abs_browser sb) = (tags, abs_browser sb1)" by (rule get_s_split)
  show ?thesis
    using Some g a jsobj_ok_import [OF p ok]
    by (auto simp: importCustomTags_s_def importCustomTags_def saveCustomTags_abs split: sum.splits)
qed (simp add: importCustomTags_s_def importCustomTags_def)

lemma clearCustomTags_s_abs:
  "s_storage_ok sb \<Longrightarrow> map_sum id abs_browser (clearCustomTags_s sb) = Inr (clearCustomTags (abs_browser sb))"
  by (auto simp: clearCustomTags_s_def clearCustomTags_def abs_browser_def fun_eq_iff)

section \<open>Unreachable storage\<close>

text \<open>Where \<open>localStorage\<close> cannot be reached, loading reads the defaults and saving does
  nothing, both inside their \<open>try\<close>; nothing in the store changes.\<close>

lemma getCustomTags_s_no_storage [simp]: "\<not> s_storage_ok sb \<Longrightarrow> getCustomTags_s sb = (empty_tags, sb)"
  by (simp add: getCustomTags_s_def)

lemma saveCustomTags_s_no_storage [simp]: "\<not> s_storage_ok sb \<Longrightarrow> saveCustomTags_s d sb = sb"
  by (simp add: saveCustomTags_s_def)

lemma op_s_no_storage: "\<not> s_storage_ok sb \<Longrightarrow> snd (op_s t sb) = sb"
  by (cases t)
     (auto simp: addCustomTag_s_def removeCustomTag_s_def getAllCustomTagsFlat_s_def isCustomTag_s_def
                 exportCustomTags_s_def importCustomTags_s_def clearCustomTags_s_def getCustomTagsStats_s_def Let_def
           split: option.splits sum.splits bool.splits)

lemma saveCustomTags_s_storage_ok [simp]: "s_storage_ok (saveCustomTags_s d sb) = s_storage_ok sb"
  by (simp add: saveCustomTags_s_def)

lemma getCustomTags_s_storage_ok: "getCustomTags_s sb = (d, sb1) \<Longrightarrow> s_storage_ok sb1 = s_storage_ok sb"
  by (auto simp: getCustomTags_s_def split: if_splits option.splits sum.splits prod.splits)

lemma getCustomTags_s_storage_ok_snd [simp]: "s_storage_ok (snd (getCustomTags_s sb)) = s_storage_ok sb"
  using getCustomTags_s_storage_ok [of sb "fst (getCustomTags_s sb)" "snd (getCustomTags_s sb)"] by simp

lemma op_s_storage_ok [simp]: "s_storage_ok (snd (op_s t sb)) = s_storage_ok sb"
  by (cases t)
     (auto simp: addCustomTag_s_def removeCustomTag_s_def getAllCustomTagsFlat_s_def isCustomTag_s_def
                 exportCustomTags_s_def importCustomTags_s_def clearCustomTags_s_def getCustomTagsStats_s_def Let_def
           dest: getCustomTags_s_storage_ok split: prod.splits option.splits sum.splits json.splits bool.splits)

section \<open>Properties\<close>

text \<open>C4. The spec's export round trip over the text the user handles: exporting a store
  with an abstract reading and importing the exported string succeeds, keeps the abstract
  store, and leaves \<open>getCustomTagsStats\<close> exactly as before.\<close>

theorem export_import_text_roundtrip:
  assumes win: "s_has_window sb" and q: "s_quota_ok sb" and so: "s_storage_ok sb"
    and v: "store_view (abs_browser sb) = Some st"
  shows "(let (str, sb1) = exportCustomTags_s sb; (ok, sb2) = importCustomTags_s str sb1
          in ok \<and> store_view (abs_browser sb2) = Some st \<and>
             fst (getCustomTagsStats_s sb2) = fst (getCustomTagsStats_s sb))"
proof -
  obtain tags sb1 where g: "getCustomTags_s sb = (tags, sb1)" and ok: "jsobj_ok tags"
    and a: "getCustomTags (abs_browser sb) = (tags, abs_browser sb1)" by (rule get_s_split)
  define str where "str = pj ''  '' [] (stringify tags)"
  have e: "exportCustomTags_s sb = (str, sb1)" using g by (simp add: exportCustomTags_s_def str_def)
  have ea: "exportCustomTags (abs_browser sb) = (text_of str, abs_browser sb1)"
    using a ok by (simp add: exportCustomTags_def str_def text_of_print jsobj_ok_stringify is_json_ws_def)
  obtain r sb2 where i: "importCustomTags_s str sb1 = (r, sb2)" by fastforce
  have ia: "importCustomTags (text_of str) (abs_browser sb1) = (r, abs_browser sb2)"
    using importCustomTags_s_abs [of str sb1] i by simp
  have "r \<and> store_view (abs_browser sb2) = Some st \<and>
        fst (getCustomTagsStats (abs_browser sb2)) = fst (getCustomTagsStats (abs_browser sb))"
    using export_import_roundtrip [of "abs_browser sb" st] win q so v ea ia by simp
  then show ?thesis
    using e i getCustomTagsStats_s_abs [of sb, symmetric] getCustomTagsStats_s_abs [of sb2, symmetric] by simp
qed

lemma export_import_text_roundtrip_witness:
  "s_has_window fresh_browser \<and>
   s_quota_ok fresh_browser \<and> s_storage_ok fresh_browser \<and>
   store_view (abs_browser fresh_browser) = Some empty_store \<and>
   (let (str, sb1) = exportCustomTags_s fresh_browser;
        (ok, sb2) = importCustomTags_s str sb1
    in ok \<and> store_view (abs_browser sb2) = Some empty_store \<and>
       fst (getCustomTagsStats_s sb2) =
       fst (getCustomTagsStats_s fresh_browser))"
proof -
  have h: "s_has_window fresh_browser"
    "s_quota_ok fresh_browser" "s_storage_ok fresh_browser"
    "store_view (abs_browser fresh_browser) = Some empty_store"
    by (simp_all add: store_view_no_blob)
  show ?thesis using export_import_text_roundtrip [OF h] h by blast
qed

text \<open>C31. Where \<open>localStorage\<close> cannot be reached (every access throws a
  \<open>SecurityError\<close>), no call of the module changes the browser, loading returns the
  defaults, and \<open>addCustomTag\<close> of a non-blank name reports success although nothing is
  stored, while \<open>clearCustomTags\<close>, whose \<open>removeItem\<close> is outside any \<open>try\<close>, throws
  the error out of the call.\<close>

theorem storage_unreachable:
  assumes "s_has_window sb" and "\<not> s_storage_ok sb"
  shows "snd (op_s t sb) = sb \<and> fst (op_s GetTags sb) = Out_Tags empty_tags \<and>
         (js_trim tag \<noteq> [] \<longrightarrow> fst (op_s (AddTag s tag c) sb) = Out_Bool (Inr True)) \<and>
         fst (op_s ClearTags sb) = Out_Throw SecurityError"
  using assms op_s_no_storage [OF assms(2), of t]
  by (simp add: addCustomTag_s_def clearCustomTags_s_def Let_def)

lemma storage_unreachable_witness:
  "s_has_window (fresh_browser\<lparr>s_storage_ok := False\<rparr>) \<and> \<not> s_storage_ok (fresh_browser\<lparr>s_storage_ok := False\<rparr>) \<and>
   js_trim ''tag'' \<noteq> [] \<and>
   fst (op_s (AddTag Physics ''tag'' ''default'') (fresh_browser\<lparr>s_storage_ok := False\<rparr>)) = Out_Bool (Inr True) \<and>
   snd (op_s ClearTags (fresh_browser\<lparr>s_storage_ok := False\<rparr>)) = fresh_browser\<lparr>s_storage_ok := False\<rparr> \<and>
   fst (op_s ClearTags (fresh_browser\<lparr>s_storage_ok := False\<rparr>)) = Out_Throw SecurityError"
proof -
  have h: "s_has_window (fresh_browser\<lparr>s_storage_ok := False\<rparr>)" "\<not> s_storage_ok (fresh_browser\<lparr>s_storage_ok := False\<rparr>)"
    by simp_all
  have t: "js_trim ''tag'' \<noteq> []" by code_simp
  show ?thesis
    using storage_unreachable [OF h, of ClearTags "''tag''" Physics "''default''"] h t by blast
qed

end
