(* ===== verification/Knowledge_Filter.thy ===== *)
theory Knowledge_Filter
  imports Prelude
begin

text \<open>
  The knowledge filter of \<open>src/src/components/knowledge-filter.tsx\<close> and the curriculum
  it reads. The curriculum (\<open>MATH_CURRICULUM\<close> of \<open>src/lib/knowledge-tags\<close>, not among
  the staged sources) is modelled from the shape the component uses: a record from
  grade/semester keys to chapters, a chapter holding sections, a section holding optional
  tags and optional subsections, a subsection holding tags. Every definition here takes
  the curriculum as a parameter, so the theorems hold for any contents.

  The component's React state (three strings, \<open>""\<close> for nothing selected) is a record;
  each change handler is a function returning the new state and the selection it passes
  to \<open>onFilterChange\<close>; the two prop-synchronising effects are functions on the state.
  What the user can do is a step relation: a handler runs only on a value the rendered
  \<open>Select\<close> offers and only while that \<open>Select\<close> is enabled.
\<close>

section \<open>Curriculum\<close>

record kt_subsection =
  sub_tags :: "string list"

record kt_section =
  sec_tags :: "string list option"
  subsections :: "kt_subsection list option"

record kt_chapter =
  chapter_name :: string
  sections :: "kt_section list"

type_synonym curriculum = "(string \<times> kt_chapter list) list"

section \<open>State, props and handlers\<close>

record filter_state =
  grade_sel :: string
  chapter_sel :: string
  tag_sel :: string

text \<open>The argument of \<open>onFilterChange\<close>; \<open>None\<close> is \<open>undefined\<close>.\<close>

record filter_out =
  out_grade :: "string option"
  out_chapter :: "string option"
  out_tag :: "string option"

definition all_to_undef :: "string \<Rightarrow> string option" where
  "all_to_undef v = (if v = ''all'' then None else Some v)"

text \<open>\<open>useState(initialGrade || "")\<close>, \<open>useState("")\<close>, \<open>useState(initialTag || "")\<close>;
  the \<open>tag\<close> prop is \<open>undefined\<close> (\<open>None\<close>), \<open>null\<close> (\<open>Some None\<close>) or a string.\<close>

definition filter_init :: "string option \<Rightarrow> string option option \<Rightarrow> filter_state" where
  "filter_init initialGrade initialTag =
     \<lparr>grade_sel = (case initialGrade of None \<Rightarrow> [] | Some g \<Rightarrow> g),
      chapter_sel = [],
      tag_sel = (case initialTag of Some (Some t) \<Rightarrow> t | _ \<Rightarrow> [])\<rparr>"

text \<open>The effects \<open>if (initialGrade !== undefined) setGradeSemester(initialGrade)\<close> and
  \<open>if (initialTag !== undefined) setTag(initialTag || "")\<close>.\<close>

definition sync_grade :: "string option \<Rightarrow> filter_state \<Rightarrow> filter_state" where
  "sync_grade initialGrade st =
     (case initialGrade of None \<Rightarrow> st | Some g \<Rightarrow> st\<lparr>grade_sel := g\<rparr>)"

definition sync_tag :: "string option option \<Rightarrow> filter_state \<Rightarrow> filter_state" where
  "sync_tag initialTag st =
     (case initialTag of
        None \<Rightarrow> st
      | Some None \<Rightarrow> st\<lparr>tag_sel := []\<rparr>
      | Some (Some t) \<Rightarrow> st\<lparr>tag_sel := t\<rparr>)"

definition handleGradeChange :: "string \<Rightarrow> filter_state \<Rightarrow> filter_state \<times> filter_out" where
  "handleGradeChange val st =
     (\<lparr>grade_sel = val, chapter_sel = [], tag_sel = []\<rparr>,
      \<lparr>out_grade = all_to_undef val, out_chapter = None, out_tag = None\<rparr>)"

definition handleChapterChange :: "string \<Rightarrow> filter_state \<Rightarrow> filter_state \<times> filter_out" where
  "handleChapterChange val st =
     (st\<lparr>chapter_sel := val, tag_sel := []\<rparr>,
      \<lparr>out_grade = all_to_undef (grade_sel st), out_chapter = all_to_undef val, out_tag = None\<rparr>)"

definition handleTagChange :: "string \<Rightarrow> filter_state \<Rightarrow> filter_state \<times> filter_out" where
  "handleTagChange val st =
     (st\<lparr>tag_sel := val\<rparr>,
      \<lparr>out_grade = all_to_undef (grade_sel st), out_chapter = all_to_undef (chapter_sel st),
       out_tag = all_to_undef val\<rparr>)"

section \<open>Derived lists and the rendered selects\<close>

text \<open>\<open>gradeSemester && MATH_CURRICULUM[gradeSemester] ? ... : []\<close>.\<close>

definition chapters_of :: "curriculum \<Rightarrow> string \<Rightarrow> kt_chapter list" where
  "chapters_of cur g =
     (if g = [] then [] else case map_of cur g of None \<Rightarrow> [] | Some cs \<Rightarrow> cs)"

definition current_chapter :: "curriculum \<Rightarrow> filter_state \<Rightarrow> kt_chapter option" where
  "current_chapter cur st = find (\<lambda>c. chapter_name c = chapter_sel st) (chapters_of cur (grade_sel st))"

text \<open>\<open>[...(section.tags || []), ...(section.subsections?.flatMap(sub => sub.tags) || [])]\<close>.\<close>

definition section_tag_list :: "kt_section \<Rightarrow> string list" where
  "section_tag_list sec =
     (case sec_tags sec of None \<Rightarrow> [] | Some ts \<Rightarrow> ts) @
     (case subsections sec of None \<Rightarrow> [] | Some subs \<Rightarrow> concat (map sub_tags subs))"

definition chapter_tags :: "kt_chapter \<Rightarrow> string list" where
  "chapter_tags c = concat (map section_tag_list (sections c))"

definition tags_of :: "curriculum \<Rightarrow> filter_state \<Rightarrow> string list" where
  "tags_of cur st = (case current_chapter cur st of None \<Rightarrow> [] | Some c \<Rightarrow> chapter_tags c)"

definition chapter_disabled :: "filter_state \<Rightarrow> bool" where
  "chapter_disabled st \<longleftrightarrow> grade_sel st = [] \<or> grade_sel st = ''all''"

definition tag_disabled :: "filter_state \<Rightarrow> bool" where
  "tag_disabled st \<longleftrightarrow> chapter_sel st = [] \<or> chapter_sel st = ''all''"

definition grade_options :: "curriculum \<Rightarrow> string list" where
  "grade_options cur = ''all'' # map fst cur"

definition chapter_options :: "curriculum \<Rightarrow> filter_state \<Rightarrow> string list" where
  "chapter_options cur st = ''all'' # map chapter_name (chapters_of cur (grade_sel st))"

definition tag_options :: "curriculum \<Rightarrow> filter_state \<Rightarrow> string list" where
  "tag_options cur st = ''all'' # tags_of cur st"

text \<open>\<open>c.chapter.split(' ')[1] || c.chapter\<close>: the label of a chapter in its select.\<close>

definition chapter_label :: "kt_chapter \<Rightarrow> string" where
  "chapter_label c =
     (let ps = split_on (CHR '' '') (chapter_name c)
      in if 1 < length ps \<and> ps ! 1 \<noteq> [] then ps ! 1 else chapter_name c)"

section \<open>Events and the step relation\<close>

datatype filter_event =
    SelectGrade string
  | SelectChapter string
  | SelectTag string
  | SyncGrade "string option"
  | SyncTag "string option option"

fun filter_step :: "filter_state \<Rightarrow> filter_event \<Rightarrow> filter_state \<times> filter_out option" where
  "filter_step st (SelectGrade v) = map_prod id Some (handleGradeChange v st)"
| "filter_step st (SelectChapter v) = map_prod id Some (handleChapterChange v st)"
| "filter_step st (SelectTag v) = map_prod id Some (handleTagChange v st)"
| "filter_step st (SyncGrade g) = (sync_grade g st, None)"
| "filter_step st (SyncTag t) = (sync_tag t st, None)"

text \<open>A user event is possible when its \<open>Select\<close> is enabled and offers the value.\<close>

fun ui_enabled :: "curriculum \<Rightarrow> filter_state \<Rightarrow> filter_event \<Rightarrow> bool" where
  "ui_enabled cur st (SelectGrade v) = (v \<in> set (grade_options cur))"
| "ui_enabled cur st (SelectChapter v) = (\<not> chapter_disabled st \<and> v \<in> set (chapter_options cur st))"
| "ui_enabled cur st (SelectTag v) = (\<not> tag_disabled st \<and> v \<in> set (tag_options cur st))"
| "ui_enabled cur st (SyncGrade g) = False"
| "ui_enabled cur st (SyncTag t) = False"

inductive filter_reach :: "curriculum \<Rightarrow> filter_state \<Rightarrow> filter_state \<Rightarrow> bool" for cur where
  start: "filter_reach cur s0 s0"
| ui: "filter_reach cur s0 st \<Longrightarrow> ui_enabled cur st e \<Longrightarrow> filter_reach cur s0 (fst (filter_step st e))"

fun filter_run :: "filter_state \<Rightarrow> filter_event list \<Rightarrow> filter_state \<times> filter_out list" where
  "filter_run st [] = (st, [])"
| "filter_run st (e # es) =
     (let (st', out) = filter_step st e; (st'', outs) = filter_run st' es
      in (st'', (case out of None \<Rightarrow> outs | Some fo \<Rightarrow> fo # outs)))"

section \<open>Invariants\<close>

text \<open>The spec's cascade invariant: a chapter only under a real grade, a tag only under a
  real chapter; and the selection agrees with the lists the selects offer.\<close>

definition cascade_ok :: "filter_state \<Rightarrow> bool" where
  "cascade_ok st \<longleftrightarrow>
     (chapter_sel st \<noteq> [] \<longrightarrow> grade_sel st \<noteq> [] \<and> grade_sel st \<noteq> ''all'') \<and>
     (tag_sel st \<noteq> [] \<longrightarrow> chapter_sel st \<noteq> [] \<and> chapter_sel st \<noteq> ''all'')"

definition selection_valid :: "curriculum \<Rightarrow> filter_state \<Rightarrow> bool" where
  "selection_valid cur st \<longleftrightarrow>
     (chapter_sel st \<in> {[], ''all''} \<or> chapter_sel st \<in> set (map chapter_name (chapters_of cur (grade_sel st)))) \<and>
     (tag_sel st \<in> {[], ''all''} \<or> tag_sel st \<in> set (tags_of cur st))"

definition filter_inv :: "curriculum \<Rightarrow> filter_state \<Rightarrow> bool" where
  "filter_inv cur st \<longleftrightarrow> cascade_ok st \<and> selection_valid cur st"

text \<open>A curriculum whose keys, chapter names and tags are real values: none is empty
  and no key or chapter name is the sentinel \<open>"all"\<close>.\<close>

definition curriculum_wf :: "curriculum \<Rightarrow> bool" where
  "curriculum_wf cur \<longleftrightarrow>
     list_all (\<lambda>(g, cs). g \<noteq> [] \<and> g \<noteq> ''all'' \<and>
        list_all (\<lambda>c. chapter_name c \<noteq> [] \<and> chapter_name c \<noteq> ''all'' \<and> [] \<notin> set (chapter_tags c)) cs) cur"

text \<open>The selection a consumer should see: nothing selected and \<open>"all"\<close> both unset.\<close>

definition effective :: "filter_state \<Rightarrow> filter_out" where
  "effective st =
     \<lparr>out_grade = (if grade_sel st = [] then None else all_to_undef (grade_sel st)),
      out_chapter = (if chapter_sel st = [] then None else all_to_undef (chapter_sel st)),
      out_tag = (if tag_sel st = [] then None else all_to_undef (tag_sel st))\<rparr>"

section \<open>Lemmas\<close>

lemma tags_of_tag_update [simp]: "tags_of cur (st\<lparr>tag_sel := v\<rparr>) = tags_of cur st"
  by (simp add: tags_of_def current_chapter_def)

lemma filter_step_inv:
  assumes "filter_inv cur st" and "ui_enabled cur st e"
  shows "filter_inv cur (fst (filter_step st e))"
  using assms
  by (cases e)
     (auto simp: filter_inv_def cascade_ok_def selection_valid_def chapter_disabled_def
        tag_disabled_def chapter_options_def tag_options_def handleGradeChange_def
        handleChapterChange_def handleTagChange_def)

lemma filter_inv_reach: "filter_reach cur s0 st \<Longrightarrow> filter_inv cur s0 \<Longrightarrow> filter_inv cur st"
proof (induction rule: filter_reach.induct)
  case start
  then show ?case .
next
  case (ui st e)
  then show ?case by (blast intro: filter_step_inv)
qed

lemma filter_inv_init: "filter_inv cur (filter_init g None)"
  by (simp add: filter_inv_def cascade_ok_def selection_valid_def filter_init_def)

lemma chapters_of_wf:
  assumes "curriculum_wf cur" and "c \<in> set (chapters_of cur g)"
  shows "chapter_name c \<noteq> [] \<and> chapter_name c \<noteq> ''all'' \<and> [] \<notin> set (chapter_tags c)"
proof -
  from assms(2) obtain cs where "map_of cur g = Some cs" and "c \<in> set cs"
    by (cases "map_of cur g") (auto simp: chapters_of_def split: if_splits)
  then have "(g, cs) \<in> set cur" and "c \<in> set cs" by (auto dest: map_of_SomeD)
  with assms(1) show ?thesis
    by (auto simp: curriculum_wf_def list_all_iff)
qed

lemma current_chapter_wf:
  assumes wf: "curriculum_wf cur" and cc: "current_chapter cur st = Some c"
  shows "chapter_name c \<noteq> [] \<and> chapter_name c \<noteq> ''all'' \<and> [] \<notin> set (chapter_tags c)"
proof -
  from cc have "c \<in> set (chapters_of cur (grade_sel st))"
    unfolding current_chapter_def by (blast dest: find_Some_mem)
  with wf show ?thesis by (rule chapters_of_wf)
qed

lemma tags_of_wf:
  assumes wf: "curriculum_wf cur" and t: "t \<in> set (tags_of cur st)"
  shows "t \<noteq> []"
proof (cases "current_chapter cur st")
  case None
  with t show ?thesis by (simp add: tags_of_def)
next
  case (Some c)
  with t current_chapter_wf [OF wf Some] show ?thesis by (auto simp: tags_of_def)
qed

lemma filter_step_effective:
  assumes wf: "curriculum_wf cur" and inv: "filter_inv cur st" and en: "ui_enabled cur st e"
  shows "snd (filter_step st e) = Some (effective (fst (filter_step st e)))"
proof (cases e)
  case (SelectGrade v)
  have "v \<noteq> []"
    using en wf SelectGrade by (auto simp: grade_options_def curriculum_wf_def list_all_iff)
  with SelectGrade show ?thesis by (simp add: handleGradeChange_def effective_def)
next
  case (SelectChapter v)
  have "v \<noteq> []"
  proof
    assume "v = []"
    with en SelectChapter obtain c where "c \<in> set (chapters_of cur (grade_sel st))" "chapter_name c = []"
      by (auto simp: chapter_options_def)
    with chapters_of_wf [OF wf] show False by blast
  qed
  with en SelectChapter show ?thesis
    by (simp add: handleChapterChange_def effective_def chapter_disabled_def all_to_undef_def)
next
  case (SelectTag v)
  have "v \<noteq> []"
    using en SelectTag tags_of_wf [OF wf] by (auto simp: tag_options_def)
  with en inv SelectTag show ?thesis
    by (simp add: handleTagChange_def effective_def tag_disabled_def all_to_undef_def
        filter_inv_def cascade_ok_def)
qed (use en in simp_all)

section \<open>Properties of the filter\<close>

text \<open>C7. Every state the user can reach from a mounted filter with no initial tag
  satisfies the cascade invariant (a chapter only under a grade other than
  \<open>"all"\<close>, a tag only under a chapter other than \<open>"all"\<close>) and the selection
  agrees with the lists the selects offer. Proved by rule induction on the reachable
  states, one case per handler.\<close>

theorem filter_reach_invariant:
  "filter_reach cur (filter_init g None) st \<Longrightarrow> filter_inv cur st"
  using filter_inv_reach filter_inv_init by blast

theorem filter_reach_invariant_witness:
  "filter_inv [] \<lparr>grade_sel = ''g1'', chapter_sel = [], tag_sel = []\<rparr>"
proof -
  have "filter_reach [] (filter_init (Some ''g1'') None) (filter_init (Some ''g1'') None)"
    by (rule filter_reach.start)
  then have "filter_inv [] (filter_init (Some ''g1'') None)" by (rule filter_reach_invariant)
  then show ?thesis by (simp add: filter_init_def)
qed

text \<open>C16. On a curriculum without empty or \<open>"all"\<close> keys, chapter names or tags, every
  user step from a reachable state calls \<open>onFilterChange\<close> with the effective new
  selection: \<open>"all"\<close> and nothing selected both reported as \<open>undefined\<close>.\<close>

theorem filter_output_effective:
  assumes "curriculum_wf cur" and "filter_reach cur (filter_init g None) st" and "ui_enabled cur st e"
  shows "snd (filter_step st e) = Some (effective (fst (filter_step st e)))"
  using assms filter_step_effective filter_inv_reach filter_inv_init by blast

theorem filter_output_effective_witness:
  "snd (filter_step (filter_init None None) (SelectGrade ''all'')) =
   Some (effective (fst (filter_step (filter_init None None) (SelectGrade ''all''))))"
proof (rule filter_output_effective)
  show "filter_reach [] (filter_init None None) (filter_init None None)" by (rule filter_reach.start)
qed (simp_all add: curriculum_wf_def grade_options_def)

text \<open>C17. The spec's full cascade: choosing a grade, then a chapter, then \<open>"all"\<close> for the
  grade leaves grade \<open>"all"\<close> with chapter and tag cleared, and the last callback
  reports all three levels unset.\<close>

theorem filter_full_cascade:
  "filter_run st [SelectGrade g, SelectChapter c, SelectGrade ''all''] =
     (\<lparr>grade_sel = ''all'', chapter_sel = [], tag_sel = []\<rparr>,
      [\<lparr>out_grade = all_to_undef g, out_chapter = None, out_tag = None\<rparr>,
       \<lparr>out_grade = all_to_undef g, out_chapter = all_to_undef c, out_tag = None\<rparr>,
       \<lparr>out_grade = None, out_chapter = None, out_tag = None\<rparr>])"
  by (simp add: handleGradeChange_def handleChapterChange_def all_to_undef_def)

text \<open>C27. The prop-synchronising effects bypass the cascade. A new \<open>gradeSemester\<close>
  prop replaces the grade but keeps the chapter and the tag: whenever the selected
  chapter is not a chapter of the new grade, the selection no longer agrees with what the
  selects offer, and when the new grade is empty or \<open>"all"\<close> under a selected chapter
  the cascade itself is broken. An initial \<open>tag\<close> prop selects a tag with no chapter,
  which breaks the cascade from the first render.\<close>

theorem prop_sync_breaks_cascade:
  "(chapter_sel st \<notin> {[], ''all''} \<and> chapter_sel st \<notin> set (map chapter_name (chapters_of cur g)) \<longrightarrow>
      \<not> filter_inv cur (sync_grade (Some g) st)) \<and>
   (chapter_sel st \<noteq> [] \<and> g \<in> {[], ''all''} \<longrightarrow> \<not> cascade_ok (sync_grade (Some g) st)) \<and>
   (t \<noteq> [] \<longrightarrow> \<not> cascade_ok (filter_init ig (Some (Some t))))"
  by (auto simp: filter_inv_def selection_valid_def cascade_ok_def sync_grade_def filter_init_def)

theorem prop_sync_breaks_cascade_witness:
  "\<not> filter_inv [] (sync_grade (Some ''g2'') \<lparr>grade_sel = ''g1'', chapter_sel = ''ch1'', tag_sel = []\<rparr>) \<and>
   \<not> cascade_ok (sync_grade (Some ''all'') \<lparr>grade_sel = ''g1'', chapter_sel = ''ch1'', tag_sel = []\<rparr>) \<and>
   \<not> cascade_ok (filter_init None (Some (Some ''t1'')))"
proof -
  have a: "\<not> filter_inv [] (sync_grade (Some ''g2'') \<lparr>grade_sel = ''g1'', chapter_sel = ''ch1'', tag_sel = []\<rparr>)"
    using prop_sync_breaks_cascade [of "\<lparr>grade_sel = ''g1'', chapter_sel = ''ch1'', tag_sel = []\<rparr>" "[]" "''g2''"]
    by (simp add: chapters_of_def)
  have b: "\<not> cascade_ok (sync_grade (Some ''all'') \<lparr>grade_sel = ''g1'', chapter_sel = ''ch1'', tag_sel = []\<rparr>)"
    using prop_sync_breaks_cascade [of "\<lparr>grade_sel = ''g1'', chapter_sel = ''ch1'', tag_sel = []\<rparr>" "[]" "''all''"]
    by simp
  have c: "\<not> cascade_ok (filter_init None (Some (Some ''t1'')))"
    using prop_sync_breaks_cascade [of _ _ _ "''t1''" None] by simp
  from a b c show ?thesis by blast
qed

text \<open>On a well-formed curriculum, chapters are offered only while the chapter
  select is enabled (a grade other than \<open>"all"\<close> is selected), and tags only while
  the tag select is enabled (a chapter other than \<open>"all"\<close> is selected).\<close>

theorem chapters_available_only_under_grade:
  assumes "curriculum_wf cur"
  shows "chapters_of cur (grade_sel st) = (if chapter_disabled st then [] else chapters_of cur (grade_sel st)) \<and>
         tags_of cur st = (if tag_disabled st then [] else tags_of cur st)"
proof
  show "chapters_of cur (grade_sel st) = (if chapter_disabled st then [] else chapters_of cur (grade_sel st))"
    using assms by (auto simp: chapters_of_def chapter_disabled_def curriculum_wf_def list_all_iff
        dest!: map_of_SomeD split: option.splits)
  show "tags_of cur st = (if tag_disabled st then [] else tags_of cur st)"
  proof (cases "tags_of cur st = []")
    case False
    then obtain c where cc: "current_chapter cur st = Some c"
      by (auto simp: tags_of_def split: option.splits)
    then have "chapter_name c = chapter_sel st"
      unfolding current_chapter_def by (blast dest: find_Some_mem)
    with current_chapter_wf [OF assms cc] show ?thesis by (simp add: tag_disabled_def)
  qed simp
qed

theorem chapters_available_only_under_grade_witness:
  "chapters_of [] (grade_sel (filter_init None None)) =
     (if chapter_disabled (filter_init None None) then [] else chapters_of [] (grade_sel (filter_init None None))) \<and>
   tags_of [] (filter_init None None) =
     (if tag_disabled (filter_init None None) then [] else tags_of [] (filter_init None None))"
  by (rule chapters_available_only_under_grade) (simp add: curriculum_wf_def)

end
