(* ===== verification/Pipeline.thy ===== *)
theory Pipeline
  imports JsValue
begin

text \<open>
  The review pipeline of the home page, \<open>src/src/app/page.tsx\<close>: upload an image, have
  it analysed, review the draft, save it. The page's React state is a record. The
  collaborators are inputs: what \<open>processImageFile\<close> did (a payload, or it threw), how
  \<open>POST /api/analyze\<close> answered (the request failed, a non-OK status with its body text,
  or OK with a body \<open>res.json()\<close> could or could not parse; a non-OK answer whose
  \<open>res.text()\<close> rejects reaches the same \<open>catch\<close> with no state written and no
  alert, so it is the outcome of a failed request), how
  \<open>POST /api/error-items\<close> answered. Each handler runs to completion here (its awaits
  resolve in order) and returns the new state and the effects it had, in order: requests
  posted and alerts shown. The language is the one captured when the handler started.
\<close>

section \<open>Data\<close>

datatype lang = Zh | En

datatype page_step = Upload | Review

record page_state =
  step :: page_step
  analyzing :: bool
  parsedData :: "json option"
  currentImage :: "string option"

datatype alert_msg =
    AnalysisFailed
  | CannotConnect
  | InvalidResponse
  | InvalidApiKey
  | SavedOk
  | SaveFailed
  | SaveError

datatype effect =
    PostAnalyze string lang
  | PostErrorItem json string
  | ShowAlert lang alert_msg

datatype image_result = ImageOk string | ImageError

datatype analyze_response =
    AnalyzeNetError
  | AnalyzeHttpError string
  | AnalyzeOk "json option"

datatype save_response = SaveNetError | SaveHttpError | SaveHttpOk

definition page_init :: page_state where
  "page_init = \<lparr>step = Upload, analyzing = False, parsedData = None, currentImage = None\<rparr>"

text \<open>\<open>setParsedData(data)\<close>: a JSON \<open>null\<close> body leaves no draft.\<close>

definition set_draft :: "json \<Rightarrow> json option" where
  "set_draft data = (if data = JNull then None else Some data)"

section \<open>Handlers\<close>

text \<open>The user message chosen from the error body: the first marker found wins.\<close>

definition error_message :: "string \<Rightarrow> alert_msg" where
  "error_message errorText =
     (if js_includes errorText ''AI_CONNECTION_FAILED'' then CannotConnect
      else if js_includes errorText ''AI_RESPONSE_ERROR'' then InvalidResponse
      else if js_includes errorText ''AI_AUTH_ERROR'' then InvalidApiKey
      else AnalysisFailed)"

definition handleAnalyze ::
  "lang \<Rightarrow> image_result \<Rightarrow> analyze_response \<Rightarrow> page_state \<Rightarrow> page_state \<times> effect list" where
  "handleAnalyze language img resp st =
     (let st1 = st\<lparr>analyzing := True\<rparr> in
      case img of
        ImageError \<Rightarrow> (st1\<lparr>analyzing := False\<rparr>, [])
      | ImageOk base64Image \<Rightarrow>
          (let st2 = st1\<lparr>currentImage := Some base64Image\<rparr>;
               req = PostAnalyze base64Image language
           in case resp of
                AnalyzeNetError \<Rightarrow> (st2\<lparr>analyzing := False\<rparr>, [req])
              | AnalyzeHttpError errorText \<Rightarrow>
                  (st2\<lparr>analyzing := False\<rparr>, [req, ShowAlert language (error_message errorText)])
              | AnalyzeOk None \<Rightarrow> (st2\<lparr>analyzing := False\<rparr>, [req])
              | AnalyzeOk (Some data) \<Rightarrow>
                  (st2\<lparr>parsedData := set_draft data, step := Review, analyzing := False\<rparr>, [req])))"

definition handleSave ::
  "lang \<Rightarrow> json \<Rightarrow> save_response \<Rightarrow> page_state \<Rightarrow> page_state \<times> effect list" where
  "handleSave language finalData resp st =
     (let req = PostErrorItem finalData (case currentImage st of None \<Rightarrow> [] | Some img \<Rightarrow> img)
      in case resp of
           SaveHttpOk \<Rightarrow>
             (st\<lparr>step := Upload, parsedData := None, currentImage := None\<rparr>,
              [req, ShowAlert language SavedOk])
         | SaveHttpError \<Rightarrow> (st, [req, ShowAlert language SaveFailed])
         | SaveNetError \<Rightarrow> (st, [req, ShowAlert language SaveError]))"

text \<open>\<open>onCancel={() => setStep("upload")}\<close> and the "upload new" button's
  \<open>onClick={() => setStep("upload")}\<close>.\<close>

definition set_upload :: "page_state \<Rightarrow> page_state" where
  "set_upload st = st\<lparr>step := Upload\<rparr>"

section \<open>Rendering and events\<close>

text \<open>\<open>step === "review" && parsedData && <CorrectionEditor .../>\<close>: the editor needs a
  truthy draft.\<close>

fun js_truthy :: "json \<Rightarrow> bool" where
  "js_truthy JNull = False"
| "js_truthy (JBool b) = b"
| "js_truthy (JNum n) = (n \<noteq> 0)"
| "js_truthy (JStr s) = (s \<noteq> [])"
| "js_truthy (JArr _) = True"
| "js_truthy (JObj _) = True"

definition editor_shown :: "page_state \<Rightarrow> bool" where
  "editor_shown st \<longleftrightarrow>
     step st = Review \<and> (case parsedData st of None \<Rightarrow> False | Some d \<Rightarrow> js_truthy d)"

definition upload_shown :: "page_state \<Rightarrow> bool" where
  "upload_shown st \<longleftrightarrow> step st = Upload"

datatype page_event =
    Analyze lang image_result analyze_response
  | Save lang json save_response
  | Cancel
  | UploadNew

fun page_handle :: "page_state \<Rightarrow> page_event \<Rightarrow> page_state \<times> effect list" where
  "page_handle st (Analyze l img r) = handleAnalyze l img r st"
| "page_handle st (Save l d r) = handleSave l d r st"
| "page_handle st Cancel = (set_upload st, [])"
| "page_handle st UploadNew = (set_upload st, [])"

text \<open>Which component can raise the event: the upload zone while it is rendered and not
  analysing, the editor while it is rendered, the button always.\<close>

fun page_enabled :: "page_state \<Rightarrow> page_event \<Rightarrow> bool" where
  "page_enabled st (Analyze l img r) = (upload_shown st \<and> \<not> analyzing st)"
| "page_enabled st (Save l d r) = editor_shown st"
| "page_enabled st Cancel = editor_shown st"
| "page_enabled st UploadNew = True"

text \<open>The messages shown to the user, in order.\<close>

definition alerts_of :: "effect list \<Rightarrow> alert_msg list" where
  "alerts_of effs = concat (map (\<lambda>e. case e of ShowAlert _ m \<Rightarrow> [m] | _ \<Rightarrow> []) effs)"

section \<open>Lemmas\<close>

lemma error_message_conn: "js_includes t ''AI_CONNECTION_FAILED'' \<Longrightarrow> error_message t = CannotConnect"
  by (simp add: error_message_def del: js_includes_sublist)

section \<open>Properties of the pipeline\<close>

text \<open>When the analysis endpoint answers with an error body naming
  \<open>AI_CONNECTION_FAILED\<close>, the page posts the request, shows the connectivity message in
  the active language and stays at the upload step, but it keeps the new image as
  \<open>currentImage\<close>, although the spec says a failed analysis retains no image.\<close>

lemma analyze_connection_failure:
  assumes "js_includes errorText ''AI_CONNECTION_FAILED''"
  shows "handleAnalyze language (ImageOk img) (AnalyzeHttpError errorText) st =
         (st\<lparr>analyzing := False, currentImage := Some img\<rparr>,
          [PostAnalyze img language, ShowAlert language CannotConnect])"
  using error_message_conn [OF assms] by (simp add: handleAnalyze_def)

text \<open>C28. The failure paths of \<open>handleAnalyze\<close>: the only alert it ever shows is the
  message chosen from an error status's body; a failed image, a rejected request and an
  OK answer whose body is not JSON end the analysis silently, although the spec asks
  for a typed message on every failure (connectivity for an unreachable classifier).
  The step changes only on success, and the image, once processed, is kept whatever
  follows, although the spec says a failed analysis retains no image.\<close>

theorem analyze_failure_paths:
  "alerts_of (snd (handleAnalyze language img resp st)) =
     (case (img, resp) of (ImageOk _, AnalyzeHttpError t) \<Rightarrow> [error_message t] | _ \<Rightarrow> []) \<and>
   step (fst (handleAnalyze language img resp st)) =
     (case (img, resp) of (ImageOk _, AnalyzeOk (Some _)) \<Rightarrow> Review | _ \<Rightarrow> step st) \<and>
   currentImage (fst (handleAnalyze language img resp st)) =
     (case img of ImageOk i \<Rightarrow> Some i | ImageError \<Rightarrow> currentImage st) \<and>
   \<not> analyzing (fst (handleAnalyze language img resp st))"
  by (cases img; cases resp) (auto simp: handleAnalyze_def alerts_of_def split: option.splits)

text \<open>C19. A successful analysis with a non-null draft moves to the review step holding the
  draft and the image, and the editor is shown exactly when the draft is truthy.\<close>

theorem analyze_success:
  assumes "data \<noteq> JNull"
  shows "handleAnalyze language (ImageOk img) (AnalyzeOk (Some data)) st =
           (st\<lparr>step := Review, analyzing := False, parsedData := Some data, currentImage := Some img\<rparr>,
            [PostAnalyze img language]) \<and>
         editor_shown (fst (handleAnalyze language (ImageOk img) (AnalyzeOk (Some data)) st)) = js_truthy data"
  using assms by (simp add: handleAnalyze_def set_draft_def editor_shown_def)

theorem analyze_success_witness:
  "handleAnalyze En (ImageOk ''p'') (AnalyzeOk (Some (JObj []))) page_init =
     (page_init\<lparr>step := Review, analyzing := False, parsedData := Some (JObj []), currentImage := Some ''p''\<rparr>,
      [PostAnalyze ''p'' En]) \<and>
   editor_shown (fst (handleAnalyze En (ImageOk ''p'') (AnalyzeOk (Some (JObj []))) page_init)) = js_truthy (JObj [])"
  by (rule analyze_success) simp

text \<open>C29. Cancelling the review returns to the upload step but keeps the draft and the image
  in the page state, where the spec says cancel clears both.\<close>

theorem cancel_keeps_draft:
  assumes "editor_shown st"
  shows "step (fst (page_handle st Cancel)) = Upload \<and>
         parsedData (fst (page_handle st Cancel)) = parsedData st \<and> parsedData st \<noteq> None \<and>
         currentImage (fst (page_handle st Cancel)) = currentImage st"
  using assms by (auto simp: set_upload_def editor_shown_def split: option.splits)

theorem cancel_keeps_draft_witness:
  "step (fst (page_handle (page_init\<lparr>step := Review, parsedData := Some (JObj []), currentImage := Some ''p''\<rparr>) Cancel)) = Upload \<and>
   parsedData (fst (page_handle (page_init\<lparr>step := Review, parsedData := Some (JObj []), currentImage := Some ''p''\<rparr>) Cancel)) =
     parsedData (page_init\<lparr>step := Review, parsedData := Some (JObj []), currentImage := Some ''p''\<rparr>) \<and>
   parsedData (page_init\<lparr>step := Review, parsedData := Some (JObj []), currentImage := Some ''p''\<rparr>) \<noteq> None \<and>
   currentImage (fst (page_handle (page_init\<lparr>step := Review, parsedData := Some (JObj []), currentImage := Some ''p''\<rparr>) Cancel)) =
     currentImage (page_init\<lparr>step := Review, parsedData := Some (JObj []), currentImage := Some ''p''\<rparr>)"
  by (rule cancel_keeps_draft) (simp add: editor_shown_def)

text \<open>C30. A successful analysis whose body is JSON \<open>null\<close> moves to the review step with no
  draft: neither the upload zone nor the editor is rendered, and the only way out is
  the "upload new" button, although the spec says review always holds a draft.\<close>

theorem null_draft_dead_end:
  "step (fst (handleAnalyze language (ImageOk img) (AnalyzeOk (Some JNull)) st)) = Review \<and>
   \<not> editor_shown (fst (handleAnalyze language (ImageOk img) (AnalyzeOk (Some JNull)) st)) \<and>
   \<not> upload_shown (fst (handleAnalyze language (ImageOk img) (AnalyzeOk (Some JNull)) st)) \<and>
   (\<forall>e. page_enabled (fst (handleAnalyze language (ImageOk img) (AnalyzeOk (Some JNull)) st)) e = (e = UploadNew))"
proof -
  let ?st = "fst (handleAnalyze language (ImageOk img) (AnalyzeOk (Some JNull)) st)"
  have st: "step ?st = Review" and pd: "parsedData ?st = None"
    by (simp_all add: handleAnalyze_def set_draft_def)
  have "page_enabled ?st e = (e = UploadNew)" for e
    using st pd by (cases e) (simp_all add: editor_shown_def upload_shown_def)
  with st pd show ?thesis by (simp add: editor_shown_def upload_shown_def)
qed

end
