(* ===== verification/Pipeline_Async.thy ===== *)
theory Pipeline_Async
  imports Pipeline
begin

text \<open>
  The home page of \<open>src/src/app/page.tsx\<close> with its awaits made explicit. \<open>handleAnalyze\<close>
  suspends at \<open>await processImageFile(file)\<close> and at \<open>await fetch("/api/analyze")\<close>
  (the later \<open>await res.text()\<close> and \<open>await res.json()\<close> are merged with the fetch: the
  code between them writes no state); \<open>handleSave\<close> suspends at
  \<open>await fetch("/api/error-items")\<close>. A suspended handler is a pending task; the
  collaborators resolve pending tasks in any order, and the user's events interleave
  with them. The React setters after an await are blind writes, so a resumed handler
  writes over whatever the interleaved events did.
\<close>

datatype task = AwaitImage lang | AwaitAnalyze lang | AwaitSave lang

datatype outcome =
    ImageDone image_result
  | AnalyzeDone analyze_response
  | SaveDone save_response

record async_state =
  page :: page_state
  tasks :: "task list"

definition async_init :: async_state where
  "async_init = \<lparr>page = page_init, tasks = []\<rparr>"

section \<open>The handlers cut at their awaits\<close>

text \<open>\<open>handleAnalyze\<close> up to \<open>await processImageFile(file)\<close>.\<close>

definition analyze_start :: "lang \<Rightarrow> page_state \<Rightarrow> page_state \<times> task" where
  "analyze_start language st = (st\<lparr>analyzing := True\<rparr>, AwaitImage language)"

text \<open>From the image to \<open>await fetch(...)\<close>; a failed image goes to \<open>finally\<close>.\<close>

definition analyze_image ::
  "lang \<Rightarrow> image_result \<Rightarrow> page_state \<Rightarrow> page_state \<times> effect list \<times> task option" where
  "analyze_image language img st =
     (case img of
        ImageError \<Rightarrow> (st\<lparr>analyzing := False\<rparr>, [], None)
      | ImageOk base64Image \<Rightarrow>
          (st\<lparr>currentImage := Some base64Image\<rparr>, [PostAnalyze base64Image language],
           Some (AwaitAnalyze language)))"

text \<open>From the answer of the analysis endpoint to the end of \<open>finally\<close>.\<close>

definition analyze_finish :: "lang \<Rightarrow> analyze_response \<Rightarrow> page_state \<Rightarrow> page_state \<times> effect list" where
  "analyze_finish language resp st =
     (case resp of
        AnalyzeNetError \<Rightarrow> (st\<lparr>analyzing := False\<rparr>, [])
      | AnalyzeHttpError errorText \<Rightarrow>
          (st\<lparr>analyzing := False\<rparr>, [ShowAlert language (error_message errorText)])
      | AnalyzeOk None \<Rightarrow> (st\<lparr>analyzing := False\<rparr>, [])
      | AnalyzeOk (Some data) \<Rightarrow>
          (st\<lparr>parsedData := set_draft data, step := Review, analyzing := False\<rparr>, []))"

text \<open>\<open>handleSave\<close> up to \<open>await fetch(...)\<close>: the request, with the image of the
  render the click came from, is sent at once.\<close>

definition save_start :: "lang \<Rightarrow> json \<Rightarrow> page_state \<Rightarrow> effect list \<times> task" where
  "save_start language finalData st =
     ([PostErrorItem finalData (case currentImage st of None \<Rightarrow> [] | Some img \<Rightarrow> img)],
      AwaitSave language)"

definition save_finish :: "lang \<Rightarrow> save_response \<Rightarrow> page_state \<Rightarrow> page_state \<times> effect list" where
  "save_finish language resp st =
     (case resp of
        SaveHttpOk \<Rightarrow>
          (st\<lparr>step := Upload, parsedData := None, currentImage := None\<rparr>, [ShowAlert language SavedOk])
      | SaveHttpError \<Rightarrow> (st, [ShowAlert language SaveFailed])
      | SaveNetError \<Rightarrow> (st, [ShowAlert language SaveError]))"

text \<open>Resuming a task with the outcome of what it awaits: the new state, the effects, and
  the task it waits on next, if any. An outcome of the wrong kind cannot occur.\<close>

fun resume :: "task \<Rightarrow> outcome \<Rightarrow> page_state \<Rightarrow> (page_state \<times> effect list \<times> task option) option" where
  "resume (AwaitImage l) (ImageDone r) st = Some (analyze_image l r st)"
| "resume (AwaitAnalyze l) (AnalyzeDone r) st =
     Some (fst (analyze_finish l r st), snd (analyze_finish l r st), None)"
| "resume (AwaitSave l) (SaveDone r) st =
     Some (fst (save_finish l r st), snd (save_finish l r st), None)"
| "resume _ _ _ = None"

section \<open>Events\<close>

datatype async_event =
    StartAnalyze lang
  | StartSave lang json
  | CancelA
  | UploadNewA
  | Resolve nat outcome

definition resolve :: "nat \<Rightarrow> outcome \<Rightarrow> async_state \<Rightarrow> (async_state \<times> effect list) option" where
  "resolve i r s =
     (if i < length (tasks s) then
        (case resume (tasks s ! i) r (page s) of
           None \<Rightarrow> None
         | Some (st', effs, None) \<Rightarrow> Some (\<lparr>page = st', tasks = remove_nth i (tasks s)\<rparr>, effs)
         | Some (st', effs, Some t) \<Rightarrow> Some (\<lparr>page = st', tasks = (tasks s)[i := t]\<rparr>, effs))
      else None)"

fun async_step :: "async_state \<Rightarrow> async_event \<Rightarrow> async_state \<times> effect list" where
  "async_step s (StartAnalyze l) =
     (\<lparr>page = fst (analyze_start l (page s)), tasks = tasks s @ [snd (analyze_start l (page s))]\<rparr>, [])"
| "async_step s (StartSave l d) =
     (s\<lparr>tasks := tasks s @ [snd (save_start l d (page s))]\<rparr>, fst (save_start l d (page s)))"
| "async_step s CancelA = (s\<lparr>page := set_upload (page s)\<rparr>, [])"
| "async_step s UploadNewA = (s\<lparr>page := set_upload (page s)\<rparr>, [])"
| "async_step s (Resolve i r) = (case resolve i r s of None \<Rightarrow> (s, []) | Some res \<Rightarrow> res)"

text \<open>As in \<open>page_enabled\<close>: the upload zone raises \<open>onImageSelect\<close> while rendered and
  not analysing, the editor raises \<open>onSave\<close> and \<open>onCancel\<close> while rendered (also while
  a save it started is pending), the button always; a collaborator resolves a pending
  task.\<close>

fun async_enabled :: "async_state \<Rightarrow> async_event \<Rightarrow> bool" where
  "async_enabled s (StartAnalyze l) = (upload_shown (page s) \<and> \<not> analyzing (page s))"
| "async_enabled s (StartSave l d) = editor_shown (page s)"
| "async_enabled s CancelA = editor_shown (page s)"
| "async_enabled s UploadNewA = True"
| "async_enabled s (Resolve i r) = (resolve i r s \<noteq> None)"

inductive async_reach :: "async_state \<Rightarrow> bool" where
  init: "async_reach async_init"
| step: "async_reach s \<Longrightarrow> async_enabled s e \<Longrightarrow> async_reach (fst (async_step s e))"

fun async_run :: "async_state \<Rightarrow> async_event list \<Rightarrow> async_state \<times> effect list" where
  "async_run s [] = (s, [])"
| "async_run s (e # es) =
     (fst (async_run (fst (async_step s e)) es), snd (async_step s e) @ snd (async_run (fst (async_step s e)) es))"

fun run_enabled :: "async_state \<Rightarrow> async_event list \<Rightarrow> bool" where
  "run_enabled s [] = True"
| "run_enabled s (e # es) = (async_enabled s e \<and> run_enabled (fst (async_step s e)) es)"

text \<open>One submission run to completion with no event in between; \<open>n\<close> is the index of its
  task.\<close>

definition analyze_events :: "lang \<Rightarrow> image_result \<Rightarrow> analyze_response \<Rightarrow> nat \<Rightarrow> async_event list" where
  "analyze_events l img r n =
     StartAnalyze l # Resolve n (ImageDone img) #
     (case img of ImageOk _ \<Rightarrow> [Resolve n (AnalyzeDone r)] | ImageError \<Rightarrow> [])"

fun analysis_task :: "task \<Rightarrow> bool" where
  "analysis_task (AwaitImage _) = True"
| "analysis_task (AwaitAnalyze _) = True"
| "analysis_task (AwaitSave _) = False"

section \<open>Lemmas\<close>

lemma count_remove_nth:
  "i < length xs \<Longrightarrow>
   length (filter P (remove_nth i xs)) + (if P (xs ! i) then 1 else 0) = length (filter P xs)"
  by (subst (3) id_take_nth_drop [of i xs]) (auto simp: remove_nth_def)

lemma count_update:
  "i < length xs \<Longrightarrow> P t = P (xs ! i) \<Longrightarrow> length (filter P (xs[i := t])) = length (filter P xs)"
  by (subst (1 2) id_take_nth_drop [of i xs]) (auto simp: upd_conv_take_nth_drop)

lemma remove_nth_snoc [simp]: "remove_nth (length xs) (xs @ [t]) = xs"
  by (simp add: remove_nth_def)

lemma run_append:
  "async_run s (es @ fs) =
     (fst (async_run (fst (async_run s es)) fs), snd (async_run s es) @ snd (async_run (fst (async_run s es)) fs))"
  by (induction es arbitrary: s) auto

lemma async_reach_run: "async_reach s \<Longrightarrow> run_enabled s es \<Longrightarrow> async_reach (fst (async_run s es))"
  by (induction es arbitrary: s) (auto intro: async_reach.step)

definition one_analysis :: "async_state \<Rightarrow> bool" where
  "one_analysis s \<longleftrightarrow> length (filter analysis_task (tasks s)) = (if analyzing (page s) then 1 else 0)"

lemma one_analysis_resolve:
  assumes "one_analysis s" and "resolve i r s = Some (s', effs)"
  shows "one_analysis s'"
proof -
  from assms(2) have i: "i < length (tasks s)" by (simp add: resolve_def split: if_splits)
  show ?thesis
  proof (cases "tasks s ! i")
    case (AwaitImage l)
    with assms i count_remove_nth [OF i, of analysis_task] count_update [OF i, of analysis_task] show ?thesis
      by (cases r; cases "case r of ImageDone img \<Rightarrow> img")
         (auto simp: resolve_def one_analysis_def analyze_image_def split: if_splits)
  next
    case (AwaitAnalyze l)
    with assms i count_remove_nth [OF i, of analysis_task] show ?thesis
      by (cases r) (auto simp: resolve_def one_analysis_def analyze_finish_def
          split: if_splits analyze_response.splits option.splits)
  next
    case (AwaitSave l)
    with assms i count_remove_nth [OF i, of analysis_task] show ?thesis
      by (cases r) (auto simp: resolve_def one_analysis_def save_finish_def
          split: if_splits save_response.splits)
  qed
qed

lemma one_analysis_step:
  assumes "one_analysis s" and "async_enabled s e"
  shows "one_analysis (fst (async_step s e))"
proof (cases e)
  case (Resolve i r)
  with assms one_analysis_resolve [OF assms(1), of i r] show ?thesis by (auto split: option.splits)
qed (use assms in \<open>auto simp: one_analysis_def analyze_start_def save_start_def set_upload_def\<close>)

lemma async_reach_one_analysis: "async_reach s \<Longrightarrow> one_analysis s"
proof (induction rule: async_reach.induct)
  case init
  then show ?case by (simp add: one_analysis_def async_init_def page_init_def)
next
  case (step s e)
  show ?case by (rule one_analysis_step [OF step.IH step.hyps(2)])
qed

lemmas async_defs = analyze_start_def analyze_image_def analyze_finish_def save_start_def
  save_finish_def resolve_def set_upload_def

section \<open>Properties of the interleaved page\<close>

text \<open>C8. In every reachable interleaving at most one analysis is in flight, and exactly
  when \<open>analyzing\<close> is set: the \<open>isAnalyzing\<close> guard of the upload zone keeps a second
  submission from starting while one is pending.\<close>

theorem async_single_analysis:
  "async_reach s \<Longrightarrow> length (filter analysis_task (tasks s)) = (if analyzing (page s) then 1 else 0)"
  using async_reach_one_analysis by (simp add: one_analysis_def)

theorem async_single_analysis_witness:
  "length (filter analysis_task (tasks async_init)) = (if analyzing (page async_init) then 1 else 0)"
  by (rule async_single_analysis) (rule async_reach.init)

text \<open>C22. A save still pending when the user cancels and analyses a new question clears
  the new draft and image when it succeeds: the page is back at its initial state and
  the new draft, never saved, is lost without a cancel.\<close>

theorem stale_save_drops_new_draft:
  "async_reach \<lparr>page = \<lparr>step = Review, analyzing = False, parsedData = Some (JStr ''q2''), currentImage = Some ''b''\<rparr>,
                tasks = [AwaitSave En]\<rparr> \<and>
   editor_shown \<lparr>step = Review, analyzing = False, parsedData = Some (JStr ''q2''), currentImage = Some ''b''\<rparr> \<and>
   async_step \<lparr>page = \<lparr>step = Review, analyzing = False, parsedData = Some (JStr ''q2''), currentImage = Some ''b''\<rparr>,
                tasks = [AwaitSave En]\<rparr> (Resolve 0 (SaveDone SaveHttpOk)) = (async_init, [ShowAlert En SavedOk])"
proof -
  let ?es = "analyze_events En (ImageOk ''a'') (AnalyzeOk (Some (JStr ''q1''))) 0 @
             [StartSave En (JStr ''q1''), CancelA] @ analyze_events En (ImageOk ''b'') (AnalyzeOk (Some (JStr ''q2''))) 1"
  have "async_reach (fst (async_run async_init ?es))"
    by (rule async_reach_run [OF async_reach.init])
       (simp add: analyze_events_def async_defs async_init_def page_init_def upload_shown_def
        editor_shown_def set_draft_def remove_nth_def)
  moreover have "fst (async_run async_init ?es) =
      \<lparr>page = \<lparr>step = Review, analyzing = False, parsedData = Some (JStr ''q2''), currentImage = Some ''b''\<rparr>,
       tasks = [AwaitSave En]\<rparr>"
    by (simp add: analyze_events_def async_defs async_init_def page_init_def set_draft_def remove_nth_def)
  ultimately show ?thesis
    by (simp add: async_defs async_init_def page_init_def editor_shown_def remove_nth_def)
qed

text \<open>C23. With the same interleaving, a save that succeeds while the new analysis is in
  flight leaves the page in review with the new draft and no image, so saving it posts
  an empty \<open>originalImageUrl\<close>: under interleaving the review step does not always retain
  the image the save is meant to post.\<close>

theorem review_without_image:
  "async_reach \<lparr>page = \<lparr>step = Review, analyzing = False, parsedData = Some (JStr ''q2''), currentImage = None\<rparr>,
                tasks = []\<rparr> \<and>
   editor_shown \<lparr>step = Review, analyzing = False, parsedData = Some (JStr ''q2''), currentImage = None\<rparr> \<and>
   snd (async_step \<lparr>page = \<lparr>step = Review, analyzing = False, parsedData = Some (JStr ''q2''), currentImage = None\<rparr>,
                tasks = []\<rparr> (StartSave En (JStr ''q2''))) = [PostErrorItem (JStr ''q2'') []]"
proof -
  let ?es = "analyze_events En (ImageOk ''a'') (AnalyzeOk (Some (JStr ''q1''))) 0 @
             [StartSave En (JStr ''q1''), CancelA, StartAnalyze En, Resolve 1 (ImageDone (ImageOk ''b'')),
              Resolve 0 (SaveDone SaveHttpOk), Resolve 0 (AnalyzeDone (AnalyzeOk (Some (JStr ''q2''))))]"
  have "async_reach (fst (async_run async_init ?es))"
    by (rule async_reach_run [OF async_reach.init])
       (simp add: analyze_events_def async_defs async_init_def page_init_def upload_shown_def
        editor_shown_def set_draft_def remove_nth_def)
  moreover have "fst (async_run async_init ?es) =
      \<lparr>page = \<lparr>step = Review, analyzing = False, parsedData = Some (JStr ''q2''), currentImage = None\<rparr>,
       tasks = []\<rparr>"
    by (simp add: analyze_events_def async_defs async_init_def page_init_def set_draft_def remove_nth_def)
  ultimately show ?thesis
    by (simp add: async_defs editor_shown_def)
qed

end
