(* ===== verification/Pipeline_Progress.thy ===== *)
theory Pipeline_Progress
  imports Pipeline_Async
begin

text \<open>
  Progress of the interleaved home page of \<open>Pipeline_Async\<close>: from every reachable
  state, answering each pending await of \<open>src/src/app/page.tsx\<close> with the outcome that
  ends its handler at once (the image processing throws, the request is rejected)
  settles every pending handler and clears \<open>analyzing\<close>.
\<close>

fun is_resolve :: "async_event \<Rightarrow> bool" where
  "is_resolve (Resolve _ _) = True"
| "is_resolve _ = False"

text \<open>The answer that ends a pending handler at once: the image processing throws, or
  the request is rejected.\<close>

fun abort_outcome :: "task \<Rightarrow> outcome" where
  "abort_outcome (AwaitImage _) = ImageDone ImageError"
| "abort_outcome (AwaitAnalyze _) = AnalyzeDone AnalyzeNetError"
| "abort_outcome (AwaitSave _) = SaveDone SaveNetError"

definition settle_events :: "task list \<Rightarrow> async_event list" where
  "settle_events ts = map (\<lambda>t. Resolve 0 (abort_outcome t)) ts"

section \<open>Lemmas\<close>

lemma resolve_abort_head:
  "tasks s = t # ts \<Longrightarrow>
   \<exists>effs. resolve 0 (abort_outcome t) s =
     Some (\<lparr>page = fst (the (resume t (abort_outcome t) (page s))), tasks = ts\<rparr>, effs)"
  by (cases t) (simp_all add: resolve_def analyze_image_def remove_nth_def)

lemma settle_run:
  "tasks s = ts \<Longrightarrow>
   run_enabled s (settle_events ts) \<and> tasks (fst (async_run s (settle_events ts))) = []"
proof (induction ts arbitrary: s)
  case Nil
  then show ?case by (simp add: settle_events_def)
next
  case (Cons t ts)
  from resolve_abort_head [OF Cons.prems] obtain effs where
    r: "resolve 0 (abort_outcome t) s =
          Some (\<lparr>page = fst (the (resume t (abort_outcome t) (page s))), tasks = ts\<rparr>, effs)" ..
  from Cons.IH [of "\<lparr>page = fst (the (resume t (abort_outcome t) (page s))), tasks = ts\<rparr>"] r
  show ?case by (simp add: settle_events_def)
qed

section \<open>Properties\<close>

text \<open>C11. Liveness: from every reachable state of the interleaved page the pending
  handlers can all be brought to an end by answers of the collaborators alone, leaving
  no handler suspended and \<open>analyzing\<close> cleared, so the upload zone accepts images
  again.\<close>

theorem async_settles:
  assumes "async_reach s"
  shows "\<exists>es. list_all is_resolve es \<and> run_enabled s es \<and>
              tasks (fst (async_run s es)) = [] \<and> \<not> analyzing (page (fst (async_run s es)))"
proof -
  let ?es = "settle_events (tasks s)"
  from settle_run [of s "tasks s"] have en: "run_enabled s ?es"
    and fin: "tasks (fst (async_run s ?es)) = []" by simp_all
  have "async_reach (fst (async_run s ?es))" by (rule async_reach_run [OF assms en])
  then have "one_analysis (fst (async_run s ?es))" by (rule async_reach_one_analysis)
  with fin have "\<not> analyzing (page (fst (async_run s ?es)))"
    by (simp add: one_analysis_def split: if_splits)
  moreover have "list_all is_resolve ?es" by (simp add: settle_events_def list_all_iff)
  ultimately show ?thesis using en fin by blast
qed

theorem async_settles_witness:
  "\<exists>es. list_all is_resolve es \<and> run_enabled (fst (async_step async_init (StartAnalyze En))) es \<and>
        tasks (fst (async_run (fst (async_step async_init (StartAnalyze En))) es)) = [] \<and>
        \<not> analyzing (page (fst (async_run (fst (async_step async_init (StartAnalyze En))) es)))"
  by (rule async_settles)
     (rule async_reach.step [OF async_reach.init], simp add: async_init_def page_init_def upload_shown_def)

end
