(* ===== verification/Proxy.thy ===== *)
theory Proxy
  imports Prelude
begin

text \<open>
  \<open>setupGlobalProxy\<close> of \<open>src/src/lib/global-proxy.ts\<close>: it reads the proxy variables
  of \<open>process.env\<close>, chooses an HTTP and an HTTPS proxy with JavaScript's \<open>||\<close> (an
  unset or empty variable is falsy), installs an undici dispatcher for one of them, and
  configures global-agent through environment variables and \<open>global.GLOBAL_AGENT\<close>.
  The environment is a map from names to values; the two calls that may throw
  (the \<open>ProxyAgent\<close> constructor and \<open>require('global-agent/bootstrap')\<close>) are
  parameters saying whether they succeed. Logging is not modelled.
\<close>

type_synonym proc_env = "string \<Rightarrow> string option"

text \<open>\<open>a || b\<close> on values that are strings or \<open>undefined\<close>.\<close>

definition js_or :: "string option \<Rightarrow> string option \<Rightarrow> string option" where
  "js_or a b = (case a of Some s \<Rightarrow> if s \<noteq> [] then Some s else b | None \<Rightarrow> b)"

definition js_truthy_str :: "string option \<Rightarrow> bool" where
  "js_truthy_str a \<longleftrightarrow> (case a of Some s \<Rightarrow> s \<noteq> [] | None \<Rightarrow> False)"

record proxy_result =
  dispatcher :: "string option"
  result_env :: proc_env
  global_agent :: "(string option \<times> string option) option"
  bootstrapped :: bool

definition target_http :: "proc_env \<Rightarrow> string option" where
  "target_http env = js_or (js_or (env ''http_proxy'') (env ''HTTP_PROXY''))
                           (js_or (env ''all_proxy'') (env ''ALL_PROXY''))"

definition target_https :: "proc_env \<Rightarrow> string option" where
  "target_https env = js_or (js_or (env ''https_proxy'') (env ''HTTPS_PROXY''))
                            (js_or (env ''all_proxy'') (env ''ALL_PROXY''))"

definition setupGlobalProxy ::
  "proc_env \<Rightarrow> (string \<Rightarrow> bool) \<Rightarrow> bool \<Rightarrow> proxy_result" where
  "setupGlobalProxy env agent_ok bootstrap_ok =
     (let targetHttpProxy = target_http env;
          targetHttpsProxy = target_https env;
          none = \<lparr>dispatcher = None, result_env = env, global_agent = None, bootstrapped = False\<rparr>
      in if \<not> (js_truthy_str targetHttpProxy \<or> js_truthy_str targetHttpsProxy) then none
         else
           let undiciProxy = js_or targetHttpsProxy targetHttpProxy;
               disp = (case undiciProxy of
                         Some p \<Rightarrow> if p \<noteq> [] \<and> agent_ok p then Some p else None
                       | None \<Rightarrow> None);
               env1 = (case targetHttpProxy of
                         Some p \<Rightarrow> if p \<noteq> [] then env(''GLOBAL_AGENT_HTTP_PROXY'' \<mapsto> p) else env
                       | None \<Rightarrow> env);
               env2 = (case targetHttpsProxy of
                         Some p \<Rightarrow> if p \<noteq> [] then env1(''GLOBAL_AGENT_HTTPS_PROXY'' \<mapsto> p) else env1
                       | None \<Rightarrow> env1)
           in \<lparr>dispatcher = disp, result_env = env2,
               global_agent = Some (targetHttpProxy, targetHttpsProxy), bootstrapped = bootstrap_ok\<rparr>)"

text \<open>The first value of a list that is a non-empty string.\<close>

fun first_truthy :: "string option list \<Rightarrow> string option" where
  "first_truthy [] = None"
| "first_truthy (a # as) = (if js_truthy_str a then a else first_truthy as)"

lemma js_or_first_truthy [simp]: "js_or a b = (if js_truthy_str a then a else b)"
  by (auto simp: js_or_def js_truthy_str_def split: option.splits)

lemma first_truthy_None: "first_truthy xs = None \<longleftrightarrow> (\<forall>x \<in> set xs. \<not> js_truthy_str x)"
  by (induction xs) (auto simp: js_truthy_str_def split: option.splits)

lemma js_truthy_js_or [simp]: "js_truthy_str (js_or a b) \<longleftrightarrow> js_truthy_str a \<or> js_truthy_str b"
  by (auto simp: js_or_def js_truthy_str_def split: option.splits)

lemma js_or4_truthy:
  "js_truthy_str (js_or (js_or a b) (js_or c d)) \<Longrightarrow> js_or (js_or a b) (js_or c d) = first_truthy [a, b, c, d]"
  by (cases "js_truthy_str a"; cases "js_truthy_str b"; cases "js_truthy_str c") simp_all

lemma js_or4_falsy:
  "\<not> js_truthy_str (js_or (js_or a b) (js_or c d)) \<longleftrightarrow> first_truthy [a, b, c, d] = None"
  by (simp only: first_truthy_None js_truthy_js_or) simp

lemma setup_result_env:
  "result_env (setupGlobalProxy env agent_ok bootstrap_ok) ''GLOBAL_AGENT_HTTPS_PROXY'' =
     (if js_truthy_str (target_https env) then target_https env else env ''GLOBAL_AGENT_HTTPS_PROXY'') \<and>
   result_env (setupGlobalProxy env agent_ok bootstrap_ok) ''GLOBAL_AGENT_HTTP_PROXY'' =
     (if js_truthy_str (target_http env) then target_http env else env ''GLOBAL_AGENT_HTTP_PROXY'')"
  unfolding setupGlobalProxy_def Let_def
  by (cases "target_http env"; cases "target_https env") (auto simp: js_truthy_str_def)

text \<open>C20. The undici dispatcher is the first non-empty value among \<open>https_proxy\<close>,
  \<open>HTTPS_PROXY\<close>, \<open>all_proxy\<close>, \<open>ALL_PROXY\<close>, \<open>http_proxy\<close>, \<open>HTTP_PROXY\<close>,
  installed only when the \<open>ProxyAgent\<close> constructor accepts it; with no proxy
  variable set no dispatcher is installed.\<close>
theorem undici_proxy_precedence:
  "dispatcher (setupGlobalProxy env agent_ok bootstrap_ok) =
     (case first_truthy [env ''https_proxy'', env ''HTTPS_PROXY'', env ''all_proxy'', env ''ALL_PROXY'',
                         env ''http_proxy'', env ''HTTP_PROXY''] of
        None \<Rightarrow> None
      | Some p \<Rightarrow> if agent_ok p then Some p else None)"
  by (auto simp: setupGlobalProxy_def target_http_def target_https_def Let_def js_truthy_str_def
      split: option.splits if_splits)

text \<open>When every proxy variable is unset or empty, \<open>setupGlobalProxy\<close> changes
  nothing: no dispatcher, the environment unchanged, no \<open>GLOBAL_AGENT\<close> object and no
  bootstrap.\<close>
theorem setupGlobalProxy_no_proxy:
  assumes "first_truthy [env ''http_proxy'', env ''HTTP_PROXY'', env ''https_proxy'', env ''HTTPS_PROXY'',
                         env ''all_proxy'', env ''ALL_PROXY''] = None"
  shows "setupGlobalProxy env agent_ok bootstrap_ok =
           \<lparr>dispatcher = None, result_env = env, global_agent = None, bootstrapped = False\<rparr>"
proof -
  have "\<not> js_truthy_str (target_http env) \<and> \<not> js_truthy_str (target_https env)"
    using assms unfolding first_truthy_None target_http_def target_https_def
    by (simp del: js_or_first_truthy)
  then show ?thesis by (simp add: setupGlobalProxy_def Let_def del: js_or_first_truthy)
qed

theorem setupGlobalProxy_no_proxy_witness:
  "setupGlobalProxy [''NODE_ENV'' \<mapsto> ''development'', ''http_proxy'' \<mapsto> []] (\<lambda>_. True) True =
   \<lparr>dispatcher = None, result_env = [''NODE_ENV'' \<mapsto> ''development'', ''http_proxy'' \<mapsto> []],
    global_agent = None, bootstrapped = False\<rparr>"
  by (rule setupGlobalProxy_no_proxy) (simp add: js_truthy_str_def)

text \<open>C21. \<open>GLOBAL_AGENT_HTTPS_PROXY\<close> is set to the first non-empty value among
  \<open>https_proxy\<close>, \<open>HTTPS_PROXY\<close>, \<open>all_proxy\<close>, \<open>ALL_PROXY\<close>, and
  \<open>GLOBAL_AGENT_HTTP_PROXY\<close> to the first among \<open>http_proxy\<close>, \<open>HTTP_PROXY\<close>,
  \<open>all_proxy\<close>, \<open>ALL_PROXY\<close>; where there is none the variable keeps its old value.\<close>
theorem global_agent_targets:
  "result_env (setupGlobalProxy env agent_ok bootstrap_ok) ''GLOBAL_AGENT_HTTPS_PROXY'' =
     (case first_truthy [env ''https_proxy'', env ''HTTPS_PROXY'', env ''all_proxy'', env ''ALL_PROXY''] of
        None \<Rightarrow> env ''GLOBAL_AGENT_HTTPS_PROXY'' | Some p \<Rightarrow> Some p) \<and>
   result_env (setupGlobalProxy env agent_ok bootstrap_ok) ''GLOBAL_AGENT_HTTP_PROXY'' =
     (case first_truthy [env ''http_proxy'', env ''HTTP_PROXY'', env ''all_proxy'', env ''ALL_PROXY''] of
        None \<Rightarrow> env ''GLOBAL_AGENT_HTTP_PROXY'' | Some p \<Rightarrow> Some p)"
  using setup_result_env [of env agent_ok bootstrap_ok]
    js_or4_truthy [of "env ''https_proxy''" "env ''HTTPS_PROXY''" "env ''all_proxy''" "env ''ALL_PROXY''"]
    js_or4_falsy [of "env ''https_proxy''" "env ''HTTPS_PROXY''" "env ''all_proxy''" "env ''ALL_PROXY''"]
    js_or4_truthy [of "env ''http_proxy''" "env ''HTTP_PROXY''" "env ''all_proxy''" "env ''ALL_PROXY''"]
    js_or4_falsy [of "env ''http_proxy''" "env ''HTTP_PROXY''" "env ''all_proxy''" "env ''ALL_PROXY''"]
  unfolding target_http_def target_https_def
  by (auto split: option.splits simp del: js_or_first_truthy js_truthy_js_or first_truthy.simps)

end
