(* ===== verification/User_Update.thy ===== *)
theory User_Update
  imports Prelude
begin

text \<open>
  The one-off script \<open>src/update-user.ts\<close>: it sets the education stage and the
  enrollment year of the user \<open>admin@localhost\<close> through Prisma and disconnects. The
  users table is a map from the unique email to the two columns the script writes.
  \<open>prisma.user.update\<close> rejects when no row matches (Prisma's record-not-found error);
  the script does not catch it, so the rejection ends \<open>updateUser\<close> before
  \<open>$disconnect\<close>. Logging is not modelled.
\<close>

record user_row =
  educationStage :: "string option"
  enrollmentYear :: "int option"

type_synonym user_table = "string \<Rightarrow> user_row option"

datatype prisma_error = RecordNotFound

record script_state =
  users :: user_table
  disconnected :: bool

text \<open>\<open>prisma.user.update({where: {email}, data})\<close> on a unique key.\<close>

definition user_update :: "string \<Rightarrow> (user_row \<Rightarrow> user_row) \<Rightarrow> user_table \<Rightarrow> prisma_error + user_table" where
  "user_update email data db =
     (case db email of None \<Rightarrow> Inl RecordNotFound | Some u \<Rightarrow> Inr (db(email \<mapsto> data u)))"

definition updateUser :: "script_state \<Rightarrow> prisma_error + script_state" where
  "updateUser s =
     (let email = ''admin@localhost''
      in case user_update email (\<lambda>u. u\<lparr>educationStage := Some ''Junior High'', enrollmentYear := Some 2025\<rparr>) (users s) of
           Inl e \<Rightarrow> Inl e
         | Inr db \<Rightarrow> Inr (s\<lparr>users := db, disconnected := True\<rparr>))"

lemma updateUser_result:
  "updateUser s =
     (case users s ''admin@localhost'' of
        None \<Rightarrow> Inl RecordNotFound
      | Some u \<Rightarrow> Inr \<lparr>users = (users s)(''admin@localhost'' \<mapsto>
                            u\<lparr>educationStage := Some ''Junior High'', enrollmentYear := Some 2025\<rparr>),
                       disconnected = True\<rparr>)"
  by (simp add: updateUser_def user_update_def split: option.splits)

lemma updateUser_frame:
  assumes "updateUser s = Inr s'" and "e \<noteq> ''admin@localhost''"
  shows "users s' e = users s e"
  using assms by (auto simp: updateUser_result split: option.splits)

lemma updateUser_idem:
  assumes "updateUser s = Inr s'"
  shows "updateUser s' = Inr s'"
  using assms by (auto simp: updateUser_result split: option.splits)

end
