(* ===== verification/Spec2Isabelle.thy ===== *)
theory Spec2Isabelle
  imports Tags_Spec Tags_Migration Tags_Types Tags_Text Knowledge_Filter Pipeline_Progress Proxy User_Update
begin

text \<open>
  \<^bold>\<open>A verification development of wrong-notebook.\<close>

  The program keeps wrong exam questions. A student uploads a photo. An external classifier
  turns it into a structured draft. The student reviews and corrects the draft, then saves
  it. Tags come from a built-in curriculum and from a user-defined tag store in
  \<open>localStorage\<close>. The files under \<open>src/\<close> and the theories that model them:

  \<^item> \<open>Prelude\<close>: the lemma collections (\<open>model_simps\<close>, \<open>view_simps\<close>) and the list and
    string counterparts of JavaScript built-ins. \<open>js_trim\<close> is \<open>String.prototype.trim\<close>
    on ASCII white space, \<open>js_includes\<close> is \<open>includes\<close>, \<open>remove_nth\<close> is
    \<open>splice(i, 1)\<close>, \<open>find_idx\<close> is \<open>findIndex\<close>, and \<open>split_on\<close> is \<open>split\<close> on one
    character (runtime built-ins, not code of the repository).
  \<^item> \<open>JsValue\<close>: the runtime the sources rely on. A \<open>json\<close> datatype holds the values
    \<open>JSON.parse\<close> produces. \<open>jsobj\<close> is an object mutated in place: an array that gets
    named properties keeps them in memory, and \<open>JSON.stringify\<close> drops them. Property
    access throws a \<open>TypeError\<close> on \<open>null\<close>, as does a write on a primitive. Errors
    are the left injection of \<open>js_error + 'a\<close>. \<open>some\<close>, \<open>findIndex\<close> and \<open>map\<close>
    take callbacks that may throw.
  \<^item> \<open>Tags\<close>: \<open>src/src/lib/custom-tags.ts\<close>, one definition per exported function
    (\<open>getCustomTags\<close>, \<open>saveCustomTags\<close>, \<open>addCustomTag\<close>, \<open>removeCustomTag\<close>,
    \<open>getAllCustomTagsFlat\<close>, \<open>isCustomTag\<close>, \<open>exportCustomTags\<close>,
    \<open>importCustomTags\<close>, \<open>clearCustomTags\<close>, \<open>getCustomTagsStats\<close>).
    \<^item> The state is a \<open>browser\<close> record: whether \<open>window\<close> exists, the storage as a
      map from keys to stored text, and whether \<open>setItem\<close> succeeds.
    \<^item> The one-step migration loop of \<open>getCustomTags\<close> is \<open>migrate_subject\<close>, folded over
      the five subjects.
    \<^item> Lemmas: whatever is stored, a load yields the settled shape (an array under every
      subject, never a legacy string array). A load that migrates writes the migrated
      object back, and the written blob loads without further migration or writes.
      The error paths of each operation are proved as values of the result type.
  \<^item> \<open>Tags_Spec\<close>: the abstract tag store of the spec. A store maps each subject to a list
    of tag records.
    \<^item> \<open>store_view\<close> reads a browser through \<open>getCustomTags\<close>; \<open>tags_wf\<close> says the
      browser has a window, can write, and holds contents with an abstract reading.
    \<^item> Every operation refines its abstract counterpart (\<open>spec_add\<close>, \<open>spec_remove\<close>,
      \<open>spec_list_flat\<close>, \<open>spec_is_custom\<close>, \<open>spec_stats\<close>, \<open>spec_import\<close>). It returns the
      abstract result and leaves a browser whose view is the abstract successor, and that
      satisfies \<open>tags_wf\<close>.
    \<^item> The import normalisation of the spec (\<open>spec_import_tag\<close>, \<open>import_view\<close>) is
      written on abstract tags, apart from the code's \<open>import_tag\<close>; a lemma shows the
      code's normalisation decodes to it.
    \<^item> Export followed by import is the identity on the abstract store.
  \<^item> \<open>Tags_Migration\<close>: a per-member reference for the migration loop
    (\<open>migrate_member\<close>, \<open>legacy_member\<close>). The subject keys are distinct, so the
    \<open>forEach\<close> loop equals the pointwise rewrite. Equivalence theorem:
    \<open>load_tags_pointwise\<close>.
  \<^item> \<open>Tags_Types\<close>: the interfaces \<open>CustomTag\<close> and \<open>CustomTagsData\<close> as predicates on
    JSON values.
    \<^item> The abstract view is defined exactly on values of that type.
    \<^item> The \<open>as CustomTagsData\<close> cast of \<open>getCustomTags\<close> is not checked: a stored array
      starting with an element that is neither a string nor a tag object is returned
      as it is, and the result does not have the declared type.
  \<^item> \<open>Json_Text\<close>: the text behind the JSON values. \<open>pj gap ind\<close> is \<open>JSON.stringify\<close>
    with the empty gap (\<open>JSON.stringify(tags)\<close>) or a gap of spaces
    (\<open>JSON.stringify(tags, null, 2)\<close>). \<open>parse_json\<close> is \<open>JSON.parse\<close>: one recursive
    descent \<open>pjs\<close> over the four places of the grammar, with fuel.
    \<^item> Printing then parsing gives back every value whose objects have distinct keys
      (\<open>parse_json_pj\<close>), in both forms, nested indentation included.
    \<^item> What the parser returns has distinct keys (\<open>parse_json_wf\<close>): a repeated key keeps
      its first position and its last value.
  \<^item> \<open>Tags_Text\<close>: the tag store again, over \<open>localStorage\<close> as strings. The functions
    of \<open>custom-tags.ts\<close> are translated once more (\<open>getCustomTags_s\<close>, \<open>saveCustomTags_s\<close>
    and the rest), now writing and reading text.
    \<^item> \<open>abs_browser\<close> reads each stored text as what it parses to, or as malformed.
    \<^item> Each operation over text commutes with \<open>abs_browser\<close> and the operation of
      \<open>Tags\<close> while the storage is reachable; the texts the store writes parse back to
      the object written (\<open>parse_json_pj\<close>). The exported functions form a datatype of
      calls \<open>tag_op\<close> with the step function \<open>op_s\<close>.
    \<^item> The spec's export round trip holds of the exported string: importing it succeeds
      and keeps the abstract store and the stats (built on the value-level lemma of
      \<open>Tags_Spec\<close>).
    \<^item> The browser also records whether \<open>localStorage\<close> can be reached at all
      (\<open>s_storage_ok\<close>); where it cannot, each access throws a \<open>SecurityError\<close>.
      \<open>abs_browser\<close> reads such a browser as an empty store that cannot be written.
      The refinement holds while the storage is reachable. Where it is not, no call
      changes anything, \<open>addCustomTag\<close> still reports success, and \<open>clearCustomTags\<close>,
      whose \<open>removeItem\<close> is outside any \<open>try\<close>, throws to its caller.
  \<^item> \<open>Knowledge_Filter\<close>: \<open>src/src/components/knowledge-filter.tsx\<close> with
    \<open>MATH_CURRICULUM\<close> as a parameter. The curriculum module is not under \<open>src/\<close>; its
    shape is taken from the spec.
    \<^item> The component's \<open>useState\<close> triple is a record. \<open>handleGradeChange\<close>,
      \<open>handleChapterChange\<close>, \<open>handleTagChange\<close> and the two prop-sync effects are
      functions to the new state and the \<open>onFilterChange\<close> payload.
    \<^item> The user's choices form an inductive reachability relation. The cascade invariant
      holds on every reachable state (rule induction).
    \<^item> The prop-sync effects are not steps of that relation: they bypass the cascade,
      and the states they produce break it.
    \<^item> A chapter's label in its select, \<open>c.chapter.split(' ')[1] || c.chapter\<close>, is
      \<open>chapter_label\<close>.
  \<^item> \<open>Pipeline\<close>: the home page \<open>src/src/app/page.tsx\<close> with atomic handlers.
    \<^item> \<open>handleAnalyze\<close> and \<open>handleSave\<close> take the collaborators' outcomes as inputs:
      image processing, the analysis endpoint, the error-item endpoint.
    \<^item> Each handler returns the new page state and its effects (requests posted and
      alerts shown, in order).
    \<^item> \<open>page_enabled\<close> says which rendered component can raise which event. The
      properties here are of single handler runs; which states the page reaches is a
      question for the interleaved model, since the awaits of one handler let others
      run in between.
  \<^item> \<open>Pipeline_Async\<close>: the same page with each handler cut at its \<open>await\<close>s. A suspended
    handler is a pending task; pending tasks resume in any order, interleaved with user
    events.
    \<^item> The \<open>analyzing\<close> guard admits at most one analysis at a time.
    \<^item> A pending save still overwrites the page after the user has moved on. Two
      concrete traces show this.
  \<^item> \<open>Pipeline_Progress\<close>: the collaborators' side of the interleaved page.
    \<^item> Liveness: from every reachable state some answers settle every handler and
      clear \<open>analyzing\<close>.
  \<^item> \<open>Proxy\<close>: \<open>setupGlobalProxy\<close> of \<open>src/src/lib/global-proxy.ts\<close>, a function from the
    environment to the dispatcher installed, the updated environment, the
    \<open>GLOBAL_AGENT\<close> object and whether the bootstrap ran. The two calls that may throw
    are boolean parameters.
  \<^item> \<open>User_Update\<close>: the one-off script \<open>src/update-user.ts\<close>. The users table is a map from
    email to the two columns written. The script updates the \<open>admin@localhost\<close> row or
    rejects (no such row) before \<open>$disconnect\<close>. Lemmas: no other row changes, and a
    second run changes nothing.

  The components do not call one another. The page, the filter and the tag store meet
  only in UI components outside \<open>src/\<close> (\<open>CorrectionEditor\<close>, \<open>UploadZone\<close>), so each
  theory stands alone on \<open>Prelude\<close> and \<open>JsValue\<close>; \<open>Tags_Text\<close> builds on
  \<open>Tags_Spec\<close> and \<open>Json_Text\<close>. The spec wants the filter to offer
  user-defined tags beside the curriculum's. The one property that spans components,
  below, shows that it does not: the filter's tag options are independent of the tag
  store, so a tag just added is never offered.

  \<^bold>\<open>Choices.\<close>
  \<^item> No loop of the sources can diverge. The tag store folds over five subjects and
    over stored arrays; the filter and the page take one event at a time. Every
    definition of their code is therefore total and executable, and needs no fuel.
  \<^item> The only repetition that depends on the environment is the resumption of
    suspended handlers; each resumption ends a handler or moves it to its last await,
    and \<open>Pipeline_Progress\<close> shows that answers alone can end them all.
  \<^item> The interleaved page is explored through reachability. The refinement and
    invariant lemmas cover all interleavings; the two bad runs are concrete
    reachable states.
  \<^item> \<open>Tags\<close> and the theories on it take stored text as the value it parses to, or as
    malformed. \<open>Tags_Text\<close> discharges this: over real text each call behaves the
    same, because the store writes only texts that parse back to what was written.
  \<^item> The parser's fuel is one unit more than the text has characters. Each call of
    \<open>pjs\<close> uses one unit. A printed value needs at most \<open>jfuel\<close> units, and
    \<open>jfuel\<close> never exceeds the printed length, so the fuel always suffices for printed
    text. On other text it is not shown to suffice; running out is a parse failure,
    like a syntax error. This matters only for text the store did not write itself.

  \<^bold>\<open>Not modelled.\<close>
  \<^item> Logging (\<open>console.*\<close>).
  \<^item> Characters beyond bytes and non-integer numbers in JSON text. Characters are 8-bit,
    so a \<open>\u\<close> escape is read only below 256. Numbers are integers; the stored values
    hold no other numbers.
  \<^item> Rendering beyond which components are shown.
  \<^item> Several browser contexts (tabs) sharing one \<open>localStorage\<close>. The model has one
    context, in which each exported function runs to completion. The spec calls
    concurrent mutation from two contexts a last-write-wins race and leaves it out of
    scope. How writes of one tab show in another depends on the browser.
  \<^item> The modules the sources import but that are not under \<open>src/\<close>. The curriculum is
    modelled from the spec; the editor, the upload zone and the image utilities appear
    only through their effect on the page's events.
\<close>

text \<open>Every tag named anywhere in the curriculum.\<close>

definition curriculum_tags :: "curriculum \<Rightarrow> string set" where
  "curriculum_tags cur = (\<Union>c \<in> set (concat (map snd cur)). set (chapter_tags c))"

lemma chapters_of_sub:
  assumes "c \<in> set (chapters_of cur g)"
  shows "c \<in> set (concat (map snd cur))"
proof (cases "map_of cur g")
  case None
  with assms show ?thesis by (simp add: chapters_of_def split: if_splits)
next
  case (Some cs)
  then have "(g, cs) \<in> set cur" by (rule map_of_SomeD)
  moreover from assms Some have "c \<in> set cs" by (simp add: chapters_of_def split: if_splits)
  ultimately show ?thesis by force
qed

lemma tags_of_curriculum: "set (tags_of cur st) \<subseteq> curriculum_tags cur"
proof
  fix x assume x: "x \<in> set (tags_of cur st)"
  then obtain c where cc: "current_chapter cur st = Some c" and "x \<in> set (chapter_tags c)"
    by (cases "current_chapter cur st") (auto simp: tags_of_def)
  moreover from cc have "c \<in> set (chapters_of cur (grade_sel st))"
    using find_Some_mem by (fastforce simp: current_chapter_def)
  ultimately show "x \<in> curriculum_tags cur"
    using chapters_of_sub [of c cur "grade_sel st"] by (auto simp: curriculum_tags_def)
qed

text \<open>C18. The knowledge filter and the tag store do not meet: the tags the filter's tag
  select offers are always \<open>"all"\<close> and tags of the curriculum, whatever the tag store
  holds. A tag just added with \<open>addCustomTag\<close>, for which \<open>isCustomTag\<close> answers
  true, is never offered under a curriculum that lacks it, although the spec (4.3) says
  the filter offers user-defined tags alongside the built-in ones.\<close>

theorem filter_offers_only_curriculum:
  "set (tag_options cur st) \<subseteq> insert ''all'' (curriculum_tags cur) \<and>
   fst (isCustomTag ''x'' (snd (addCustomTag Math ''x'' ''default''
      \<lparr>has_window = True, local_storage = Map.empty, quota_ok = True\<rparr>))) = Inr True \<and>
   ''x'' \<notin> curriculum_tags [(''g'', [\<lparr>chapter_name = ''c'', sections = [\<lparr>sec_tags = Some [''a''], subsections = None\<rparr>]\<rparr>])]"
proof (intro conjI)
  show "set (tag_options cur st) \<subseteq> insert ''all'' (curriculum_tags cur)"
    using tags_of_curriculum by (auto simp: tag_options_def)
  show "fst (isCustomTag ''x'' (snd (addCustomTag Math ''x'' ''default''
      \<lparr>has_window = True, local_storage = Map.empty, quota_ok = True\<rparr>))) = Inr True"
    by (simp add: addCustomTag_def isCustomTag_def getAllCustomTagsFlat_def getCustomTags_def
        saveCustomTags_def js_trim_def is_js_ws_def empty_tags_def Let_def name_is_def
        subject_names_def tag_obj_def load_tags_def subjects_def migrate_subject.simps)
  show "''x'' \<notin> curriculum_tags [(''g'', [\<lparr>chapter_name = ''c'', sections = [\<lparr>sec_tags = Some [''a''], subsections = None\<rparr>]\<rparr>])]"
    by (simp add: curriculum_tags_def chapter_tags_def section_tag_list_def)
qed

end
